theory Spec2Isabelle
  imports Main "HOL-Library.Word" "HOL-Library.Multiset" "HOL-Library.Char_ord"
    "HOL-Library.List_Lexorder"
begin

section \<open>Scope algebra of the query planner (Scope.ts)\<close>

text \<open>
  A GraphQL composite type of the (single) supergraph schema is identified by its name:
  the source compares type objects by reference, and within one schema a name denotes one
  type object. \<open>parentType.name\<close> and the string conversion of a type are that name.
\<close>

type_synonym gql_type = string

datatype value_node =
    Variable string
  | IntValue string
  | FloatValue string
  | StringValue string
  | EnumValue string
  | BooleanValue bool
  | NullValue
  | ListValue "value_node list"
  | ObjectValue "(string \<times> value_node) list"

record directive_node =
  d_name :: string
  d_arguments :: "(string \<times> value_node) list option"

text \<open>
  The functions that Scope and QueryPlanningContext call on the schema and its
  federation metadata: \<open>isAbstractType\<close>, \<open>schema.getPossibleTypes\<close>, \<open>isTypeSubTypeOf\<close> and
  \<open>isCompositeType\<close> of graphql-js, \<open>getFieldDef\<close> of utilities/graphql, the fragment map of
  the operation, and the keys, requires and provides read by
  \<open>getFederationMetadataForType\<close> and \<open>getFederationMetadataForField\<close>. None of them is
  defined in the files at hand; they are parameters of the model. A type condition names
  its type, so \<open>typeFromAST\<close> is the identity on names.
\<close>

datatype type_expr = NamedType gql_type | ListOf type_expr | NonNull type_expr

datatype selection_node =
    FieldNode string "selection_node list"
  | InlineFragment "gql_type option" "directive_node list option" "selection_node list"
  | FragmentSpread string "directive_node list option"

record field_def =
  fd_name :: string
  fd_type :: type_expr

record fragment_definition =
  fr_typeCondition :: "gql_type option"
  fr_selectionSet :: "selection_node list"

record qp_context =
  isAbstractType :: "gql_type \<Rightarrow> bool"
  schema_getPossibleTypes :: "gql_type \<Rightarrow> gql_type list"
  isTypeSubTypeOf :: "gql_type \<Rightarrow> gql_type \<Rightarrow> bool"
  isCompositeType :: "gql_type \<Rightarrow> bool"
  schema_getFieldDef :: "gql_type \<Rightarrow> string \<Rightarrow> field_def option"
  fragments :: "string \<Rightarrow> fragment_definition option"
  typeKeys :: "gql_type \<Rightarrow> string \<Rightarrow> selection_node list list option"
  fieldRequires :: "field_def \<Rightarrow> selection_node list option"
  fieldProvides :: "field_def \<Rightarrow> selection_node list option"

text \<open>QueryPlanningContext.getPossibleTypes.\<close>

definition getPossibleTypes :: "qp_context \<Rightarrow> gql_type \<Rightarrow> gql_type list" where
  "getPossibleTypes ctx t =
     (if isAbstractType ctx t then schema_getPossibleTypes ctx t else [t])"

text \<open>
  A scope is a chain of links; every link of a chain is built with the context of the link
  it refines, so the context is passed beside the chain.
\<close>

datatype scope = Scope (parentType: gql_type) (directives: "directive_node list option")
  (enclosing: "scope option")

definition create :: "gql_type \<Rightarrow> scope" where
  "create t = Scope t None None"

fun isStrictlyRefinedBy :: "qp_context \<Rightarrow> scope \<Rightarrow> gql_type \<Rightarrow> bool" where
  "isStrictlyRefinedBy ctx (Scope p d enc) t =
     (if isTypeSubTypeOf ctx p t then False
      else (case enc of None \<Rightarrow> True | Some s \<Rightarrow> isStrictlyRefinedBy ctx s t))"

fun pruneRefinedTypes :: "qp_context \<Rightarrow> scope option \<Rightarrow> gql_type \<Rightarrow> scope option" where
  "pruneRefinedTypes ctx None refiningType = None"
| "pruneRefinedTypes ctx (Some (Scope p d enc)) refiningType =
     (if d = None \<and> isTypeSubTypeOf ctx refiningType p
      then pruneRefinedTypes ctx enc refiningType
      else Some (Scope p d (pruneRefinedTypes ctx enc refiningType)))"

definition refine :: "qp_context \<Rightarrow> scope \<Rightarrow> gql_type \<Rightarrow> directive_node list option \<Rightarrow> scope" where
  "refine ctx this t dirs =
     (let dirs' = (case dirs of Some [] \<Rightarrow> None | _ \<Rightarrow> dirs) in
      if dirs' \<noteq> None then Scope t dirs' (Some this)
      else if \<not> isStrictlyRefinedBy ctx this t then this
      else Scope t dirs' (pruneRefinedTypes ctx (Some this) t))"

fun intersectEnclosing :: "qp_context \<Rightarrow> gql_type list \<Rightarrow> scope option \<Rightarrow> gql_type list" where
  "intersectEnclosing ctx possibleTypes None = possibleTypes"
| "intersectEnclosing ctx possibleTypes (Some (Scope p d enc)) =
     intersectEnclosing ctx
       (filter (\<lambda>t. t \<in> set (getPossibleTypes ctx p)) possibleTypes) enc"

fun computePossibleRuntimeTypes :: "qp_context \<Rightarrow> scope \<Rightarrow> gql_type list" where
  "computePossibleRuntimeTypes ctx (Scope p d enc) =
     intersectEnclosing ctx (getPossibleTypes ctx p) enc"

text \<open>The cache of possibleRuntimeTypes only stores what computePossibleRuntimeTypes returns.\<close>

definition possibleRuntimeTypes :: "qp_context \<Rightarrow> scope \<Rightarrow> gql_type list" where
  "possibleRuntimeTypes ctx s = computePossibleRuntimeTypes ctx s"

subsection \<open>Equality and hash of scopes\<close>

text \<open>
  \<open>Scope.directiveToString\<close> is \<open>stripIgnoredCharacters(print(d))\<close>, both of graphql-js: the
  printer is the parameter \<open>pr\<close> of the functions below. \<open>Array.prototype.sort\<close> without a
  comparator orders strings by their code units, here the lexicographic order of the
  character codes.
\<close>

function directiveStringsAgree :: "string list \<Rightarrow> string list \<Rightarrow> nat \<Rightarrow> nat \<Rightarrow> bool" where
  "directiveStringsAgree d1Strings d2Strings i n =
     (if i < n
      then (if d1Strings ! i \<noteq> d2Strings ! i then False
            else directiveStringsAgree d1Strings d2Strings (Suc i) n)
      else True)"
  by pat_completeness auto
termination
  by (relation "measure (\<lambda>(d1Strings, d2Strings, i, n). n - i)") auto

declare directiveStringsAgree.simps [simp del]

definition directivesEquals ::
  "(directive_node \<Rightarrow> string) \<Rightarrow> directive_node list option \<Rightarrow> directive_node list option \<Rightarrow> bool"
where
  "directivesEquals pr d1 d2 =
     (case d1 of
        None \<Rightarrow> d2 = None
      | Some l1 \<Rightarrow>
          (case d2 of
             None \<Rightarrow> False
           | Some l2 \<Rightarrow>
               if length l1 \<noteq> length l2 then False
               else directiveStringsAgree (sort (map pr l1)) (sort (map pr l2)) 0 (length l1)))"

fun equalsLoop ::
  "(directive_node \<Rightarrow> string) \<Rightarrow> scope option \<Rightarrow> scope option \<Rightarrow> bool" where
  "equalsLoop pr (Some (Scope p1 d1 e1)) (Some (Scope p2 d2 e2)) =
     (if p1 \<noteq> p2 \<or> \<not> directivesEquals pr d1 d2 then False else equalsLoop pr e1 e2)"
| "equalsLoop pr thisScope thatScope = (thisScope = None \<and> thatScope = None)"

definition equals :: "(directive_node \<Rightarrow> string) \<Rightarrow> scope \<Rightarrow> scope \<Rightarrow> bool" where
  "equals pr this other = equalsLoop pr (Some this) (Some other)"

text \<open>
  \<open>Math.imul(31, h) + s.charCodeAt(i) | 0\<close> is the sum truncated to a signed 32-bit
  integer: arithmetic on \<open>32 word\<close>. The result of \<open>hashCode\<close> is the signed reading of
  the word.
\<close>

fun stringHashLoop :: "32 word \<Rightarrow> string \<Rightarrow> 32 word" where
  "stringHashLoop h [] = h"
| "stringHashLoop h (c # s) = stringHashLoop (31 * h + of_nat (of_char c)) s"

definition stringHash :: "string \<Rightarrow> 32 word" where
  "stringHash s = stringHashLoop 31 s"

definition hashCode :: "(directive_node \<Rightarrow> string) \<Rightarrow> scope \<Rightarrow> int" where
  "hashCode pr this =
     (let hash = stringHash (parentType this) in
      sint (case directives this of
              None \<Rightarrow> hash
            | Some ds \<Rightarrow>
                hash + foldl (\<lambda>prev curr. 31 * prev + curr) 31
                         (map (\<lambda>d. stringHash (pr d)) ds)))"

subsection \<open>The earlier Scope class, with identityKey\<close>

text \<open>
  The earlier class is flat: a parent type, the possible types (sorted by the
  constructor) and the directives. Its methods are passed to \<open>Array.prototype.map\<close>
  unbound, so inside the callback \<open>this\<close> is undefined (class bodies are strict code) and
  reading a property of it raises a TypeError. The flag \<open>this_bound\<close> of the two key
  functions records whether \<open>this\<close> is the scope or undefined.
\<close>

datatype js_error = TypeError | GraphQLError string

record flat_scope =
  fs_parentType :: gql_type
  fs_possibleTypes :: "gql_type list"
  fs_directives :: "directive_node list option"

definition flatScope :: "gql_type \<Rightarrow> gql_type list \<Rightarrow> directive_node list option \<Rightarrow> flat_scope" where
  "flatScope p possibleTypes ds =
     \<lparr>fs_parentType = p, fs_possibleTypes = sort possibleTypes, fs_directives = ds\<rparr>"

fun join :: "string \<Rightarrow> string list \<Rightarrow> string" where
  "join sep [] = []"
| "join sep [x] = x"
| "join sep (x # y # ys) = x @ sep @ join sep (y # ys)"

fun sequence :: "('e + 'a) list \<Rightarrow> 'e + 'a list" where
  "sequence [] = Inr []"
| "sequence (x # xs) =
     (case x of
        Inl e \<Rightarrow> Inl e
      | Inr v \<Rightarrow> (case sequence xs of Inl e \<Rightarrow> Inl e | Inr vs \<Rightarrow> Inr (v # vs)))"

fun valueIdentityKey :: "bool \<Rightarrow> value_node \<Rightarrow> js_error + string" where
  "valueIdentityKey this_bound (Variable n) = Inr n"
| "valueIdentityKey this_bound (IntValue v) = Inr v"
| "valueIdentityKey this_bound (FloatValue v) = Inr v"
| "valueIdentityKey this_bound (StringValue v) = Inr v"
| "valueIdentityKey this_bound (EnumValue v) = Inr v"
| "valueIdentityKey this_bound (BooleanValue b) = Inr (if b then ''true'' else ''false'')"
| "valueIdentityKey this_bound NullValue = Inr ''<null>''"
| "valueIdentityKey this_bound (ListValue vs) =
     (if \<not> this_bound then Inl TypeError
      else (case sequence (map (valueIdentityKey False) vs) of
              Inl e \<Rightarrow> Inl e
            | Inr ks \<Rightarrow> Inr (join ''-'' ks)))"
| "valueIdentityKey this_bound (ObjectValue fs) =
     (case sequence (map (\<lambda>f. if \<not> this_bound then Inl TypeError
                                else (case valueIdentityKey True (snd f) of
                                        Inl e \<Rightarrow> Inl e
                                      | Inr k \<Rightarrow> Inr (fst f @ ''-'' @ k))) fs) of
        Inl e \<Rightarrow> Inl e
      | Inr ks \<Rightarrow> Inr (join ''-'' ks))"

definition directiveIdentityKey :: "bool \<Rightarrow> directive_node \<Rightarrow> js_error + string" where
  "directiveIdentityKey this_bound directive =
     (case (case d_arguments directive of
              None \<Rightarrow> Inr ''''
            | Some args \<Rightarrow>
                (case sequence (map (\<lambda>arg. if \<not> this_bound then Inl TypeError
                                             else (case valueIdentityKey True (snd arg) of
                                                     Inl e \<Rightarrow> Inl e
                                                   | Inr k \<Rightarrow> Inr (fst arg @ ''-'' @ k))) args) of
                   Inl e \<Rightarrow> Inl e
                 | Inr ks \<Rightarrow> Inr (join ''-'' ks))) of
        Inl e \<Rightarrow> Inl e
      | Inr argumentsKey \<Rightarrow> Inr (d_name directive @ ''-'' @ argumentsKey))"

text \<open>The cached key is the key computed at the first call; the fields are read-only.\<close>

definition identityKey :: "flat_scope \<Rightarrow> js_error + string" where
  "identityKey this =
     (case (case fs_directives this of
              None \<Rightarrow> Inr ''''
            | Some ds \<Rightarrow>
                (case sequence (map (directiveIdentityKey False) ds) of
                   Inl e \<Rightarrow> Inl e
                 | Inr ks \<Rightarrow> Inr (join ''-'' ks))) of
        Inl e \<Rightarrow> Inl e
      | Inr directivesKey \<Rightarrow>
          Inr (fs_parentType this @ ''-'' @ join ''-'' (fs_possibleTypes this) @ ''-''
               @ directivesKey))"

subsection \<open>Directive equality in the words of the specification\<close>

text \<open>
  ``Two directive lists are equal iff they are element-wise equal; element equality
  compares names and argument maps.'' An absent argument list is an empty one.
\<close>

definition argumentsOf :: "directive_node \<Rightarrow> (string \<times> value_node) list" where
  "argumentsOf d = (case d_arguments d of None \<Rightarrow> [] | Some args \<Rightarrow> args)"

definition directiveElementEquals :: "directive_node \<Rightarrow> directive_node \<Rightarrow> bool" where
  "directiveElementEquals a b =
     (d_name a = d_name b
      \<and> list_all (\<lambda>k. map_of (argumentsOf a) k = map_of (argumentsOf b) k)
           (map fst (argumentsOf a) @ map fst (argumentsOf b)))"

definition directivesElementwiseEqual :: "directive_node list \<Rightarrow> directive_node list \<Rightarrow> bool" where
  "directivesElementwiseEqual d1 d2 = list_all2 directiveElementEquals d1 d2"

text \<open>
  What \<open>stripIgnoredCharacters(print(d))\<close> of graphql-js gives for a directive without
  arguments: the \<open>@\<close> sign and the name. Used to evaluate the functions on such directives.
\<close>

definition printBareDirective :: "directive_node \<Rightarrow> string" where
  "printBareDirective d = ''@'' @ d_name d"

definition bareDirective :: "string \<Rightarrow> directive_node" where
  "bareDirective n = \<lparr>d_name = n, d_arguments = None\<rparr>"

section \<open>Field collection of the planning context (QueryPlanningContext.ts)\<close>

type_synonym field_set = "(scope \<times> selection_node \<times> field_def) list"

definition typenameField :: selection_node where
  "typenameField = FieldNode ''__typename'' []"

definition TypeNameMetaFieldDef :: field_def where
  "TypeNameMetaFieldDef = \<lparr>fd_name = ''__typename'', fd_type = NonNull (NamedType ''String'')\<rparr>"

fun getNamedType :: "type_expr \<Rightarrow> gql_type" where
  "getNamedType (NamedType t) = t"
| "getNamedType (ListOf t) = getNamedType t"
| "getNamedType (NonNull t) = getNamedType t"

definition getFieldDef :: "qp_context \<Rightarrow> gql_type \<Rightarrow> string \<Rightarrow> js_error + field_def" where
  "getFieldDef ctx parent fieldName =
     (case schema_getFieldDef ctx parent fieldName of
        None \<Rightarrow>
          Inl (GraphQLError (''Cannot query field \"'' @ fieldName @ ''\" on type \"'' @ parent
                 @ ''\"''))
      | Some fieldDef \<Rightarrow> Inr fieldDef)"

definition getFragmentCondition :: "gql_type \<Rightarrow> gql_type option \<Rightarrow> gql_type" where
  "getFragmentCondition parent typeCondition =
     (case typeCondition of None \<Rightarrow> parent | Some t \<Rightarrow> t)"

definition scopeForFragment ::
  "qp_context \<Rightarrow> scope \<Rightarrow> gql_type option \<Rightarrow> directive_node list option \<Rightarrow> scope option" where
  "scopeForFragment ctx currentScope typeCondition fragmentDirectives =
     (let condition = getFragmentCondition (parentType currentScope) typeCondition;
          newScope = refine ctx currentScope condition fragmentDirectives
      in if length (possibleRuntimeTypes ctx newScope) = 0 then None else Some newScope)"

text \<open>
  Fragment spreads may refer to each other in a cycle, in which case the source recurses
  without end: \<open>collectFields\<close> takes fuel for the nesting depth, \<open>None\<close> says that the fuel
  ran out, \<open>Some (Inl e)\<close> that the source threw \<open>e\<close>.
\<close>

fun collectFields ::
  "nat \<Rightarrow> qp_context \<Rightarrow> scope \<Rightarrow> selection_node list \<Rightarrow> field_set
     \<Rightarrow> (js_error + field_set) option" where
  "collectFields fuel ctx scope [] flds = Some (Inr flds)"
| "collectFields fuel ctx scope (FieldNode name sub # rest) flds =
     (case getFieldDef ctx (parentType scope) name of
        Inl e \<Rightarrow> Some (Inl e)
      | Inr fieldDef \<Rightarrow>
          collectFields fuel ctx scope rest (flds @ [(scope, FieldNode name sub, fieldDef)]))"
| "collectFields fuel ctx scope (InlineFragment typeCondition dirs sub # rest) flds =
     (case scopeForFragment ctx scope typeCondition dirs of
        None \<Rightarrow> collectFields fuel ctx scope rest flds
      | Some newScope \<Rightarrow>
          (case fuel of
             0 \<Rightarrow> None
           | Suc n \<Rightarrow>
               (case collectFields n ctx newScope sub flds of
                  None \<Rightarrow> None
                | Some (Inl e) \<Rightarrow> Some (Inl e)
                | Some (Inr flds') \<Rightarrow> collectFields fuel ctx scope rest flds')))"
| "collectFields fuel ctx scope (FragmentSpread fragmentName dirs # rest) flds =
     (case fragments ctx fragmentName of
        None \<Rightarrow> collectFields fuel ctx scope rest flds
      | Some fragment \<Rightarrow>
          (case scopeForFragment ctx scope (fr_typeCondition fragment) dirs of
             None \<Rightarrow> collectFields fuel ctx scope rest flds
           | Some newScope \<Rightarrow>
               (case fuel of
                  0 \<Rightarrow> None
                | Suc n \<Rightarrow>
                    (case collectFields n ctx newScope (fr_selectionSet fragment) flds of
                       None \<Rightarrow> None
                     | Some (Inl e) \<Rightarrow> Some (Inl e)
                     | Some (Inr flds') \<Rightarrow> collectFields fuel ctx scope rest flds'))))"

text \<open>\<open>keys.flatMap(key => this.collectFields(scope.refine(possibleType), key))\<close>.\<close>

fun collectKeys ::
  "nat \<Rightarrow> qp_context \<Rightarrow> scope \<Rightarrow> selection_node list list \<Rightarrow> (js_error + field_set) option" where
  "collectKeys fuel ctx scope [] = Some (Inr [])"
| "collectKeys fuel ctx scope (key # keys) =
     (case collectFields fuel ctx scope key [] of
        None \<Rightarrow> None
      | Some (Inl e) \<Rightarrow> Some (Inl e)
      | Some (Inr fs) \<Rightarrow>
          (case collectKeys fuel ctx scope keys of
             None \<Rightarrow> None
           | Some (Inl e) \<Rightarrow> Some (Inl e)
           | Some (Inr fs') \<Rightarrow> Some (Inr (fs @ fs'))))"

fun keyFieldsLoop ::
  "nat \<Rightarrow> qp_context \<Rightarrow> scope \<Rightarrow> string \<Rightarrow> bool \<Rightarrow> gql_type list \<Rightarrow> field_set
     \<Rightarrow> (js_error + field_set) option" where
  "keyFieldsLoop fuel ctx scope serviceName fetchAll [] keyFields = Some (Inr keyFields)"
| "keyFieldsLoop fuel ctx scope serviceName fetchAll (possibleType # rest) keyFields =
     (case typeKeys ctx possibleType serviceName of
        None \<Rightarrow> keyFieldsLoop fuel ctx scope serviceName fetchAll rest keyFields
      | Some [] \<Rightarrow> keyFieldsLoop fuel ctx scope serviceName fetchAll rest keyFields
      | Some (key0 # keys) \<Rightarrow>
          (case (if fetchAll
                 then collectKeys fuel ctx (refine ctx scope possibleType None) (key0 # keys)
                 else collectFields fuel ctx (refine ctx scope possibleType None) key0 []) of
             None \<Rightarrow> None
           | Some (Inl e) \<Rightarrow> Some (Inl e)
           | Some (Inr fs) \<Rightarrow>
               keyFieldsLoop fuel ctx scope serviceName fetchAll rest (keyFields @ fs)))"

definition getKeyFields ::
  "nat \<Rightarrow> qp_context \<Rightarrow> scope \<Rightarrow> string \<Rightarrow> bool \<Rightarrow> (js_error + field_set) option" where
  "getKeyFields fuel ctx scope serviceName fetchAll =
     keyFieldsLoop fuel ctx scope serviceName fetchAll (possibleRuntimeTypes ctx scope)
       [(scope, typenameField, TypeNameMetaFieldDef)]"

definition getRequiredFields ::
  "nat \<Rightarrow> qp_context \<Rightarrow> scope \<Rightarrow> field_def \<Rightarrow> string \<Rightarrow> (js_error + field_set) option" where
  "getRequiredFields fuel ctx scope fieldDef serviceName =
     (case getKeyFields fuel ctx scope serviceName False of
        None \<Rightarrow> None
      | Some (Inl e) \<Rightarrow> Some (Inl e)
      | Some (Inr requiredFields) \<Rightarrow>
          (case fieldRequires ctx fieldDef of
             None \<Rightarrow> Some (Inr requiredFields)
           | Some requires \<Rightarrow>
               (case collectFields fuel ctx scope requires [] of
                  None \<Rightarrow> None
                | Some (Inl e) \<Rightarrow> Some (Inl e)
                | Some (Inr fs) \<Rightarrow> Some (Inr (requiredFields @ fs)))))"

definition getProvidedFields ::
  "nat \<Rightarrow> qp_context \<Rightarrow> field_def \<Rightarrow> string \<Rightarrow> (js_error + field_set) option" where
  "getProvidedFields fuel ctx fieldDef serviceName =
     (let returnType = getNamedType (fd_type fieldDef) in
      if \<not> isCompositeType ctx returnType then Some (Inr [])
      else
        (case getKeyFields fuel ctx (create returnType) serviceName True of
           None \<Rightarrow> None
         | Some (Inl e) \<Rightarrow> Some (Inl e)
         | Some (Inr providedFields) \<Rightarrow>
             (case fieldProvides ctx fieldDef of
                None \<Rightarrow> Some (Inr providedFields)
              | Some provides \<Rightarrow>
                  (case collectFields fuel ctx (create returnType) provides [] of
                     None \<Rightarrow> None
                   | Some (Inl e) \<Rightarrow> Some (Inl e)
                   | Some (Inr fs) \<Rightarrow> Some (Inr (providedFields @ fs))))))"

text \<open>
  A small schema for evaluating the functions: the objects \<open>A\<close> and \<open>B\<close> implement the
  interface \<open>I\<close>; \<open>A\<close> has the key \<open>id\<close> in the service \<open>S1\<close>.
\<close>

definition example_context :: qp_context where
  "example_context =
     \<lparr>isAbstractType = (\<lambda>t. t = ''I''),
      schema_getPossibleTypes = (\<lambda>t. if t = ''I'' then [''A'', ''B''] else []),
      isTypeSubTypeOf = (\<lambda>a b. a = b \<or> (b = ''I'' \<and> (a = ''A'' \<or> a = ''B''))),
      isCompositeType = (\<lambda>t. t = ''A'' \<or> t = ''B'' \<or> t = ''I''),
      schema_getFieldDef =
        (\<lambda>t f. if f = ''__typename'' then Some TypeNameMetaFieldDef
               else if f = ''id'' \<and> (t = ''A'' \<or> t = ''B'' \<or> t = ''I'')
               then Some \<lparr>fd_name = ''id'', fd_type = NamedType ''ID''\<rparr>
               else if f = ''other'' \<and> t = ''A''
               then Some \<lparr>fd_name = ''other'', fd_type = ListOf (NamedType ''I'')\<rparr>
               else None),
      fragments = (\<lambda>n. None),
      typeKeys = (\<lambda>t s. if t = ''A'' \<and> s = ''S1'' then Some [[FieldNode ''id'' []]] else None),
      fieldRequires = (\<lambda>f. None),
      fieldProvides = (\<lambda>f. None)\<rparr>"

section \<open>Precomputed federation predicates (precompute.ts)\<close>

text \<open>
  The subgraph schema as \<open>computeAllFieldsWithDirective\<close> reads it: the named types with
  their kind, applied directives and fields; each directive application and each field
  knows the extension it was declared in (\<open>ofExtension()\<close>, \<open>undefined\<close> for the type
  definition itself). A directive application refers to its definition by name.

  A field coordinate \<open>Type.field\<close> is the pair of the two names: GraphQL names contain no
  dot, so the pair and the string determine each other.
\<close>

datatype type_kind = ObjectType | InterfaceType | UnionType | ScalarType | EnumType
  | InputObjectType

type_synonym coordinate = "string \<times> string"

record applied_directive =
  ad_name :: string
  ad_arguments :: "(string \<times> string) list"
  ad_ofExtension :: "nat option"

record sg_field =
  sf_name :: string
  sf_type :: type_expr
  sf_appliedDirectives :: "applied_directive list"
  sf_ofExtension :: "nat option"

record sg_type =
  st_name :: string
  st_kind :: type_kind
  st_interfaces :: "string list"
  st_appliedDirectives :: "applied_directive list"
  st_fields :: "sg_field list"

text \<open>
  \<open>federationMetadata(schema)\<close>: the names under which the schema knows the federation
  directives, whether it is a federation 2 schema, and which fields are external.
\<close>

record federation_metadata =
  isFed2Schema :: bool
  keyDirective :: string
  providesDirective :: string
  shareableDirective :: string
  isFieldExternal :: "coordinate \<Rightarrow> bool"

record sg_schema =
  sch_types :: "sg_type list"
  sch_metadata :: "federation_metadata option"

definition appliedDirectivesOf :: "string \<Rightarrow> applied_directive list \<Rightarrow> applied_directive list" where
  "appliedDirectivesOf definition_name ds = filter (\<lambda>d. ad_name d = definition_name) ds"

definition hasAppliedDirective :: "string \<Rightarrow> applied_directive list \<Rightarrow> bool" where
  "hasAppliedDirective definition_name ds = (appliedDirectivesOf definition_name ds \<noteq> [])"

definition typesOfKind :: "sg_schema \<Rightarrow> type_kind \<Rightarrow> sg_type list" where
  "typesOfKind schema k = filter (\<lambda>t. st_kind t = k) (sch_types schema)"

text \<open>
  \<open>collectTargetFields\<close> is not among the files at hand: it is the parameter \<open>ctf\<close>, from
  the schema, the name of the type the selection starts at and the directive application
  to the coordinates of the fields the selection of the directive reaches (with the
  options the source always passes: implementations of interface fields included, no
  validation). The set \<open>fields\<close> of the source is a list without duplicates.
\<close>

type_synonym collect_target_fields =
  "sg_schema \<Rightarrow> string \<Rightarrow> applied_directive \<Rightarrow> coordinate list"

definition addAll :: "coordinate list \<Rightarrow> coordinate list \<Rightarrow> coordinate list" where
  "addAll cs flds = fold List.insert cs flds"

definition addKeyFields ::
  "collect_target_fields \<Rightarrow> sg_schema \<Rightarrow> federation_metadata \<Rightarrow> sg_type \<Rightarrow> coordinate list
     \<Rightarrow> coordinate list" where
  "addKeyFields ctf schema metadata t flds =
     fold (\<lambda>key acc. addAll (ctf schema (st_name t) key) acc)
       (appliedDirectivesOf (keyDirective metadata) (st_appliedDirectives t)) flds"

definition fieldIsShareable ::
  "string option \<Rightarrow> applied_directive list \<Rightarrow> sg_field \<Rightarrow> bool" where
  "fieldIsShareable directive directivesOnType field =
     ((case directive of
         None \<Rightarrow> False
       | Some d \<Rightarrow> hasAppliedDirective d (sf_appliedDirectives field))
      \<or> (length directivesOnType > 0
          \<and> list_ex (\<lambda>d. sf_ofExtension field = ad_ofExtension d) directivesOnType))"

definition addProvided ::
  "collect_target_fields \<Rightarrow> sg_schema \<Rightarrow> federation_metadata \<Rightarrow> sg_field \<Rightarrow> coordinate list
     \<Rightarrow> coordinate list" where
  "addProvided ctf schema metadata field flds =
     fold (\<lambda>provides acc.
             addAll (filter (isFieldExternal metadata)
                       (ctf schema (getNamedType (sf_type field)) provides)) acc)
       (appliedDirectivesOf (providesDirective metadata) (sf_appliedDirectives field)) flds"

definition addObjectField ::
  "collect_target_fields \<Rightarrow> sg_schema \<Rightarrow> federation_metadata \<Rightarrow> string option \<Rightarrow> bool
     \<Rightarrow> sg_type \<Rightarrow> applied_directive list \<Rightarrow> sg_field \<Rightarrow> coordinate list \<Rightarrow> coordinate list" where
  "addObjectField ctf schema metadata directive includeOtherFieldsOnType t directivesOnType
     field flds =
     addProvided ctf schema metadata field
       (if fieldIsShareable directive directivesOnType field \<and> includeOtherFieldsOnType
        then List.insert (st_name t, sf_name field) flds else flds)"

definition addObjectType ::
  "collect_target_fields \<Rightarrow> sg_schema \<Rightarrow> federation_metadata \<Rightarrow> string option \<Rightarrow> bool
     \<Rightarrow> sg_type \<Rightarrow> coordinate list \<Rightarrow> coordinate list" where
  "addObjectType ctf schema metadata directive includeOtherFieldsOnType t flds =
     (let flds1 = addKeyFields ctf schema metadata t flds;
          directivesOnType =
            (case directive of
               None \<Rightarrow> []
             | Some d \<Rightarrow> appliedDirectivesOf d (st_appliedDirectives t))
      in fold (addObjectField ctf schema metadata directive includeOtherFieldsOnType t
                 directivesOnType)
           (st_fields t) flds1)"

datatype assertion_error = AssertionError string

definition computeAllFieldsWithDirective ::
  "collect_target_fields \<Rightarrow> sg_schema \<Rightarrow> string option \<Rightarrow> bool
     \<Rightarrow> assertion_error + (coordinate \<Rightarrow> bool)" where
  "computeAllFieldsWithDirective ctf schema directive includeOtherFieldsOnType =
     (case sch_metadata schema of
        None \<Rightarrow> Inl (AssertionError ''Schema should be a federation subgraph'')
      | Some metadata \<Rightarrow>
          (let flds1 = fold (addObjectType ctf schema metadata directive includeOtherFieldsOnType)
                         (typesOfKind schema ObjectType) [];
               flds2 = fold (addKeyFields ctf schema metadata)
                         (typesOfKind schema InterfaceType) flds1
           in Inr (\<lambda>field. field \<in> set flds2)))"

definition directiveIfFed2 ::
  "sg_schema \<Rightarrow> (federation_metadata \<Rightarrow> string) \<Rightarrow> string option" where
  "directiveIfFed2 schema which =
     (case sch_metadata schema of
        None \<Rightarrow> None
      | Some metadata \<Rightarrow> if isFed2Schema metadata then Some (which metadata) else None)"

definition computeShareables ::
  "collect_target_fields \<Rightarrow> sg_schema \<Rightarrow> assertion_error + (coordinate \<Rightarrow> bool)" where
  "computeShareables ctf schema =
     computeAllFieldsWithDirective ctf schema (directiveIfFed2 schema shareableDirective) True"

definition computeKeys ::
  "collect_target_fields \<Rightarrow> sg_schema \<Rightarrow> assertion_error + (coordinate \<Rightarrow> bool)" where
  "computeKeys ctf schema =
     computeAllFieldsWithDirective ctf schema (directiveIfFed2 schema keyDirective) False"

subsection \<open>The shareable predicate in the words of the specification\<close>

text \<open>
  ``A field is shareable iff either (a) \<open>@shareable\<close> is applied directly to the field, or
  (b) \<open>@shareable\<close> is applied to the parent type and the field belongs to the same
  extension as the directive application, or (c) the field is a \<open>@key\<close> field, or (d) the
  field is reachable from a \<open>@provides\<close> selection on any field of its parent type and the
  target field is marked \<open>@external\<close>.'' The field is any field of the schema; in (d) the
  field that carries \<open>@provides\<close> is read as a field of the parent type of the target.
\<close>

definition fieldsAt :: "sg_schema \<Rightarrow> coordinate \<Rightarrow> (sg_type \<times> sg_field) list" where
  "fieldsAt schema c =
     concat (map (\<lambda>t. map (Pair t) (filter (\<lambda>f. sf_name f = snd c) (st_fields t)))
               (filter (\<lambda>t. st_name t = fst c) (sch_types schema)))"

definition shareable_direct :: "sg_schema \<Rightarrow> federation_metadata \<Rightarrow> coordinate \<Rightarrow> bool" where
  "shareable_direct schema metadata c =
     list_ex (\<lambda>(t, f). hasAppliedDirective (shareableDirective metadata) (sf_appliedDirectives f))
       (fieldsAt schema c)"

definition shareable_on_type :: "sg_schema \<Rightarrow> federation_metadata \<Rightarrow> coordinate \<Rightarrow> bool" where
  "shareable_on_type schema metadata c =
     list_ex (\<lambda>(t, f).
                list_ex (\<lambda>d. sf_ofExtension f = ad_ofExtension d)
                  (appliedDirectivesOf (shareableDirective metadata) (st_appliedDirectives t)))
       (fieldsAt schema c)"

definition is_key_field ::
  "collect_target_fields \<Rightarrow> sg_schema \<Rightarrow> federation_metadata \<Rightarrow> coordinate \<Rightarrow> bool" where
  "is_key_field ctf schema metadata c =
     list_ex (\<lambda>t. (st_kind t = ObjectType \<or> st_kind t = InterfaceType)
                \<and> list_ex (\<lambda>key. c \<in> set (ctf schema (st_name t) key))
                     (appliedDirectivesOf (keyDirective metadata) (st_appliedDirectives t)))
       (sch_types schema)"

definition provided_within_parent ::
  "collect_target_fields \<Rightarrow> sg_schema \<Rightarrow> federation_metadata \<Rightarrow> coordinate \<Rightarrow> bool" where
  "provided_within_parent ctf schema metadata c =
     (isFieldExternal metadata c
      \<and> list_ex (\<lambda>t. st_name t = fst c
                  \<and> list_ex (\<lambda>g. list_ex (\<lambda>provides.
                                            c \<in> set (ctf schema (getNamedType (sf_type g)) provides))
                                  (appliedDirectivesOf (providesDirective metadata)
                                     (sf_appliedDirectives g)))
                       (st_fields t))
           (sch_types schema))"

definition shareable_spec ::
  "collect_target_fields \<Rightarrow> sg_schema \<Rightarrow> federation_metadata \<Rightarrow> coordinate \<Rightarrow> bool" where
  "shareable_spec ctf schema metadata c =
     (shareable_direct schema metadata c \<or> shareable_on_type schema metadata c
      \<or> is_key_field ctf schema metadata c \<or> provided_within_parent ctf schema metadata c)"

subsection \<open>A subgraph to evaluate on\<close>

text \<open>
  A stand-in for \<open>collectTargetFields\<close> on selections without nesting: the \<open>fields\<close>
  argument is a list of field names separated by spaces; each name that is a field of the
  type the selection starts at is a target, and so is the field of that name in every
  type that implements the starting type.
\<close>

fun splitWords :: "string \<Rightarrow> string \<Rightarrow> string list" where
  "splitWords cur [] = (if cur = [] then [] else [cur])"
| "splitWords cur (c # cs) =
     (if c = CHR '' '' then (if cur = [] then splitWords [] cs else cur # splitWords [] cs)
      else splitWords (cur @ [c]) cs)"

definition flatTargetFields :: collect_target_fields where
  "flatTargetFields schema parent application =
     concat (map (\<lambda>n.
               concat (map (\<lambda>t. if (st_name t = parent \<or> parent \<in> set (st_interfaces t))
                                   \<and> n \<in> set (map sf_name (st_fields t))
                                 then [(st_name t, n)] else [])
                         (sch_types schema)))
            (case map_of (ad_arguments application) ''fields'' of
               None \<Rightarrow> []
             | Some s \<Rightarrow> splitWords [] s))"

definition fed2_metadata :: "coordinate list \<Rightarrow> federation_metadata" where
  "fed2_metadata external =
     \<lparr>isFed2Schema = True, keyDirective = ''key'', providesDirective = ''provides'',
      shareableDirective = ''shareable'', isFieldExternal = (\<lambda>c. c \<in> set external)\<rparr>"

definition plainField :: "string \<Rightarrow> string \<Rightarrow> applied_directive list \<Rightarrow> sg_field" where
  "plainField n t ds =
     \<lparr>sf_name = n, sf_type = NamedType t, sf_appliedDirectives = ds, sf_ofExtension = None\<rparr>"

definition application :: "string \<Rightarrow> (string \<times> string) list \<Rightarrow> applied_directive" where
  "application n args = \<lparr>ad_name = n, ad_arguments = args, ad_ofExtension = None\<rparr>"

text \<open>
  \<^verbatim>\<open>
  interface I { x: Int @shareable }
  type Query { t: T @provides(fields: "y") }
  type T @key(fields: "id") { id: ID  y: Int @external  z: Int @shareable  w: Int }
  \<close>
\<close>

definition example_subgraph :: sg_schema where
  "example_subgraph =
     \<lparr>sch_types =
        [\<lparr>st_name = ''I'', st_kind = InterfaceType, st_interfaces = [],
          st_appliedDirectives = [],
          st_fields = [plainField ''x'' ''Int'' [application ''shareable'' []]]\<rparr>,
         \<lparr>st_name = ''Query'', st_kind = ObjectType, st_interfaces = [],
          st_appliedDirectives = [],
          st_fields = [plainField ''t'' ''T'' [application ''provides'' [(''fields'', ''y'')]]]\<rparr>,
         \<lparr>st_name = ''T'', st_kind = ObjectType, st_interfaces = [],
          st_appliedDirectives = [application ''key'' [(''fields'', ''id'')]],
          st_fields = [plainField ''id'' ''ID'' [],
                       plainField ''y'' ''Int'' [application ''external'' []],
                       plainField ''z'' ''Int'' [application ''shareable'' []],
                       plainField ''w'' ''Int'' []]\<rparr>],
      sch_metadata = Some (fed2_metadata [(''T'', ''y'')])\<rparr>"

section \<open>Schema object model (definitions.ts)\<close>

text \<open>
  The objects of the model live in a store, one table per class, addressed by the
  natural numbers that \<open>h_next\<close> hands out: \<open>new\<close> returns an address no object has yet.
  A JavaScript \<open>Map\<close> is an association list in insertion order, a \<open>Set\<close> a list without
  duplicates in insertion order, \<open>undefined\<close> is \<open>None\<close>. Argument values are the untyped
  values \<open>valueFromASTUntyped\<close> returns; numbers are modelled as integers.
\<close>

datatype js_value = JNull | JBool bool | JNumber int | JString string
  | JArray "js_value list" | JObject "(string \<times> js_value) list"

datatype schema_root = QueryRoot | MutationRoot | SubscriptionRoot

datatype world = ImmutableWorld | MutableWorld

datatype elem_ref =
    SchemaDefinitionRef nat
  | NamedTypeRef nat
  | FieldDefinitionRef nat
  | InputFieldDefinitionRef nat
  | ArgumentDefinitionRef nat
  | DirectiveDefinitionRef nat

text \<open>A type is a named type object or a list wrapper around a type.\<close>

datatype som_type = Named nat | ListType "som_type option"

record schema_obj =
  sc_schemaDefinition :: "nat option"
  sc_builtInTypes :: "(string \<times> nat) list"
  sc_typesMap :: "(string \<times> nat) list"
  sc_directivesMap :: "(string \<times> nat) list"
  sc_mutable :: bool

record schema_definition =
  sd_parent :: "nat option"
  sd_appliedDirectives :: "nat list"
  sd_rootsMap :: "(schema_root \<times> nat) list"

record named_type =
  nt_kind :: type_kind
  nt_name :: string
  nt_parent :: "nat option"
  nt_appliedDirectives :: "nat list"
  nt_referencers :: "elem_ref list"
  nt_fieldsMap :: "(string \<times> nat) list"
  nt_typesList :: "nat list"

record field_definition =
  fld_name :: string
  fld_parent :: "nat option"
  fld_type :: "som_type option"
  fld_args :: "(string \<times> nat) list"
  fld_appliedDirectives :: "nat list"

record input_field_definition =
  ifd_name :: string
  ifd_parent :: "nat option"
  ifd_type :: "som_type option"
  ifd_appliedDirectives :: "nat list"

record argument_definition =
  arg_name :: string
  arg_parent :: "elem_ref option"
  arg_type :: "som_type option"
  arg_defaultValue :: "js_value option"
  arg_appliedDirectives :: "nat list"

record directive_definition =
  dd_name :: string
  dd_parent :: "nat option"
  dd_args :: "(string \<times> nat) list"
  dd_appliedDirectives :: "nat list"

record directive =
  dir_name :: string
  dir_parent :: "elem_ref option"
  dir_args :: "(string \<times> js_value) list"

record heap =
  h_schemas :: "nat \<Rightarrow> schema_obj"
  h_schemaDefs :: "nat \<Rightarrow> schema_definition"
  h_types :: "nat \<Rightarrow> named_type"
  h_fields :: "nat \<Rightarrow> field_definition"
  h_inputFields :: "nat \<Rightarrow> input_field_definition"
  h_args :: "nat \<Rightarrow> argument_definition"
  h_directiveDefs :: "nat \<Rightarrow> directive_definition"
  h_directives :: "nat \<Rightarrow> directive"
  h_next :: nat

definition empty_heap :: heap where
  "empty_heap =
     \<lparr>h_schemas = (\<lambda>r. \<lparr>sc_schemaDefinition = None, sc_builtInTypes = [], sc_typesMap = [],
                          sc_directivesMap = [], sc_mutable = False\<rparr>),
      h_schemaDefs = (\<lambda>r. \<lparr>sd_parent = None, sd_appliedDirectives = [], sd_rootsMap = []\<rparr>),
      h_types = (\<lambda>r. \<lparr>nt_kind = ScalarType, nt_name = [], nt_parent = None,
                        nt_appliedDirectives = [], nt_referencers = [], nt_fieldsMap = [],
                        nt_typesList = []\<rparr>),
      h_fields = (\<lambda>r. \<lparr>fld_name = [], fld_parent = None, fld_type = None, fld_args = [],
                         fld_appliedDirectives = []\<rparr>),
      h_inputFields = (\<lambda>r. \<lparr>ifd_name = [], ifd_parent = None, ifd_type = None,
                              ifd_appliedDirectives = []\<rparr>),
      h_args = (\<lambda>r. \<lparr>arg_name = [], arg_parent = None, arg_type = None,
                       arg_defaultValue = None, arg_appliedDirectives = []\<rparr>),
      h_directiveDefs = (\<lambda>r. \<lparr>dd_name = [], dd_parent = None, dd_args = [],
                                dd_appliedDirectives = []\<rparr>),
      h_directives = (\<lambda>r. \<lparr>dir_name = [], dir_parent = None, dir_args = []\<rparr>),
      h_next = 0\<rparr>"

subsection \<open>Maps, sets and the error monad\<close>

fun map_set :: "'k \<Rightarrow> 'v \<Rightarrow> ('k \<times> 'v) list \<Rightarrow> ('k \<times> 'v) list" where
  "map_set k v [] = [(k, v)]"
| "map_set k v ((k', v') # m) = (if k = k' then (k, v) # m else (k', v') # map_set k v m)"

definition map_delete :: "'k \<Rightarrow> ('k \<times> 'v) list \<Rightarrow> ('k \<times> 'v) list" where
  "map_delete k m = filter (\<lambda>kv. fst kv \<noteq> k) m"

definition set_add :: "'a \<Rightarrow> 'a list \<Rightarrow> 'a list" where
  "set_add x xs = (if x \<in> set xs then xs else xs @ [x])"

definition bind :: "('e + 'a) \<Rightarrow> ('a \<Rightarrow> 'e + 'b) \<Rightarrow> 'e + 'b" where
  "bind m f = (case m of Inl e \<Rightarrow> Inl e | Inr x \<Rightarrow> f x)"

fun foldM :: "('a \<Rightarrow> 's \<Rightarrow> 'e + 's) \<Rightarrow> 'a list \<Rightarrow> 's \<Rightarrow> 'e + 's" where
  "foldM f [] s = Inr s"
| "foldM f (x # xs) s = bind (f x s) (foldM f xs)"

datatype som_error = SomTypeError | SomGraphQLError string | SomError string
  | SomAssertionFailed string

definition builtInTypes :: "string list" where
  "builtInTypes = [''Int'', ''Float'', ''String'', ''Boolean'', ''ID'']"

subsection \<open>Readers\<close>

text \<open>\<open>BaseElement.schema()\<close>, class by class: the parent chain ends at the schema.\<close>

definition schemaOfType :: "heap \<Rightarrow> nat \<Rightarrow> nat option" where
  "schemaOfType h t = nt_parent (h_types h t)"

definition schemaOfField :: "heap \<Rightarrow> nat \<Rightarrow> nat option" where
  "schemaOfField h f =
     (case fld_parent (h_fields h f) of None \<Rightarrow> None | Some t \<Rightarrow> schemaOfType h t)"

definition schemaOfInputField :: "heap \<Rightarrow> nat \<Rightarrow> nat option" where
  "schemaOfInputField h f =
     (case ifd_parent (h_inputFields h f) of None \<Rightarrow> None | Some t \<Rightarrow> schemaOfType h t)"

definition schemaOfDirectiveDefinition :: "heap \<Rightarrow> nat \<Rightarrow> nat option" where
  "schemaOfDirectiveDefinition h d = dd_parent (h_directiveDefs h d)"

definition schemaOfSchemaDefinition :: "heap \<Rightarrow> nat \<Rightarrow> nat option" where
  "schemaOfSchemaDefinition h d = sd_parent (h_schemaDefs h d)"

definition schemaOfArgument :: "heap \<Rightarrow> nat \<Rightarrow> nat option" where
  "schemaOfArgument h a =
     (case arg_parent (h_args h a) of
        Some (FieldDefinitionRef f) \<Rightarrow> schemaOfField h f
      | Some (DirectiveDefinitionRef d) \<Rightarrow> schemaOfDirectiveDefinition h d
      | _ \<Rightarrow> None)"

fun schemaOfElement :: "heap \<Rightarrow> elem_ref \<Rightarrow> nat option" where
  "schemaOfElement h (SchemaDefinitionRef r) = schemaOfSchemaDefinition h r"
| "schemaOfElement h (NamedTypeRef r) = schemaOfType h r"
| "schemaOfElement h (FieldDefinitionRef r) = schemaOfField h r"
| "schemaOfElement h (InputFieldDefinitionRef r) = schemaOfInputField h r"
| "schemaOfElement h (ArgumentDefinitionRef r) = schemaOfArgument h r"
| "schemaOfElement h (DirectiveDefinitionRef r) = schemaOfDirectiveDefinition h r"

text \<open>
  \<open>ListType.baseType()\<close> reads \<open>this._type.kind\<close> and so throws a TypeError on a wrapper
  around \<open>undefined\<close>.
\<close>

fun baseType :: "som_type \<Rightarrow> som_error + nat" where
  "baseType (Named r) = Inr r"
| "baseType (ListType None) = Inl SomTypeError"
| "baseType (ListType (Some t)) = baseType t"

definition schemaOfSomType :: "heap \<Rightarrow> som_type \<Rightarrow> som_error + nat option" where
  "schemaOfSomType h t = bind (baseType t) (\<lambda>r. Inr (schemaOfType h r))"

text \<open>\<open>BaseSchema.type(name)\<close>: the user types first, then the built-in ones.\<close>

definition typeByName :: "heap \<Rightarrow> nat \<Rightarrow> string \<Rightarrow> nat option" where
  "typeByName h s name =
     (case map_of (sc_typesMap (h_schemas h s)) name of
        Some t \<Rightarrow> Some t
      | None \<Rightarrow> map_of (sc_builtInTypes (h_schemas h s)) name)"

definition appliedDirectives :: "heap \<Rightarrow> elem_ref \<Rightarrow> nat list" where
  "appliedDirectives h e =
     (case e of
        SchemaDefinitionRef r \<Rightarrow> sd_appliedDirectives (h_schemaDefs h r)
      | NamedTypeRef r \<Rightarrow> nt_appliedDirectives (h_types h r)
      | FieldDefinitionRef r \<Rightarrow> fld_appliedDirectives (h_fields h r)
      | InputFieldDefinitionRef r \<Rightarrow> ifd_appliedDirectives (h_inputFields h r)
      | ArgumentDefinitionRef r \<Rightarrow> arg_appliedDirectives (h_args h r)
      | DirectiveDefinitionRef r \<Rightarrow> dd_appliedDirectives (h_directiveDefs h r))"

definition setAppliedDirectives :: "heap \<Rightarrow> elem_ref \<Rightarrow> nat list \<Rightarrow> heap" where
  "setAppliedDirectives h e ds =
     (case e of
        SchemaDefinitionRef r \<Rightarrow>
          h\<lparr>h_schemaDefs := (h_schemaDefs h)(r := (h_schemaDefs h r)\<lparr>sd_appliedDirectives := ds\<rparr>)\<rparr>
      | NamedTypeRef r \<Rightarrow>
          h\<lparr>h_types := (h_types h)(r := (h_types h r)\<lparr>nt_appliedDirectives := ds\<rparr>)\<rparr>
      | FieldDefinitionRef r \<Rightarrow>
          h\<lparr>h_fields := (h_fields h)(r := (h_fields h r)\<lparr>fld_appliedDirectives := ds\<rparr>)\<rparr>
      | InputFieldDefinitionRef r \<Rightarrow>
          h\<lparr>h_inputFields :=
              (h_inputFields h)(r := (h_inputFields h r)\<lparr>ifd_appliedDirectives := ds\<rparr>)\<rparr>
      | ArgumentDefinitionRef r \<Rightarrow>
          h\<lparr>h_args := (h_args h)(r := (h_args h r)\<lparr>arg_appliedDirectives := ds\<rparr>)\<rparr>
      | DirectiveDefinitionRef r \<Rightarrow>
          h\<lparr>h_directiveDefs :=
              (h_directiveDefs h)(r := (h_directiveDefs h r)\<lparr>dd_appliedDirectives := ds\<rparr>)\<rparr>)"

subsection \<open>Constructors (class Ctors)\<close>

definition createSchema :: "world \<Rightarrow> heap \<Rightarrow> nat \<times> heap" where
  "createSchema w h =
     (h_next h,
      h\<lparr>h_schemas := (h_schemas h)(h_next h :=
            \<lparr>sc_schemaDefinition = None, sc_builtInTypes = [], sc_typesMap = [],
             sc_directivesMap = [], sc_mutable = (w = MutableWorld)\<rparr>),
        h_next := Suc (h_next h)\<rparr>)"

definition createSchemaDefinition :: "nat option \<Rightarrow> heap \<Rightarrow> nat \<times> heap" where
  "createSchemaDefinition parent h =
     (h_next h,
      h\<lparr>h_schemaDefs := (h_schemaDefs h)(h_next h :=
            \<lparr>sd_parent = parent, sd_appliedDirectives = [], sd_rootsMap = []\<rparr>),
        h_next := Suc (h_next h)\<rparr>)"

definition createType :: "type_kind \<Rightarrow> string \<Rightarrow> nat option \<Rightarrow> heap \<Rightarrow> nat \<times> heap" where
  "createType kind name schema h =
     (h_next h,
      h\<lparr>h_types := (h_types h)(h_next h :=
            \<lparr>nt_kind = kind, nt_name = name, nt_parent = schema, nt_appliedDirectives = [],
             nt_referencers = [], nt_fieldsMap = [], nt_typesList = []\<rparr>),
        h_next := Suc (h_next h)\<rparr>)"

definition createFieldDefinition ::
  "string \<Rightarrow> nat option \<Rightarrow> som_type option \<Rightarrow> heap \<Rightarrow> nat \<times> heap" where
  "createFieldDefinition name parent type h =
     (h_next h,
      h\<lparr>h_fields := (h_fields h)(h_next h :=
            \<lparr>fld_name = name, fld_parent = parent, fld_type = type, fld_args = [],
             fld_appliedDirectives = []\<rparr>),
        h_next := Suc (h_next h)\<rparr>)"

definition createInputFieldDefinition ::
  "string \<Rightarrow> nat option \<Rightarrow> som_type option \<Rightarrow> heap \<Rightarrow> nat \<times> heap" where
  "createInputFieldDefinition name parent type h =
     (h_next h,
      h\<lparr>h_inputFields := (h_inputFields h)(h_next h :=
            \<lparr>ifd_name = name, ifd_parent = parent, ifd_type = type,
             ifd_appliedDirectives = []\<rparr>),
        h_next := Suc (h_next h)\<rparr>)"

definition createArgumentDefinition ::
  "string \<Rightarrow> elem_ref option \<Rightarrow> som_type option \<Rightarrow> js_value option \<Rightarrow> heap \<Rightarrow> nat \<times> heap" where
  "createArgumentDefinition name parent type defaultValue h =
     (h_next h,
      h\<lparr>h_args := (h_args h)(h_next h :=
            \<lparr>arg_name = name, arg_parent = parent, arg_type = type,
             arg_defaultValue = defaultValue, arg_appliedDirectives = []\<rparr>),
        h_next := Suc (h_next h)\<rparr>)"

definition createDirectiveDefinition :: "string \<Rightarrow> nat option \<Rightarrow> heap \<Rightarrow> nat \<times> heap" where
  "createDirectiveDefinition name parent h =
     (h_next h,
      h\<lparr>h_directiveDefs := (h_directiveDefs h)(h_next h :=
            \<lparr>dd_name = name, dd_parent = parent, dd_args = [], dd_appliedDirectives = []\<rparr>),
        h_next := Suc (h_next h)\<rparr>)"

definition createDirective ::
  "string \<Rightarrow> elem_ref option \<Rightarrow> (string \<times> js_value) list \<Rightarrow> heap \<Rightarrow> nat \<times> heap" where
  "createDirective name parent args h =
     (h_next h,
      h\<lparr>h_directives := (h_directives h)(h_next h :=
            \<lparr>dir_name = name, dir_parent = parent, dir_args = args\<rparr>),
        h_next := Suc (h_next h)\<rparr>)"

subsection \<open>The printed form of the objects\<close>

text \<open>
  The \<open>toString\<close> methods, which the messages of the errors interpolate. A named type
  prints as its name, a list type as \<open>[T]\<close>, \<open>undefined\<close> as \<open>undefined\<close>. The default value of
  an argument is printed by the conversion of a template literal, that is \<open>String(v)\<close>,
  where \<open>join\<close> prints \<open>null\<close> in an array as the empty string; the arguments of a directive
  are printed by \<open>JSON.stringify\<close>. The integers of the model print in decimal.
\<close>

definition kindToString :: "type_kind \<Rightarrow> string" where
  "kindToString kind =
     (case kind of
        ObjectType \<Rightarrow> ''ObjectType'' | InterfaceType \<Rightarrow> ''InterfaceType''
      | UnionType \<Rightarrow> ''UnionType'' | ScalarType \<Rightarrow> ''ScalarType''
      | EnumType \<Rightarrow> ''EnumType'' | InputObjectType \<Rightarrow> ''InputObjectType'')"

definition rootToString :: "schema_root \<Rightarrow> string" where
  "rootToString root =
     (case root of QueryRoot \<Rightarrow> ''query'' | MutationRoot \<Rightarrow> ''mutation''
      | SubscriptionRoot \<Rightarrow> ''subscription'')"

fun digitsOf :: "nat \<Rightarrow> string" where
  "digitsOf n =
     (if n < 10 then [''0123456789'' ! n]
      else digitsOf (n div 10) @ [''0123456789'' ! (n mod 10)])"

declare digitsOf.simps [simp del]

definition numberToString :: "int \<Rightarrow> string" where
  "numberToString i = (if i < 0 then ''-'' @ digitsOf (nat (- i)) else digitsOf (nat i))"

fun valueToTemplate :: "js_value \<Rightarrow> string" where
  "valueToTemplate JNull = ''null''"
| "valueToTemplate (JBool b) = (if b then ''true'' else ''false'')"
| "valueToTemplate (JNumber n) = numberToString n"
| "valueToTemplate (JString s) = s"
| "valueToTemplate (JArray vs) =
     join '','' (map (\<lambda>v. if v = JNull then [] else valueToTemplate v) vs)"
| "valueToTemplate (JObject m) = ''[object Object]''"

definition jsonEscape :: "char \<Rightarrow> string" where
  "jsonEscape c =
     (let n = (of_char c :: nat) in
      if n = 34 then [CHR 0x5C, CHR 0x22]
      else if n = 92 then [CHR 0x5C, CHR 0x5C]
      else if n = 8 then [CHR 0x5C, CHR ''b'']
      else if n = 9 then [CHR 0x5C, CHR ''t'']
      else if n = 10 then [CHR 0x5C, CHR ''n'']
      else if n = 12 then [CHR 0x5C, CHR ''f'']
      else if n = 13 then [CHR 0x5C, CHR ''r'']
      else if n < 32
      then [CHR 0x5C] @ ''u00'' @ [''0123456789abcdef'' ! (n div 16),
                                    ''0123456789abcdef'' ! (n mod 16)]
      else [c])"

definition jsonQuote :: "string \<Rightarrow> string" where
  "jsonQuote s = [CHR 0x22] @ concat (map jsonEscape s) @ [CHR 0x22]"

fun valueToString :: "js_value \<Rightarrow> string" where
  "valueToString JNull = ''null''"
| "valueToString (JBool b) = (if b then ''true'' else ''false'')"
| "valueToString (JNumber n) = numberToString n"
| "valueToString (JString s) = jsonQuote s"
| "valueToString (JArray vs) = ''['' @ join '','' (map valueToString vs) @ '']''"
| "valueToString (JObject m) =
     ''{'' @ join '','' (map (\<lambda>kv. jsonQuote (fst kv) @ '':'' @ valueToString (snd kv)) m)
     @ ''}''"

fun typeToString :: "heap \<Rightarrow> som_type option \<Rightarrow> string" where
  "typeToString h None = ''undefined''"
| "typeToString h (Some (Named t)) = nt_name (h_types h t)"
| "typeToString h (Some (ListType t)) = ''['' @ typeToString h t @ '']''"

definition argumentToString :: "heap \<Rightarrow> nat \<Rightarrow> string" where
  "argumentToString h a =
     arg_name (h_args h a) @ '': '' @ typeToString h (arg_type (h_args h a))
     @ (case arg_defaultValue (h_args h a) of
          None \<Rightarrow> []
        | Some v \<Rightarrow> if v = JNull then [] else '' = '' @ valueToTemplate v)"

definition fieldToString :: "heap \<Rightarrow> nat \<Rightarrow> string" where
  "fieldToString h f =
     fld_name (h_fields h f)
     @ (if fld_args (h_fields h f) = [] then []
        else ''('' @ join '', '' (map (argumentToString h \<circ> snd) (fld_args (h_fields h f)))
             @ '')'')
     @ '': '' @ typeToString h (fld_type (h_fields h f))"

definition inputFieldToString :: "heap \<Rightarrow> nat \<Rightarrow> string" where
  "inputFieldToString h f =
     ifd_name (h_inputFields h f) @ '': '' @ typeToString h (ifd_type (h_inputFields h f))"

definition elementToString :: "heap \<Rightarrow> elem_ref \<Rightarrow> string" where
  "elementToString h e =
     (case e of
        SchemaDefinitionRef d \<Rightarrow>
          ''schema['' @ join '', '' (map (rootToString \<circ> fst) (sd_rootsMap (h_schemaDefs h d)))
          @ '']''
      | NamedTypeRef t \<Rightarrow> nt_name (h_types h t)
      | FieldDefinitionRef f \<Rightarrow> fieldToString h f
      | InputFieldDefinitionRef f \<Rightarrow> inputFieldToString h f
      | ArgumentDefinitionRef a \<Rightarrow> argumentToString h a
      | DirectiveDefinitionRef d \<Rightarrow> dd_name (h_directiveDefs h d))"

definition directiveToString :: "heap \<Rightarrow> nat \<Rightarrow> string" where
  "directiveToString h d =
     ''@'' @ dir_name (h_directives h d)
     @ (if dir_args (h_directives h d) = [] then []
        else ''('' @ join '', '' (map (\<lambda>nv. fst nv @ '': '' @ valueToString (snd nv))
                                     (dir_args (h_directives h d)))
             @ '')'')"

definition createNamedType ::
  "type_kind \<Rightarrow> string \<Rightarrow> nat \<Rightarrow> heap \<Rightarrow> som_error + nat \<times> heap" where
  "createNamedType kind name schema h =
     (if kind = ScalarType \<or> kind = ObjectType \<or> kind = UnionType \<or> kind = InputObjectType
      then Inr (createType kind name (Some schema) h)
      else Inl (SomAssertionFailed (''Missing branch for type '' @ kindToString kind)))"

definition setBuiltIn :: "nat \<Rightarrow> string \<Rightarrow> nat \<Rightarrow> heap \<Rightarrow> heap" where
  "setBuiltIn schema name t h =
     h\<lparr>h_schemas := (h_schemas h)(schema :=
          (h_schemas h schema)\<lparr>sc_builtInTypes :=
             map_set name t (sc_builtInTypes (h_schemas h schema))\<rparr>)\<rparr>"

text \<open>\<open>Ctors.schema()\<close>: a new schema with its five built-in scalar types.\<close>

definition newSchema :: "world \<Rightarrow> heap \<Rightarrow> nat \<times> heap" where
  "newSchema w h =
     (let (doc, h1) = createSchema w h
      in (doc, fold (\<lambda>builtIn hh.
                       (let (t, hh1) = createType ScalarType builtIn (Some doc) hh
                        in setBuiltIn doc builtIn t hh1))
                 builtInTypes h1))"

definition addSchemaDefinition :: "nat \<Rightarrow> heap \<Rightarrow> nat \<times> heap" where
  "addSchemaDefinition schema h =
     (let (sd, h1) = createSchemaDefinition (Some schema) h
      in (schema,
          h1\<lparr>h_schemas := (h_schemas h1)(schema :=
                (h_schemas h1 schema)\<lparr>sc_schemaDefinition := Some sd\<rparr>)\<rparr>))"

text \<open>\<open>MutableSchema.empty()\<close>.\<close>

definition emptySchema :: "heap \<Rightarrow> nat \<times> heap" where
  "emptySchema h = (let (doc, h1) = newSchema MutableWorld h in addSchemaDefinition doc h1)"

subsection \<open>Helpers that wire elements together\<close>

definition addTypeDefinition :: "nat \<Rightarrow> nat \<Rightarrow> heap \<Rightarrow> heap" where
  "addTypeDefinition namedType schema h =
     h\<lparr>h_schemas := (h_schemas h)(schema :=
          (h_schemas h schema)\<lparr>sc_typesMap :=
             map_set (nt_name (h_types h namedType)) namedType
               (sc_typesMap (h_schemas h schema))\<rparr>)\<rparr>"

definition removeTypeDefinition :: "nat \<Rightarrow> nat \<Rightarrow> heap \<Rightarrow> heap" where
  "removeTypeDefinition namedType schema h =
     h\<lparr>h_schemas := (h_schemas h)(schema :=
          (h_schemas h schema)\<lparr>sc_typesMap :=
             map_delete (nt_name (h_types h namedType)) (sc_typesMap (h_schemas h schema))\<rparr>)\<rparr>"

definition addDirectiveDefinition :: "nat \<Rightarrow> nat \<Rightarrow> heap \<Rightarrow> heap" where
  "addDirectiveDefinition definition_ref schema h =
     h\<lparr>h_schemas := (h_schemas h)(schema :=
          (h_schemas h schema)\<lparr>sc_directivesMap :=
             map_set (dd_name (h_directiveDefs h definition_ref)) definition_ref
               (sc_directivesMap (h_schemas h schema))\<rparr>)\<rparr>"

definition addReferencer :: "nat \<Rightarrow> elem_ref \<Rightarrow> heap \<Rightarrow> heap" where
  "addReferencer t referencer h =
     h\<lparr>h_types := (h_types h)(t :=
          (h_types h t)\<lparr>nt_referencers := set_add referencer (nt_referencers (h_types h t))\<rparr>)\<rparr>"

text \<open>
  \<open>addReferencerToType\<close> reads \<open>type.kind\<close>: a TypeError when the type is \<open>undefined\<close>. A
  list wrapper hands the referencer to its base type.
\<close>

definition addReferencerToType :: "elem_ref \<Rightarrow> som_type option \<Rightarrow> heap \<Rightarrow> som_error + heap" where
  "addReferencerToType referencer type h =
     (case type of
        None \<Rightarrow> Inl SomTypeError
      | Some t \<Rightarrow> bind (baseType t) (\<lambda>r. Inr (addReferencer r referencer h)))"

definition addRoot :: "schema_root \<Rightarrow> string \<Rightarrow> nat \<Rightarrow> heap \<Rightarrow> som_error + heap" where
  "addRoot root typeName schemaDefinition h =
     (case schemaOfSchemaDefinition h schemaDefinition of
        None \<Rightarrow> Inl SomTypeError
      | Some schema \<Rightarrow>
          (case typeByName h schema typeName of
             None \<Rightarrow> Inl SomTypeError
           | Some t \<Rightarrow>
               addReferencerToType (SchemaDefinitionRef schemaDefinition) (Some (Named t))
                 (h\<lparr>h_schemaDefs := (h_schemaDefs h)(schemaDefinition :=
                       (h_schemaDefs h schemaDefinition)\<lparr>sd_rootsMap :=
                          map_set root t (sd_rootsMap (h_schemaDefs h schemaDefinition))\<rparr>)\<rparr>)))"

definition addFieldArg :: "nat \<Rightarrow> nat \<Rightarrow> heap \<Rightarrow> heap" where
  "addFieldArg arg field h =
     h\<lparr>h_fields := (h_fields h)(field :=
          (h_fields h field)\<lparr>fld_args :=
             map_set (arg_name (h_args h arg)) arg (fld_args (h_fields h field))\<rparr>)\<rparr>"

definition addDirectiveArg :: "nat \<Rightarrow> nat \<Rightarrow> heap \<Rightarrow> heap" where
  "addDirectiveArg arg directive_definition h =
     h\<lparr>h_directiveDefs := (h_directiveDefs h)(directive_definition :=
          (h_directiveDefs h directive_definition)\<lparr>dd_args :=
             map_set (arg_name (h_args h arg)) arg
               (dd_args (h_directiveDefs h directive_definition))\<rparr>)\<rparr>"

text \<open>\<open>addField\<close> for a field of an object type and for a field of an input object type.\<close>

definition addField :: "nat \<Rightarrow> nat \<Rightarrow> heap \<Rightarrow> heap" where
  "addField field objectType h =
     h\<lparr>h_types := (h_types h)(objectType :=
          (h_types h objectType)\<lparr>nt_fieldsMap :=
             map_set (fld_name (h_fields h field)) field
               (nt_fieldsMap (h_types h objectType))\<rparr>)\<rparr>"

definition addInputField :: "nat \<Rightarrow> nat \<Rightarrow> heap \<Rightarrow> heap" where
  "addInputField field inputObjectType h =
     h\<lparr>h_types := (h_types h)(inputObjectType :=
          (h_types h inputObjectType)\<lparr>nt_fieldsMap :=
             map_set (ifd_name (h_inputFields h field)) field
               (nt_fieldsMap (h_types h inputObjectType))\<rparr>)\<rparr>"

definition addTypeToUnion :: "string \<Rightarrow> nat \<Rightarrow> heap \<Rightarrow> som_error + heap" where
  "addTypeToUnion typeName unionType h =
     (case schemaOfType h unionType of
        None \<Rightarrow> Inl SomTypeError
      | Some schema \<Rightarrow>
          (case typeByName h schema typeName of
             None \<Rightarrow> Inl SomTypeError
           | Some t \<Rightarrow>
               addReferencerToType (NamedTypeRef unionType) (Some (Named t))
                 (h\<lparr>h_types := (h_types h)(unionType :=
                       (h_types h unionType)\<lparr>nt_typesList :=
                          nt_typesList (h_types h unionType) @ [t]\<rparr>)\<rparr>)))"

subsection \<open>The mutable interface\<close>

text \<open>
  The messages of the errors are those of the source, each object printed by its
  \<open>toString\<close>. The checks compare \<open>schema()\<close> of the two sides with \<open>!=\<close>, so two detached
  sides pass.
\<close>

definition ensureTypeNotFound :: "nat \<Rightarrow> string \<Rightarrow> heap \<Rightarrow> som_error + unit" where
  "ensureTypeNotFound this name h =
     (if typeByName h this name \<noteq> None
      then Inl (SomGraphQLError (''Type '' @ name @ '' already exists in this schema''))
      else Inr ())"

definition addType :: "nat \<Rightarrow> type_kind \<Rightarrow> string \<Rightarrow> heap \<Rightarrow> som_error + nat \<times> heap" where
  "addType this kind name h =
     bind (ensureTypeNotFound this name h)
       (\<lambda>_. let (newType, h1) = createType kind name (Some this) h
            in Inr (newType,
                    h1\<lparr>h_schemas := (h_schemas h1)(this :=
                          (h_schemas h1 this)\<lparr>sc_typesMap :=
                             map_set (nt_name (h_types h1 newType)) newType
                               (sc_typesMap (h_schemas h1 this))\<rparr>)\<rparr>))"

definition addObjectType_som :: "nat \<Rightarrow> string \<Rightarrow> heap \<Rightarrow> som_error + nat \<times> heap" where
  "addObjectType_som this name h = addType this ObjectType name h"

definition addScalarType :: "nat \<Rightarrow> string \<Rightarrow> heap \<Rightarrow> som_error + nat \<times> heap" where
  "addScalarType this name h =
     (if map_of (sc_builtInTypes (h_schemas h this)) name \<noteq> None
      then Inl (SomGraphQLError (''Cannot add scalar type of name '' @ name
                  @ '' as it is a built-in type''))
      else addType this ScalarType name h)"

definition addOrGetType ::
  "nat \<Rightarrow> string \<Rightarrow> type_kind \<Rightarrow> (string \<Rightarrow> heap \<Rightarrow> som_error + nat \<times> heap) \<Rightarrow> heap
     \<Rightarrow> som_error + nat \<times> heap" where
  "addOrGetType this name kind adder h =
     (case map_of (sc_typesMap (h_schemas h this)) name of
        Some existing \<Rightarrow>
          if nt_kind (h_types h existing) = kind then Inr (existing, h)
          else Inl (SomGraphQLError (''Type '' @ name @ '' already exists and is not an ''
                      @ kindToString kind @ '' (it is a ''
                      @ kindToString (nt_kind (h_types h existing)) @ '')''))
      | None \<Rightarrow> adder name h)"

definition addOrGetObjectType :: "nat \<Rightarrow> string \<Rightarrow> heap \<Rightarrow> som_error + nat \<times> heap" where
  "addOrGetObjectType this name h = addOrGetType this name ObjectType (addObjectType_som this) h"

definition addOrGetScalarType :: "nat \<Rightarrow> string \<Rightarrow> heap \<Rightarrow> som_error + nat \<times> heap" where
  "addOrGetScalarType this name h = addOrGetType this name ScalarType (addScalarType this) h"

definition addDirective :: "nat \<Rightarrow> nat \<Rightarrow> heap \<Rightarrow> heap" where
  "addDirective this directive_definition h =
     h\<lparr>h_schemas := (h_schemas h)(this :=
          (h_schemas h this)\<lparr>sc_directivesMap :=
             map_set (dd_name (h_directiveDefs h directive_definition)) directive_definition
               (sc_directivesMap (h_schemas h this))\<rparr>)\<rparr>"

definition notAttached :: "nat option \<Rightarrow> string" where
  "notAttached s =
     (case s of None \<Rightarrow> ''detached'' | Some _ \<Rightarrow> ''attached to another schema'')"

definition setRoot :: "nat \<Rightarrow> schema_root \<Rightarrow> nat \<Rightarrow> heap \<Rightarrow> som_error + nat \<times> heap" where
  "setRoot this rootType objectType h =
     (if schemaOfType h objectType \<noteq> schemaOfSchemaDefinition h this
      then Inl (SomGraphQLError (''Cannot use provided type '' @ nt_name (h_types h objectType)
                  @ '' for '' @ rootToString rootType
                  @ '' as it is not attached to this schema (it is ''
                  @ notAttached (schemaOfType h objectType) @ '')''))
      else Inr (objectType,
                h\<lparr>h_schemaDefs := (h_schemaDefs h)(this :=
                     (h_schemaDefs h this)\<lparr>sd_rootsMap :=
                        map_set rootType objectType (sd_rootsMap (h_schemaDefs h this))\<rparr>)\<rparr>))"

text \<open>
  \<open>applyDirective\<close> of the mutable classes: a new directive is pushed on the applied
  directives of the element. A scalar type with the name of a built-in refuses; a
  directive definition has no such method.
\<close>

definition applyDirective ::
  "elem_ref \<Rightarrow> string \<Rightarrow> (string \<times> js_value) list option \<Rightarrow> heap \<Rightarrow> som_error + nat \<times> heap" where
  "applyDirective this name args h =
     (let refuse =
        (case this of
           NamedTypeRef t \<Rightarrow>
             if nt_kind (h_types h t) = ScalarType \<and> nt_name (h_types h t) \<in> set builtInTypes
             then Some (SomError (''Cannot apply directive to built-in type ''
                          @ nt_name (h_types h t)))
             else None
         | DirectiveDefinitionRef d \<Rightarrow> Some SomTypeError
         | _ \<Rightarrow> None)
      in case refuse of
           Some e \<Rightarrow> Inl e
         | None \<Rightarrow>
             (let (d, h1) = createDirective name (Some this)
                              (case args of None \<Rightarrow> [] | Some m \<Rightarrow> m) h
              in Inr (d, setAppliedDirectives h1 this (appliedDirectives h1 this @ [d]))))"

definition addField_object ::
  "nat \<Rightarrow> string \<Rightarrow> som_type \<Rightarrow> heap \<Rightarrow> som_error + nat \<times> heap" where
  "addField_object this name type h =
     (case map_of (nt_fieldsMap (h_types h this)) name of
        Some existing \<Rightarrow>
          Inl (SomGraphQLError (''Field '' @ name @ '' already exists in type ''
                 @ nt_name (h_types h this) @ '' ('' @ fieldToString h existing @ '')''))
      | None \<Rightarrow> bind (schemaOfSomType h type)
        (\<lambda>s. if s \<noteq> schemaOfType h this
             then Inl (SomGraphQLError (''Cannot use provided type '' @ typeToString h (Some type)
                         @ '' as it is not attached to this schema (it is '' @ notAttached s
                         @ '')''))
             else (let (field, h1) = createFieldDefinition name (Some this) (Some type) h
                   in Inr (field,
                           h1\<lparr>h_types := (h_types h1)(this :=
                                 (h_types h1 this)\<lparr>nt_fieldsMap :=
                                    map_set name field (nt_fieldsMap (h_types h1 this))\<rparr>)\<rparr>))))"

definition addField_inputObject ::
  "nat \<Rightarrow> string \<Rightarrow> som_type \<Rightarrow> heap \<Rightarrow> som_error + nat \<times> heap" where
  "addField_inputObject this name type h =
     (case map_of (nt_fieldsMap (h_types h this)) name of
        Some existing \<Rightarrow>
          Inl (SomGraphQLError (''Field '' @ name @ '' already exists in type ''
                 @ nt_name (h_types h this) @ '' ('' @ inputFieldToString h existing @ '')''))
      | None \<Rightarrow> bind (schemaOfSomType h type)
        (\<lambda>s. if s \<noteq> schemaOfType h this
             then Inl (SomGraphQLError (''Cannot use provided type '' @ typeToString h (Some type)
                         @ '' as it is not attached to this schema (it is '' @ notAttached s
                         @ '')''))
             else (let (field, h1) = createInputFieldDefinition name (Some this) (Some type) h
                   in Inr (field,
                           h1\<lparr>h_types := (h_types h1)(this :=
                                 (h_types h1 this)\<lparr>nt_fieldsMap :=
                                    map_set name field (nt_fieldsMap (h_types h1 this))\<rparr>)\<rparr>))))"

text \<open>\<open>MutableUnionType.addType\<close>.\<close>

definition addType_union :: "nat \<Rightarrow> nat \<Rightarrow> heap \<Rightarrow> som_error + heap" where
  "addType_union this t h =
     (if schemaOfType h t \<noteq> schemaOfType h this
      then Inl (SomGraphQLError (''Cannot add provided type '' @ nt_name (h_types h t)
                  @ '' to union '' @ nt_name (h_types h this)
                  @ '' as it is not attached to this schema (it is ''
                  @ notAttached (schemaOfType h t) @ '')''))
      else if t \<in> set (nt_typesList (h_types h this)) then Inr h
      else Inr (h\<lparr>h_types := (h_types h)(this :=
                     (h_types h this)\<lparr>nt_typesList := nt_typesList (h_types h this) @ [t]\<rparr>)\<rparr>))"

text \<open>\<open>MutableFieldDefinition.setType\<close> and \<open>MutableInputFieldDefinition.setType\<close>.\<close>

definition setType :: "nat \<Rightarrow> som_type \<Rightarrow> heap \<Rightarrow> som_error + nat \<times> heap" where
  "setType this type h =
     (if schemaOfField h this = None
      then Inl (SomGraphQLError (''Cannot set the type of field '' @ fld_name (h_fields h this)
                  @ '' as it is detached''))
      else bind (schemaOfSomType h type)
        (\<lambda>s. if s \<noteq> schemaOfField h this
             then Inl (SomGraphQLError (''Cannot set provided type '' @ typeToString h (Some type)
                         @ '' to field '' @ fld_name (h_fields h this)
                         @ '' as it is not attached to this schema (it is '' @ notAttached s
                         @ '')''))
             else Inr (this,
                       h\<lparr>h_fields := (h_fields h)(this :=
                            (h_fields h this)\<lparr>fld_type := Some type\<rparr>)\<rparr>)))"

definition setType_inputField :: "nat \<Rightarrow> som_type \<Rightarrow> heap \<Rightarrow> som_error + nat \<times> heap" where
  "setType_inputField this type h =
     (if schemaOfInputField h this = None
      then Inl (SomGraphQLError (''Cannot set the type of input field ''
                  @ ifd_name (h_inputFields h this) @ '' as it is detached''))
      else bind (schemaOfSomType h type)
        (\<lambda>s. if s \<noteq> schemaOfInputField h this
             then Inl (SomGraphQLError (''Cannot set provided type '' @ typeToString h (Some type)
                         @ '' to input field '' @ ifd_name (h_inputFields h this)
                         @ '' as it is not attached to this schema (it is '' @ notAttached s
                         @ '')''))
             else Inr (this,
                       h\<lparr>h_inputFields := (h_inputFields h)(this :=
                            (h_inputFields h this)\<lparr>ifd_type := Some type\<rparr>)\<rparr>)))"

text \<open>\<open>MutableDirectiveDefinition.addArgument\<close>.\<close>

definition addArgument ::
  "nat \<Rightarrow> string \<Rightarrow> som_type \<Rightarrow> js_value option \<Rightarrow> heap \<Rightarrow> som_error + nat \<times> heap" where
  "addArgument this name type defaultValue h =
     (if schemaOfDirectiveDefinition h this = None
      then Inl (SomGraphQLError (''Cannot add argument to directive definition ''
                  @ dd_name (h_directiveDefs h this) @ '' as it is detached''))
      else bind (schemaOfSomType h type)
        (\<lambda>s. if s \<noteq> schemaOfDirectiveDefinition h this
             then Inl (SomGraphQLError (''Cannot use type '' @ typeToString h (Some type)
                         @ '' for argument of directive definition ''
                         @ dd_name (h_directiveDefs h this)
                         @ '' as it is not attached to this schema (it is '' @ notAttached s
                         @ '')''))
             else (let (newArg, h1) = createArgumentDefinition name
                                        (Some (DirectiveDefinitionRef this)) (Some type)
                                        defaultValue h
                   in Inr (newArg,
                           h1\<lparr>h_directiveDefs := (h_directiveDefs h1)(this :=
                                 (h_directiveDefs h1 this)\<lparr>dd_args :=
                                    map_set name newArg (dd_args (h_directiveDefs h1 this))\<rparr>)\<rparr>))))"

subsection \<open>Removal of a directive and of a scalar type\<close>

text \<open>
  \<open>MutableDirective.remove\<close>: the directive leaves the applied directives of its parent.
\<close>

fun indexOf :: "'a \<Rightarrow> 'a list \<Rightarrow> nat option" where
  "indexOf x [] = None"
| "indexOf x (y # ys) =
     (if x = y then Some 0 else (case indexOf x ys of None \<Rightarrow> None | Some i \<Rightarrow> Some (Suc i)))"

definition splice1 :: "nat \<Rightarrow> 'a list \<Rightarrow> 'a list" where
  "splice1 i xs = take i xs @ drop (Suc i) xs"

definition removeDirective :: "nat \<Rightarrow> heap \<Rightarrow> som_error + bool \<times> heap" where
  "removeDirective this h =
     (case dir_parent (h_directives h this) of
        None \<Rightarrow> Inr (False, h)
      | Some parent \<Rightarrow>
          (case indexOf this (appliedDirectives h parent) of
             None \<Rightarrow>
               Inl (SomAssertionFailed (''Directive '' @ directiveToString h this @ '' lists ''
                      @ elementToString h parent
                      @ '' as parent, but that parent doesn't list it as applied directive''))
           | Some index \<Rightarrow>
               (let h1 = setAppliedDirectives h parent (splice1 index (appliedDirectives h parent))
                in Inr (True,
                        h1\<lparr>h_directives := (h_directives h1)(this :=
                              (h_directives h1 this)\<lparr>dir_parent := None\<rparr>)\<rparr>))))"

text \<open>
  \<open>for (const directive of this._appliedDirectives) directive.remove()\<close>: the array
  iterator reads the element at its index in the array as it is at that moment, and the
  removals shorten the array while the loop runs.
\<close>

function removeAppliedDirectives :: "elem_ref \<Rightarrow> nat \<Rightarrow> nat \<Rightarrow> heap \<Rightarrow> som_error + heap" where
  "removeAppliedDirectives e i steps h =
     (if steps = 0 \<or> i \<ge> length (appliedDirectives h e) then Inr h
      else bind (removeDirective (appliedDirectives h e ! i) h)
             (\<lambda>(_, h1). removeAppliedDirectives e (Suc i) (steps - 1) h1))"
  by pat_completeness auto
termination
  by (relation "measure (\<lambda>(e, i, steps, h). steps)") auto

declare removeAppliedDirectives.simps [simp del]

text \<open>
  \<open>MutableScalarType.remove\<close>. The callback on each referencer is
  \<open>BaseElement.prototype['removeTypeReference']\<close>, the method of the base class, whose body
  is empty: the referencers are returned as they are.
\<close>

definition remove_scalarType :: "nat \<Rightarrow> heap \<Rightarrow> som_error + elem_ref list \<times> heap" where
  "remove_scalarType this h =
     (case nt_parent (h_types h this) of
        None \<Rightarrow> Inr ([], h)
      | Some parent \<Rightarrow>
          (let h1 = removeTypeDefinition this parent h;
               h2 = h1\<lparr>h_types := (h_types h1)(this := (h_types h1 this)\<lparr>nt_parent := None\<rparr>)\<rparr>
           in bind (removeAppliedDirectives (NamedTypeRef this) 0
                      (length (appliedDirectives h2 (NamedTypeRef this))) h2)
                (\<lambda>h3. Inr (nt_referencers (h_types h3 this),
                           h3\<lparr>h_types := (h_types h3)(this :=
                                 (h_types h3 this)\<lparr>nt_referencers := []\<rparr>)\<rparr>))))"

subsection \<open>Deep copy between the two worlds\<close>

text \<open>
  \<open>checkDetached\<close> of the immutable constructors throws on \<open>undefined\<close>; that of the mutable
  ones returns it. The schema a name is looked up in is \<open>destParent.schema()!\<close> of the
  caller: a TypeError when it is \<open>undefined\<close> and a name has to be looked up.
\<close>

fun copyWrapperTypeOrTypeRef ::
  "heap \<Rightarrow> som_type option \<Rightarrow> nat option \<Rightarrow> world \<Rightarrow> som_error + som_type option" where
  "copyWrapperTypeOrTypeRef h None destParent w =
     (if w = ImmutableWorld then Inl (SomError ''Invalid detached value'') else Inr None)"
| "copyWrapperTypeOrTypeRef h (Some (ListType t)) destParent w =
     bind (copyWrapperTypeOrTypeRef h t destParent w) (\<lambda>t'. Inr (Some (ListType t')))"
| "copyWrapperTypeOrTypeRef h (Some (Named r)) destParent w =
     (case destParent of
        None \<Rightarrow> Inl SomTypeError
      | Some schema \<Rightarrow> Inr (map_option Named (typeByName h schema (nt_name (h_types h r)))))"

definition copyDirective :: "nat \<Rightarrow> elem_ref \<Rightarrow> heap \<Rightarrow> nat \<times> heap" where
  "copyDirective source parentDest h =
     createDirective (dir_name (h_directives h source)) (Some parentDest)
       (fold (\<lambda>(name, v) args. map_set name v args) (dir_args (h_directives h source)) []) h"

definition copyAppliedDirectives :: "nat list \<Rightarrow> elem_ref \<Rightarrow> heap \<Rightarrow> heap" where
  "copyAppliedDirectives sourceDirectives dest h =
     fold (\<lambda>directive hh.
             (let (d, h1) = copyDirective directive dest hh
              in setAppliedDirectives h1 dest (appliedDirectives h1 dest @ [d])))
       sourceDirectives h"

definition copyFieldArgumentDefinition ::
  "world \<Rightarrow> nat \<Rightarrow> nat \<Rightarrow> heap \<Rightarrow> som_error + nat \<times> heap" where
  "copyFieldArgumentDefinition w source destParent h =
     bind (copyWrapperTypeOrTypeRef h (arg_type (h_args h source)) (schemaOfField h destParent) w)
       (\<lambda>type.
          (let (copied, h1) = createArgumentDefinition (arg_name (h_args h source))
                                (Some (FieldDefinitionRef destParent)) type
                                (arg_defaultValue (h_args h source)) h;
               h2 = copyAppliedDirectives (arg_appliedDirectives (h_args h1 source))
                      (ArgumentDefinitionRef copied) h1
           in bind (addReferencerToType (ArgumentDefinitionRef copied) type h2)
                (\<lambda>h3. Inr (copied, h3))))"

definition copyFieldDefinition ::
  "world \<Rightarrow> nat \<Rightarrow> nat \<Rightarrow> heap \<Rightarrow> som_error + nat \<times> heap" where
  "copyFieldDefinition w source destParent h =
     bind (copyWrapperTypeOrTypeRef h (fld_type (h_fields h source)) (schemaOfType h destParent) w)
       (\<lambda>type.
          (let (copiedField, h1) = createFieldDefinition (fld_name (h_fields h source))
                                     (Some destParent) type h;
               h2 = copyAppliedDirectives (fld_appliedDirectives (h_fields h1 source))
                      (FieldDefinitionRef copiedField) h1
           in bind (foldM (\<lambda>sourceArg hh.
                             bind (copyFieldArgumentDefinition w sourceArg copiedField hh)
                               (\<lambda>(arg, hh1). Inr (addFieldArg arg copiedField hh1)))
                      (map snd (fld_args (h_fields h2 source))) h2)
                (\<lambda>h3. bind (addReferencerToType (FieldDefinitionRef copiedField) type h3)
                        (\<lambda>h4. Inr (copiedField, h4)))))"

definition copyInputFieldDefinition ::
  "world \<Rightarrow> nat \<Rightarrow> nat \<Rightarrow> heap \<Rightarrow> som_error + nat \<times> heap" where
  "copyInputFieldDefinition w source destParent h =
     bind (copyWrapperTypeOrTypeRef h (ifd_type (h_inputFields h source))
             (schemaOfType h destParent) w)
       (\<lambda>type.
          (let (copied, h1) = createInputFieldDefinition (ifd_name (h_inputFields h source))
                                (Some destParent) type h;
               h2 = copyAppliedDirectives (ifd_appliedDirectives (h_inputFields h1 source))
                      (InputFieldDefinitionRef copied) h1
           in bind (addReferencerToType (InputFieldDefinitionRef copied) type h2)
                (\<lambda>h3. Inr (copied, h3))))"

definition copyDirectiveArgumentDefinition ::
  "world \<Rightarrow> nat \<Rightarrow> nat \<Rightarrow> heap \<Rightarrow> som_error + nat \<times> heap" where
  "copyDirectiveArgumentDefinition w source destParent h =
     bind (copyWrapperTypeOrTypeRef h (arg_type (h_args h source))
             (schemaOfDirectiveDefinition h destParent) w)
       (\<lambda>type.
          (let (copied, h1) = createArgumentDefinition (arg_name (h_args h source))
                                (Some (DirectiveDefinitionRef destParent)) type
                                (arg_defaultValue (h_args h source)) h;
               h2 = copyAppliedDirectives (arg_appliedDirectives (h_args h1 source))
                      (ArgumentDefinitionRef copied) h1
           in bind (addReferencerToType (ArgumentDefinitionRef copied) type h2)
                (\<lambda>h3. Inr (copied, h3))))"

definition copyDirectiveDefinition ::
  "world \<Rightarrow> nat \<Rightarrow> nat \<Rightarrow> heap \<Rightarrow> som_error + nat \<times> heap" where
  "copyDirectiveDefinition w source destParent h =
     (let (copiedDirective, h1) = createDirectiveDefinition (dd_name (h_directiveDefs h source))
                                    (Some destParent) h
      in bind (foldM (\<lambda>sourceArg hh.
                        bind (copyDirectiveArgumentDefinition w sourceArg copiedDirective hh)
                          (\<lambda>(arg, hh1). Inr (addDirectiveArg arg copiedDirective hh1)))
                 (map snd (dd_args (h_directiveDefs h1 source))) h1)
           (\<lambda>h2. Inr (copiedDirective, h2)))"

definition copyNamedTypeShallow ::
  "nat \<Rightarrow> nat \<Rightarrow> heap \<Rightarrow> som_error + nat \<times> heap" where
  "copyNamedTypeShallow source schema h =
     createNamedType (nt_kind (h_types h source)) (nt_name (h_types h source)) schema h"

definition copyNamedTypeInner :: "world \<Rightarrow> nat \<Rightarrow> nat \<Rightarrow> heap \<Rightarrow> som_error + heap" where
  "copyNamedTypeInner w source dest h =
     (let h1 = copyAppliedDirectives (nt_appliedDirectives (h_types h source)) (NamedTypeRef dest) h
      in if nt_kind (h_types h1 source) = ObjectType
         then foldM (\<lambda>field hh.
                       bind (copyFieldDefinition w field dest hh)
                         (\<lambda>(copied, hh1). Inr (addField copied dest hh1)))
                (map snd (nt_fieldsMap (h_types h1 source))) h1
         else if nt_kind (h_types h1 source) = UnionType
         then foldM (\<lambda>t hh. addTypeToUnion (nt_name (h_types hh t)) dest hh)
                (nt_typesList (h_types h1 source)) h1
         else if nt_kind (h_types h1 source) = InputObjectType
         then foldM (\<lambda>field hh.
                       bind (copyInputFieldDefinition w field dest hh)
                         (\<lambda>(copied, hh1). Inr (addInputField copied dest hh1)))
                (map snd (nt_fieldsMap (h_types h1 source))) h1
         else Inr h1)"

definition copySchemaDefinitionInner :: "nat \<Rightarrow> nat \<Rightarrow> heap \<Rightarrow> som_error + heap" where
  "copySchemaDefinitionInner source dest h =
     bind (foldM (\<lambda>(root, t) hh. addRoot root (nt_name (h_types hh t)) dest hh)
             (sd_rootsMap (h_schemaDefs h source)) h)
       (\<lambda>h1. Inr (copyAppliedDirectives (sd_appliedDirectives (h_schemaDefs h1 source))
                    (SchemaDefinitionRef dest) h1))"

text \<open>
  \<open>copy(source, destCtors)\<close>. The shell of every type of the source is registered under
  its name before the second loop looks it up, so \<open>doc.type(type.name)!\<close> is defined there;
  the model answers a missing shell with the TypeError of the first use of \<open>undefined\<close>.
\<close>

definition copy :: "world \<Rightarrow> nat \<Rightarrow> heap \<Rightarrow> som_error + nat \<times> heap" where
  "copy w source h =
     (let (doc0, h0) = newSchema w h in
      case sc_schemaDefinition (h_schemas h0 source) of
        None \<Rightarrow> Inl (SomAssertionFailed
                    ''Badly constructed schema; doesn't have a schema definition'')
      | Some sourceDefinition \<Rightarrow>
          (let (doc, h1) = addSchemaDefinition doc0 h0 in
           bind (foldM (\<lambda>t hh. bind (copyNamedTypeShallow t doc hh)
                                 (\<lambda>(shell, hh1). Inr (addTypeDefinition shell doc hh1)))
                   (map snd (sc_typesMap (h_schemas h1 source))) h1)
             (\<lambda>h2.
                (case sc_schemaDefinition (h_schemas h2 doc) of
                   None \<Rightarrow> Inl (SomAssertionFailed
                               ''Badly constructed schema; doesn't have a schema definition'')
                 | Some docDefinition \<Rightarrow>
                     bind (copySchemaDefinitionInner sourceDefinition docDefinition h2)
                       (\<lambda>h3.
                          bind (foldM (\<lambda>t hh.
                                         (case typeByName hh doc (nt_name (h_types hh t)) of
                                            None \<Rightarrow> Inl SomTypeError
                                          | Some dest \<Rightarrow> copyNamedTypeInner w t dest hh))
                                  (map snd (sc_typesMap (h_schemas h3 source))) h3)
                            (\<lambda>h4.
                               bind (foldM (\<lambda>d hh.
                                              bind (copyDirectiveDefinition w d doc hh)
                                                (\<lambda>(copied, hh1).
                                                   Inr (addDirectiveDefinition copied doc hh1)))
                                       (map snd (sc_directivesMap (h_schemas h4 source))) h4)
                                 (\<lambda>h5. Inr (doc, h5))))))))"

definition toImmutable :: "nat \<Rightarrow> heap \<Rightarrow> som_error + nat \<times> heap" where
  "toImmutable this h = copy ImmutableWorld this h"

definition toMutable :: "nat \<Rightarrow> heap \<Rightarrow> som_error + nat \<times> heap" where
  "toMutable this h = copy MutableWorld this h"

subsection \<open>Referencers and references\<close>

text \<open>
  \<open>BaseSchema.allSchemaElement\<close>: the schema definition, every type with its children
  (the fields of an object type, each followed by its arguments; the fields of an input
  object type), every directive definition with its arguments.
\<close>

definition allChildrenElements :: "heap \<Rightarrow> nat \<Rightarrow> elem_ref list" where
  "allChildrenElements h t =
     (if nt_kind (h_types h t) = ObjectType
      then concat (map (\<lambda>f. FieldDefinitionRef f
                            # map (\<lambda>a. ArgumentDefinitionRef a) (map snd (fld_args (h_fields h f))))
                     (map snd (nt_fieldsMap (h_types h t))))
      else if nt_kind (h_types h t) = InputObjectType
      then map (\<lambda>f. InputFieldDefinitionRef f) (map snd (nt_fieldsMap (h_types h t)))
      else [])"

definition allSchemaElement :: "heap \<Rightarrow> nat \<Rightarrow> elem_ref list" where
  "allSchemaElement h s =
     (case sc_schemaDefinition (h_schemas h s) of None \<Rightarrow> [] | Some sd \<Rightarrow> [SchemaDefinitionRef sd])
     @ concat (map (\<lambda>t. NamedTypeRef t # allChildrenElements h t)
                 (map snd (sc_typesMap (h_schemas h s))))
     @ concat (map (\<lambda>d. DirectiveDefinitionRef d
                         # map (\<lambda>a. ArgumentDefinitionRef a)
                             (map snd (dd_args (h_directiveDefs h d))))
                 (map snd (sc_directivesMap (h_schemas h s))))"

text \<open>
  The types an element references: the roots of a schema definition, the members of a
  union, the base type of the type of a field, an input field or an argument.
\<close>

definition baseTypes :: "som_type option \<Rightarrow> nat list" where
  "baseTypes type =
     (case type of
        None \<Rightarrow> []
      | Some t \<Rightarrow> (case baseType t of Inl _ \<Rightarrow> [] | Inr r \<Rightarrow> [r]))"

fun referencedTypes :: "heap \<Rightarrow> elem_ref \<Rightarrow> nat list" where
  "referencedTypes h (SchemaDefinitionRef r) = map snd (sd_rootsMap (h_schemaDefs h r))"
| "referencedTypes h (NamedTypeRef r) = nt_typesList (h_types h r)"
| "referencedTypes h (FieldDefinitionRef r) = baseTypes (fld_type (h_fields h r))"
| "referencedTypes h (InputFieldDefinitionRef r) = baseTypes (ifd_type (h_inputFields h r))"
| "referencedTypes h (ArgumentDefinitionRef r) = baseTypes (arg_type (h_args h r))"
| "referencedTypes h (DirectiveDefinitionRef r) = []"

definition referencerSymmetry :: "heap \<Rightarrow> nat \<Rightarrow> bool" where
  "referencerSymmetry h s =
     list_all (\<lambda>x. list_all (\<lambda>t. x \<in> set (nt_referencers (h_types h t))) (referencedTypes h x))
       (allSchemaElement h s)"

subsection \<open>Schemas to evaluate on\<close>

text \<open>
  \<^verbatim>\<open>
  const schema = MutableSchema.empty();
  const s = schema.addScalarType('S');
  const s2 = schema.addScalarType('S2');
  const a = schema.addObjectType('A');
  const f = a.addField('f', s);
  \<close>
  The result holds the schema, the two scalar types and the field.
\<close>

definition example_schema :: "som_error + (nat \<times> nat \<times> nat \<times> nat) \<times> heap" where
  "example_schema =
     (let (schema, h0) = emptySchema empty_heap in
      bind (addScalarType schema ''S'' h0) (\<lambda>(s, h1).
      bind (addScalarType schema ''S2'' h1) (\<lambda>(s2, h2).
      bind (addObjectType_som schema ''A'' h2) (\<lambda>(a, h3).
      bind (addField_object a ''f'' (Named s) h3) (\<lambda>(f, h4).
      Inr ((schema, s, s2, f), h4))))))"

text \<open>
  The same schema after \<open>schema.toImmutable().toMutable()\<close>, with the copies of the two
  scalar types and of the field looked up by name in the copy.
\<close>

definition lookupField :: "heap \<Rightarrow> nat \<Rightarrow> string \<Rightarrow> string \<Rightarrow> som_error + nat" where
  "lookupField h schema typeName fieldName =
     (case typeByName h schema typeName of
        None \<Rightarrow> Inl SomTypeError
      | Some t \<Rightarrow>
          (case map_of (nt_fieldsMap (h_types h t)) fieldName of
             None \<Rightarrow> Inl SomTypeError
           | Some f \<Rightarrow> Inr f))"

definition lookupType :: "heap \<Rightarrow> nat \<Rightarrow> string \<Rightarrow> som_error + nat" where
  "lookupType h schema typeName =
     (case typeByName h schema typeName of None \<Rightarrow> Inl SomTypeError | Some t \<Rightarrow> Inr t)"

definition example_copied_schema :: "som_error + (nat \<times> nat \<times> nat \<times> nat) \<times> heap" where
  "example_copied_schema =
     bind example_schema (\<lambda>((schema, s, s2, f), h).
     bind (toImmutable schema h) (\<lambda>(frozen, h1).
     bind (toMutable frozen h1) (\<lambda>(copied, h2).
     bind (lookupType h2 copied ''S'') (\<lambda>s'.
     bind (lookupType h2 copied ''S2'') (\<lambda>s2'.
     bind (lookupField h2 copied ''A'' ''f'') (\<lambda>f'.
     Inr ((copied, s', s2', f'), h2)))))))"

subsection \<open>Structure of a schema\<close>

text \<open>
  Two schemas are structurally equal when they agree on everything but the identity of
  their objects: the shape of a schema is what is left of it once every reference to a
  type is replaced by the name of the type and every other reference by the shape of the
  object it leads to. Maps keep their keys and their order.
\<close>

datatype type_shape = NamedShape string | ListShape "type_shape option"

record directive_shape =
  dsh_name :: string
  dsh_args :: "(string \<times> js_value) list"

record argument_shape =
  ash_name :: string
  ash_type :: "type_shape option"
  ash_defaultValue :: "js_value option"
  ash_directives :: "directive_shape list"

record field_shape =
  fsh_name :: string
  fsh_type :: "type_shape option"
  fsh_args :: "(string \<times> argument_shape) list"
  fsh_directives :: "directive_shape list"

record input_field_shape =
  ifsh_name :: string
  ifsh_type :: "type_shape option"
  ifsh_directives :: "directive_shape list"

record named_type_shape =
  tsh_kind :: type_kind
  tsh_name :: string
  tsh_directives :: "directive_shape list"
  tsh_fields :: "(string \<times> field_shape) list"
  tsh_inputFields :: "(string \<times> input_field_shape) list"
  tsh_members :: "string list"

record directive_definition_shape =
  ddsh_name :: string
  ddsh_args :: "(string \<times> argument_shape) list"

record schema_definition_shape =
  sdsh_roots :: "(schema_root \<times> string) list"
  sdsh_directives :: "directive_shape list"

record schema_shape =
  ssh_definition :: "schema_definition_shape option"
  ssh_types :: "(string \<times> named_type_shape) list"
  ssh_directives :: "(string \<times> directive_definition_shape) list"

fun typeShape :: "heap \<Rightarrow> som_type \<Rightarrow> type_shape" where
  "typeShape h (Named r) = NamedShape (nt_name (h_types h r))"
| "typeShape h (ListType None) = ListShape None"
| "typeShape h (ListType (Some t)) = ListShape (Some (typeShape h t))"

definition directiveShape :: "heap \<Rightarrow> nat \<Rightarrow> directive_shape" where
  "directiveShape h d =
     \<lparr>dsh_name = dir_name (h_directives h d), dsh_args = dir_args (h_directives h d)\<rparr>"

definition argumentShape :: "heap \<Rightarrow> nat \<Rightarrow> argument_shape" where
  "argumentShape h a =
     \<lparr>ash_name = arg_name (h_args h a),
      ash_type = map_option (typeShape h) (arg_type (h_args h a)),
      ash_defaultValue = arg_defaultValue (h_args h a),
      ash_directives = map (directiveShape h) (arg_appliedDirectives (h_args h a))\<rparr>"

definition fieldShape :: "heap \<Rightarrow> nat \<Rightarrow> field_shape" where
  "fieldShape h f =
     \<lparr>fsh_name = fld_name (h_fields h f),
      fsh_type = map_option (typeShape h) (fld_type (h_fields h f)),
      fsh_args = map (\<lambda>(k, a). (k, argumentShape h a)) (fld_args (h_fields h f)),
      fsh_directives = map (directiveShape h) (fld_appliedDirectives (h_fields h f))\<rparr>"

definition inputFieldShape :: "heap \<Rightarrow> nat \<Rightarrow> input_field_shape" where
  "inputFieldShape h f =
     \<lparr>ifsh_name = ifd_name (h_inputFields h f),
      ifsh_type = map_option (typeShape h) (ifd_type (h_inputFields h f)),
      ifsh_directives = map (directiveShape h) (ifd_appliedDirectives (h_inputFields h f))\<rparr>"

text \<open>
  The fields map of a type holds field definitions when the type is an object type and
  input field definitions when it is an input object type; the members are those of a
  union type.
\<close>

definition namedTypeShape :: "heap \<Rightarrow> nat \<Rightarrow> named_type_shape" where
  "namedTypeShape h t =
     \<lparr>tsh_kind = nt_kind (h_types h t),
      tsh_name = nt_name (h_types h t),
      tsh_directives = map (directiveShape h) (nt_appliedDirectives (h_types h t)),
      tsh_fields = (if nt_kind (h_types h t) = ObjectType
                    then map (\<lambda>(k, f). (k, fieldShape h f)) (nt_fieldsMap (h_types h t))
                    else []),
      tsh_inputFields = (if nt_kind (h_types h t) = InputObjectType
                         then map (\<lambda>(k, f). (k, inputFieldShape h f))
                                (nt_fieldsMap (h_types h t))
                         else []),
      tsh_members = (if nt_kind (h_types h t) = UnionType
                     then map (\<lambda>m. nt_name (h_types h m)) (nt_typesList (h_types h t))
                     else [])\<rparr>"

definition directiveDefinitionShape :: "heap \<Rightarrow> nat \<Rightarrow> directive_definition_shape" where
  "directiveDefinitionShape h d =
     \<lparr>ddsh_name = dd_name (h_directiveDefs h d),
      ddsh_args = map (\<lambda>(k, a). (k, argumentShape h a)) (dd_args (h_directiveDefs h d))\<rparr>"

definition schemaDefinitionShape :: "heap \<Rightarrow> nat \<Rightarrow> schema_definition_shape" where
  "schemaDefinitionShape h d =
     \<lparr>sdsh_roots = map (\<lambda>(root, t). (root, nt_name (h_types h t)))
                     (sd_rootsMap (h_schemaDefs h d)),
      sdsh_directives = map (directiveShape h) (sd_appliedDirectives (h_schemaDefs h d))\<rparr>"

definition schemaShape :: "heap \<Rightarrow> nat \<Rightarrow> schema_shape" where
  "schemaShape h s =
     \<lparr>ssh_definition = map_option (schemaDefinitionShape h) (sc_schemaDefinition (h_schemas h s)),
      ssh_types = map (\<lambda>(k, t). (k, namedTypeShape h t)) (sc_typesMap (h_schemas h s)),
      ssh_directives = map (\<lambda>(k, d). (k, directiveDefinitionShape h d))
                         (sc_directivesMap (h_schemas h s))\<rparr>"

subsection \<open>Schemas the copy is defined on\<close>

text \<open>
  What \<open>copy\<close> relies on without checking it. Every map is keyed by the name of its
  entries (the mutable interface and the parser insert under the name), a directive has
  one value per argument name, every field, input field and argument has a type, no list
  type wraps \<open>undefined\<close>, the kind of a type is one \<open>createNamedType\<close> has a branch for, and
  the name of every type referred to (by a type reference, as a root or as a member of a
  union) is the name of a type of the schema or of a built-in type. The schema has its
  schema definition.
\<close>

fun typeShapeResolves :: "string set \<Rightarrow> type_shape \<Rightarrow> bool" where
  "typeShapeResolves N (NamedShape n) = (n \<in> N)"
| "typeShapeResolves N (ListShape None) = False"
| "typeShapeResolves N (ListShape (Some t)) = typeShapeResolves N t"

definition typeResolves :: "string set \<Rightarrow> type_shape option \<Rightarrow> bool" where
  "typeResolves N t = (case t of None \<Rightarrow> False | Some s \<Rightarrow> typeShapeResolves N s)"

definition keyedBy :: "('a \<Rightarrow> 'k) \<Rightarrow> ('k \<times> 'a) list \<Rightarrow> bool" where
  "keyedBy name m \<longleftrightarrow> distinct (map fst m) \<and> (\<forall>kv\<in>set m. name (snd kv) = fst kv)"

definition directivesOk :: "directive_shape list \<Rightarrow> bool" where
  "directivesOk ds \<longleftrightarrow> (\<forall>d\<in>set ds. distinct (map fst (dsh_args d)))"

definition argumentsOk :: "string set \<Rightarrow> (string \<times> argument_shape) list \<Rightarrow> bool" where
  "argumentsOk N m \<longleftrightarrow>
     keyedBy ash_name m
     \<and> (\<forall>kv\<in>set m. typeResolves N (ash_type (snd kv)) \<and> directivesOk (ash_directives (snd kv)))"

definition fieldsOk :: "string set \<Rightarrow> (string \<times> field_shape) list \<Rightarrow> bool" where
  "fieldsOk N m \<longleftrightarrow>
     keyedBy fsh_name m
     \<and> (\<forall>kv\<in>set m. typeResolves N (fsh_type (snd kv)) \<and> directivesOk (fsh_directives (snd kv))
                     \<and> argumentsOk N (fsh_args (snd kv)))"

definition inputFieldsOk :: "string set \<Rightarrow> (string \<times> input_field_shape) list \<Rightarrow> bool" where
  "inputFieldsOk N m \<longleftrightarrow>
     keyedBy ifsh_name m
     \<and> (\<forall>kv\<in>set m. typeResolves N (ifsh_type (snd kv))
                     \<and> directivesOk (ifsh_directives (snd kv)))"

definition namedTypeOk :: "string set \<Rightarrow> named_type_shape \<Rightarrow> bool" where
  "namedTypeOk N t \<longleftrightarrow>
     tsh_kind t \<in> {ScalarType, ObjectType, UnionType, InputObjectType}
     \<and> directivesOk (tsh_directives t)
     \<and> fieldsOk N (tsh_fields t)
     \<and> inputFieldsOk N (tsh_inputFields t)
     \<and> set (tsh_members t) \<subseteq> N"

definition schemaDefinitionOk :: "string set \<Rightarrow> schema_definition_shape \<Rightarrow> bool" where
  "schemaDefinitionOk N d \<longleftrightarrow>
     distinct (map fst (sdsh_roots d)) \<and> snd ` set (sdsh_roots d) \<subseteq> N
     \<and> directivesOk (sdsh_directives d)"

definition typeNamesOf :: "schema_shape \<Rightarrow> string set" where
  "typeNamesOf s = set builtInTypes \<union> fst ` set (ssh_types s)"

definition schemaOk :: "schema_shape \<Rightarrow> bool" where
  "schemaOk s \<longleftrightarrow>
     (case ssh_definition s of None \<Rightarrow> False | Some d \<Rightarrow> schemaDefinitionOk (typeNamesOf s) d)
     \<and> keyedBy tsh_name (ssh_types s)
     \<and> (\<forall>kv\<in>set (ssh_types s). namedTypeOk (typeNamesOf s) (snd kv))
     \<and> keyedBy ddsh_name (ssh_directives s)
     \<and> (\<forall>kv\<in>set (ssh_directives s). argumentsOk (typeNamesOf s) (ddsh_args (snd kv)))"

text \<open>
  The objects of a schema are allocated: every address the shape of the schema is read
  through lies in \<open>I\<close>, a set of addresses below \<open>h_next\<close>. A type referred to needs only be
  allocated.
\<close>

fun typeBelow :: "nat \<Rightarrow> som_type \<Rightarrow> bool" where
  "typeBelow n (Named r) = (r < n)"
| "typeBelow n (ListType None) = True"
| "typeBelow n (ListType (Some t)) = typeBelow n t"

definition typeAllocated :: "heap \<Rightarrow> som_type option \<Rightarrow> bool" where
  "typeAllocated h t = (case t of None \<Rightarrow> True | Some s \<Rightarrow> typeBelow (h_next h) s)"

definition argumentIn :: "nat set \<Rightarrow> heap \<Rightarrow> nat \<Rightarrow> bool" where
  "argumentIn I h a \<longleftrightarrow>
     a \<in> I \<and> set (arg_appliedDirectives (h_args h a)) \<subseteq> I
     \<and> typeAllocated h (arg_type (h_args h a))"

definition fieldIn :: "nat set \<Rightarrow> heap \<Rightarrow> nat \<Rightarrow> bool" where
  "fieldIn I h f \<longleftrightarrow>
     f \<in> I \<and> set (fld_appliedDirectives (h_fields h f)) \<subseteq> I
     \<and> typeAllocated h (fld_type (h_fields h f))
     \<and> (\<forall>kv\<in>set (fld_args (h_fields h f)). argumentIn I h (snd kv))"

definition inputFieldIn :: "nat set \<Rightarrow> heap \<Rightarrow> nat \<Rightarrow> bool" where
  "inputFieldIn I h f \<longleftrightarrow>
     f \<in> I \<and> set (ifd_appliedDirectives (h_inputFields h f)) \<subseteq> I
     \<and> typeAllocated h (ifd_type (h_inputFields h f))"

definition namedTypeIn :: "nat set \<Rightarrow> heap \<Rightarrow> nat \<Rightarrow> bool" where
  "namedTypeIn I h t \<longleftrightarrow>
     t \<in> I \<and> set (nt_appliedDirectives (h_types h t)) \<subseteq> I
     \<and> (nt_kind (h_types h t) = ObjectType
          \<longrightarrow> (\<forall>kv\<in>set (nt_fieldsMap (h_types h t)). fieldIn I h (snd kv)))
     \<and> (nt_kind (h_types h t) = InputObjectType
          \<longrightarrow> (\<forall>kv\<in>set (nt_fieldsMap (h_types h t)). inputFieldIn I h (snd kv)))
     \<and> (nt_kind (h_types h t) = UnionType
          \<longrightarrow> (\<forall>m\<in>set (nt_typesList (h_types h t)). m < h_next h))"

definition directiveDefinitionIn :: "nat set \<Rightarrow> heap \<Rightarrow> nat \<Rightarrow> bool" where
  "directiveDefinitionIn I h d \<longleftrightarrow>
     d \<in> I \<and> (\<forall>kv\<in>set (dd_args (h_directiveDefs h d)). argumentIn I h (snd kv))"

definition schemaDefinitionIn :: "nat set \<Rightarrow> heap \<Rightarrow> nat \<Rightarrow> bool" where
  "schemaDefinitionIn I h d \<longleftrightarrow>
     d \<in> I \<and> set (sd_appliedDirectives (h_schemaDefs h d)) \<subseteq> I
     \<and> (\<forall>kv\<in>set (sd_rootsMap (h_schemaDefs h d)). snd kv < h_next h)"

definition schemaIn :: "nat set \<Rightarrow> heap \<Rightarrow> nat \<Rightarrow> bool" where
  "schemaIn I h s \<longleftrightarrow>
     s \<in> I
     \<and> (case sc_schemaDefinition (h_schemas h s) of
          None \<Rightarrow> True | Some d \<Rightarrow> schemaDefinitionIn I h d)
     \<and> (\<forall>kv\<in>set (sc_typesMap (h_schemas h s)). namedTypeIn I h (snd kv))
     \<and> (\<forall>kv\<in>set (sc_directivesMap (h_schemas h s)). directiveDefinitionIn I h (snd kv))"

definition copyable :: "heap \<Rightarrow> nat \<Rightarrow> bool" where
  "copyable h s \<longleftrightarrow> schemaOk (schemaShape h s) \<and> schemaIn {..<h_next h} h s"

subsection \<open>What a step of the copy leaves alone\<close>

text \<open>
  \<open>unchangedOutside E h h'\<close>: from \<open>h\<close> to \<open>h'\<close> objects were allocated, the objects of \<open>h\<close>
  at the addresses in \<open>E\<close> may have changed, and all others are as they were, up to the
  referencers of a type; no type changed its kind, name or parent.
\<close>

definition sameType :: "named_type \<Rightarrow> named_type \<Rightarrow> bool" where
  "sameType a b \<longleftrightarrow>
     nt_kind a = nt_kind b \<and> nt_name a = nt_name b \<and> nt_parent a = nt_parent b
     \<and> nt_appliedDirectives a = nt_appliedDirectives b \<and> nt_fieldsMap a = nt_fieldsMap b
     \<and> nt_typesList a = nt_typesList b"

definition unchangedOutside :: "nat set \<Rightarrow> heap \<Rightarrow> heap \<Rightarrow> bool" where
  "unchangedOutside E h h' \<longleftrightarrow>
     h_next h \<le> h_next h'
     \<and> (\<forall>r<h_next h. nt_kind (h_types h' r) = nt_kind (h_types h r)
                     \<and> nt_name (h_types h' r) = nt_name (h_types h r)
                     \<and> nt_parent (h_types h' r) = nt_parent (h_types h r))
     \<and> (\<forall>r<h_next h. r \<notin> E \<longrightarrow>
           h_schemas h' r = h_schemas h r \<and> h_schemaDefs h' r = h_schemaDefs h r
           \<and> sameType (h_types h' r) (h_types h r) \<and> h_fields h' r = h_fields h r
           \<and> h_inputFields h' r = h_inputFields h r \<and> h_args h' r = h_args h r
           \<and> h_directiveDefs h' r = h_directiveDefs h r
           \<and> h_directives h' r = h_directives h r)"

text \<open>
  In the schema \<open>doc\<close> under construction every name of \<open>N\<close> is the name of a type that
  \<open>doc.type(name)\<close> finds.
\<close>

definition resolvesIn :: "string set \<Rightarrow> heap \<Rightarrow> nat \<Rightarrow> bool" where
  "resolvesIn N h doc \<longleftrightarrow>
     doc < h_next h
     \<and> (\<forall>n\<in>N. \<exists>t. typeByName h doc n = Some t \<and> t < h_next h \<and> nt_name (h_types h t) = n)"

text \<open>
  The copy of a directive whose arguments have distinct names, and the shape of a
  directive object.
\<close>

definition copiedDirective :: "elem_ref \<Rightarrow> directive \<Rightarrow> directive" where
  "copiedDirective e d = \<lparr>dir_name = dir_name d, dir_parent = Some e, dir_args = dir_args d\<rparr>"

definition shapeOfDirective :: "directive \<Rightarrow> directive_shape" where
  "shapeOfDirective d = \<lparr>dsh_name = dir_name d, dsh_args = dir_args d\<rparr>"

text \<open>
  The shell \<open>createNamedType\<close> makes for a type, and the built-in types of a schema
  allocated at \<open>n\<close> by \<open>Ctors.schema()\<close>.
\<close>

definition shellOf :: "nat \<Rightarrow> type_kind \<Rightarrow> string \<Rightarrow> named_type" where
  "shellOf doc kind name =
     \<lparr>nt_kind = kind, nt_name = name, nt_parent = Some doc, nt_appliedDirectives = [],
      nt_referencers = [], nt_fieldsMap = [], nt_typesList = []\<rparr>"

definition builtInAt :: "nat \<Rightarrow> (string \<times> nat) list" where
  "builtInAt n = [(''Int'', Suc n), (''Float'', Suc (Suc n)), (''String'', Suc (Suc (Suc n))),
                  (''Boolean'', Suc (Suc (Suc (Suc n)))), (''ID'', Suc (Suc (Suc (Suc (Suc n)))))]"

text \<open>
  \<open>shellFor N I doc h t s\<close>: in \<open>doc\<close> the name of the source type \<open>t\<close> leads to \<open>s\<close>, a type
  of the same kind and name that is still empty, and \<open>t\<close> is ready to be copied.
\<close>

definition shellFor :: "string set \<Rightarrow> nat set \<Rightarrow> nat \<Rightarrow> heap \<Rightarrow> nat \<Rightarrow> nat \<Rightarrow> bool" where
  "shellFor N I doc h t s \<longleftrightarrow>
     typeByName h doc (nt_name (h_types h t)) = Some s \<and> s < h_next h \<and> s \<notin> I
     \<and> nt_parent (h_types h s) = Some doc
     \<and> nt_appliedDirectives (h_types h s) = [] \<and> nt_fieldsMap (h_types h s) = []
     \<and> nt_typesList (h_types h s) = []
     \<and> nt_kind (h_types h s) = nt_kind (h_types h t)
     \<and> nt_name (h_types h s) = nt_name (h_types h t)
     \<and> namedTypeIn I h t \<and> namedTypeOk N (namedTypeShape h t)"

subsection \<open>Schemas to copy\<close>

text \<open>
  The store and the schema of the example above, and the example after \<open>s.remove()\<close>:
  the scalar type \<open>S\<close> has left the schema and the field \<open>A.f\<close> still refers to it.
\<close>

definition example_heap :: heap where
  "example_heap = (case example_schema of Inl e \<Rightarrow> empty_heap | Inr (r, h) \<Rightarrow> h)"

definition example_root :: nat where
  "example_root = (case example_schema of Inl e \<Rightarrow> 0 | Inr ((schema, s, s2, f), h) \<Rightarrow> schema)"

definition example_removed :: "som_error + nat \<times> heap" where
  "example_removed =
     bind example_schema (\<lambda>((schema, s, s2, f), h).
     bind (remove_scalarType s h) (\<lambda>(referencers, h'). Inr (schema, h')))"

text \<open>
  \<open>Schema.parse('scalar S')\<close>, traced through \<open>buildSchemaInternal\<close>: \<open>ctors.schema()\<close>, then
  \<open>buildNamedTypeShallow\<close> adds the shell of \<open>S\<close>, then \<open>buildNamedTypeInner\<close> finds no
  directive to copy. The document has no \<open>SchemaDefinition\<close> node, so
  \<open>buildSchemaDefinition\<close> and with it \<open>ctors.addSchemaDefinition\<close> are not called.
\<close>

definition parsed_scalar_schema :: "som_error + nat \<times> heap" where
  "parsed_scalar_schema =
     (let (doc, h0) = newSchema ImmutableWorld empty_heap
      in bind (createNamedType ScalarType ''S'' doc h0)
           (\<lambda>(t, h1). Inr (doc, addTypeDefinition t doc h1)))"

section \<open>Composition with @override\<close>

text \<open>
  Modelled from the spec: the composition engine (\<open>composeAsFed2Subgraphs\<close> and the merger
  behind it) is not among the files at hand; only its tests are. The definitions below
  are the override-aware merge of section 4.C4 of the specification, read with the
  scenarios of its section 8: the rows of the override table, the rewriting ``remove
  \<open>T.a\<close> from the contribution of the overridden subgraph; if \<open>T.a\<close> was a component of the
  \<open>@key\<close> of \<open>T\<close>, keep it annotated \<open>@join__field(graph: S', external: true)\<close>'', and the
  sharing rule. A subgraph is reduced to what these rules read: its object types with the
  field names of their \<open>@key\<close> and, for each field, its type, the subgraph named by its
  \<open>@override\<close>, and whether \<open>@external\<close> and \<open>@shareable\<close> apply to it. An error carries its
  code, the field coordinate and the subgraph names its message embeds.
\<close>

record field_decl =
  fdl_name :: string
  fdl_type :: string
  fdl_override :: "string option"
  fdl_external :: bool
  fdl_shareable :: bool

record type_decl =
  td_name :: string
  td_key :: "string list"
  td_fields :: "field_decl list"

record subgraph =
  sub_name :: string
  sub_url :: string
  sub_typeDefs :: "type_decl list"

datatype error_code =
    OVERRIDE_FROM_SELF_ERROR
  | OVERRIDE_SOURCE_HAS_OVERRIDE
  | OVERRIDE_COLLISION_WITH_ANOTHER_DIRECTIVE
  | OVERRIDE_ON_BOTH_FIELD_AND_TYPE
  | INVALID_FIELD_SHARING

record composition_error =
  err_code :: error_code
  err_coordinate :: coordinate
  err_subgraphs :: "string list"

record supergraph_field =
  sf_field :: string
  sf_fieldType :: string
  sf_join_field :: "(string \<times> bool) list"

record supergraph_type =
  sup_name :: string
  sup_join_type :: "(string \<times> string list) list"
  sup_fields :: "supergraph_field list"

record supergraph =
  sup_join_graph :: "(string \<times> string) list"
  sup_types :: "supergraph_type list"

definition typeOf :: "subgraph \<Rightarrow> string \<Rightarrow> type_decl option" where
  "typeOf sg T = find (\<lambda>td. td_name td = T) (sub_typeDefs sg)"

definition declOf :: "subgraph \<Rightarrow> coordinate \<Rightarrow> field_decl option" where
  "declOf sg c =
     (case typeOf sg (fst c) of
        None \<Rightarrow> None
      | Some td \<Rightarrow> find (\<lambda>fd. fdl_name fd = snd c) (td_fields td))"

definition isKeyComponent :: "subgraph \<Rightarrow> coordinate \<Rightarrow> bool" where
  "isKeyComponent sg c =
     (case typeOf sg (fst c) of None \<Rightarrow> False | Some td \<Rightarrow> snd c \<in> set (td_key td))"

text \<open>Duplicates are dropped at their later occurrences: the merge order is kept.\<close>

definition dedup :: "'a list \<Rightarrow> 'a list" where
  "dedup xs = rev (remdups (rev xs))"

definition coordinatesOf :: "subgraph \<Rightarrow> coordinate list" where
  "coordinatesOf sg =
     dedup (concat (map (\<lambda>td. map (\<lambda>fd. (td_name td, fdl_name fd)) (td_fields td))
                      (sub_typeDefs sg)))"

definition allCoordinates :: "subgraph list \<Rightarrow> coordinate list" where
  "allCoordinates sgs = dedup (concat (map coordinatesOf sgs))"

definition mkError :: "error_code \<Rightarrow> coordinate \<Rightarrow> string list \<Rightarrow> composition_error" where
  "mkError code c names = \<lparr>err_code = code, err_coordinate = c, err_subgraphs = names\<rparr>"

text \<open>
  The rows of the override table for the field at \<open>c\<close> in \<open>sg\<close>. The same source and
  destination is an error of its own (scenario 2 expects it alone); otherwise the
  counterpart in the source subgraph is looked at: it must not bear \<open>@override\<close> itself,
  nor \<open>@external\<close>. A field with both \<open>@override\<close> and \<open>@external\<close> conflicts with itself.
\<close>

definition counterpartErrors ::
  "subgraph \<Rightarrow> string \<Rightarrow> coordinate \<Rightarrow> subgraph \<Rightarrow> composition_error list" where
  "counterpartErrors sg from c src =
     (if sub_name src = from
      then (case declOf src c of
              None \<Rightarrow> []
            | Some g \<Rightarrow>
                (if fdl_override g \<noteq> None
                 then [mkError OVERRIDE_SOURCE_HAS_OVERRIDE c [sub_name sg, from]]
                 else [])
                @ (if fdl_external g
                   then [mkError OVERRIDE_COLLISION_WITH_ANOTHER_DIRECTIVE c [sub_name sg, from]]
                   else []))
      else [])"

definition overrideErrorsAt :: "subgraph list \<Rightarrow> subgraph \<Rightarrow> coordinate \<Rightarrow> composition_error list" where
  "overrideErrorsAt sgs sg c =
     (case declOf sg c of
        None \<Rightarrow> []
      | Some fd \<Rightarrow>
          (case fdl_override fd of
             None \<Rightarrow> []
           | Some from \<Rightarrow>
               (if from = sub_name sg
                then [mkError OVERRIDE_FROM_SELF_ERROR c [sub_name sg]]
                else concat (map (counterpartErrors sg from c) sgs))
               @ (if fdl_external fd
                  then [mkError OVERRIDE_COLLISION_WITH_ANOTHER_DIRECTIVE c
                          [sub_name sg, sub_name sg]]
                  else [])))"

definition overrideErrors :: "subgraph list \<Rightarrow> composition_error list" where
  "overrideErrors sgs =
     concat (map (\<lambda>sg. concat (map (overrideErrorsAt sgs sg) (coordinatesOf sg))) sgs)"

text \<open>
  The field at \<open>c\<close> of the subgraph \<open>src\<close> is overridden when a subgraph carries a valid
  \<open>@override(from: src)\<close> on its field at \<open>c\<close>, valid meaning that no row of the table
  applies to it.
\<close>

definition isOverridden :: "subgraph list \<Rightarrow> subgraph \<Rightarrow> coordinate \<Rightarrow> bool" where
  "isOverridden sgs src c =
     list_ex (\<lambda>sg. (case declOf sg c of
                      None \<Rightarrow> False
                    | Some fd \<Rightarrow> fdl_override fd = Some (sub_name src)
                                \<and> overrideErrorsAt sgs sg c = []))
       sgs"

text \<open>
  The \<open>@join__field\<close> application a subgraph contributes to the supergraph field at \<open>c\<close>:
  none when it does not declare the field or when its field is overridden and no key
  component; \<open>external: true\<close> when its field is an overridden key component.
\<close>

definition contribution :: "subgraph list \<Rightarrow> subgraph \<Rightarrow> coordinate \<Rightarrow> (string \<times> bool) option" where
  "contribution sgs sg c =
     (case declOf sg c of
        None \<Rightarrow> None
      | Some fd \<Rightarrow>
          if isOverridden sgs sg c
          then (if isKeyComponent sg c then Some (sub_name sg, True) else None)
          else Some (sub_name sg, fdl_external fd))"

definition joinFields :: "subgraph list \<Rightarrow> coordinate \<Rightarrow> (string \<times> bool) list" where
  "joinFields sgs c = List.map_filter (\<lambda>sg. contribution sgs sg c) sgs"

definition resolvers :: "subgraph list \<Rightarrow> coordinate \<Rightarrow> subgraph list" where
  "resolvers sgs c = filter (\<lambda>sg. contribution sgs sg c = Some (sub_name sg, False)) sgs"

text \<open>Key fields are implicitly shareable (section 4.C3).\<close>

definition isShareableIn :: "subgraph \<Rightarrow> coordinate \<Rightarrow> bool" where
  "isShareableIn sg c =
     ((case declOf sg c of None \<Rightarrow> False | Some fd \<Rightarrow> fdl_shareable fd) \<or> isKeyComponent sg c)"

definition sharingErrors :: "subgraph list \<Rightarrow> composition_error list" where
  "sharingErrors sgs =
     concat (map (\<lambda>c. if length (resolvers sgs c) \<ge> 2
                         \<and> list_all (\<lambda>sg. \<not> isShareableIn sg c) (resolvers sgs c)
                       then [mkError INVALID_FIELD_SHARING c (map sub_name (resolvers sgs c))]
                       else [])
               (allCoordinates sgs))"

text \<open>
  The supergraph: one type per type name, with a \<open>@join__type\<close> per subgraph that defines
  it; its fields are those some subgraph still contributes to, typed by the first
  subgraph that resolves the field (the overriding one, when there is an override).
\<close>

definition typeNames :: "subgraph list \<Rightarrow> string list" where
  "typeNames sgs = dedup (concat (map (\<lambda>sg. map td_name (sub_typeDefs sg)) sgs))"

definition joinTypes :: "subgraph list \<Rightarrow> string \<Rightarrow> (string \<times> string list) list" where
  "joinTypes sgs T =
     List.map_filter (\<lambda>sg. map_option (\<lambda>td. (sub_name sg, td_key td)) (typeOf sg T)) sgs"

definition mergedFieldType :: "subgraph list \<Rightarrow> coordinate \<Rightarrow> string" where
  "mergedFieldType sgs c =
     (case List.map_filter (\<lambda>sg. declOf sg c) (resolvers sgs c @ sgs) of
        [] \<Rightarrow> []
      | fd # _ \<Rightarrow> fdl_type fd)"

definition mergedFields :: "subgraph list \<Rightarrow> string \<Rightarrow> supergraph_field list" where
  "mergedFields sgs T =
     map (\<lambda>c. \<lparr>sf_field = snd c, sf_fieldType = mergedFieldType sgs c,
               sf_join_field = joinFields sgs c\<rparr>)
       (filter (\<lambda>c. fst c = T \<and> joinFields sgs c \<noteq> []) (allCoordinates sgs))"

definition merge :: "subgraph list \<Rightarrow> supergraph" where
  "merge sgs =
     \<lparr>sup_join_graph = map (\<lambda>sg. (sub_name sg, sub_url sg)) sgs,
      sup_types = map (\<lambda>T. \<lparr>sup_name = T, sup_join_type = joinTypes sgs T,
                            sup_fields = mergedFields sgs T\<rparr>)
                    (typeNames sgs)\<rparr>"

definition compose :: "subgraph list \<Rightarrow> composition_error list + supergraph" where
  "compose sgs =
     (let errors = overrideErrors sgs @ sharingErrors sgs
      in if errors \<noteq> [] then Inl errors else Inr (merge sgs))"

definition supergraphJoinFields :: "supergraph \<Rightarrow> coordinate \<Rightarrow> (string \<times> bool) list option" where
  "supergraphJoinFields super c =
     (case find (\<lambda>t. sup_name t = fst c) (sup_types super) of
        None \<Rightarrow> None
      | Some t \<Rightarrow> map_option sf_join_field (find (\<lambda>f. sf_field f = snd c) (sup_fields t)))"

subsection \<open>The subgraphs of the override tests\<close>

definition plainDecl :: "string \<Rightarrow> string \<Rightarrow> field_decl" where
  "plainDecl n t =
     \<lparr>fdl_name = n, fdl_type = t, fdl_override = None, fdl_external = False,
      fdl_shareable = False\<rparr>"

definition overrideDecl :: "string \<Rightarrow> string \<Rightarrow> string \<Rightarrow> field_decl" where
  "overrideDecl n t from =
     \<lparr>fdl_name = n, fdl_type = t, fdl_override = Some from, fdl_external = False,
      fdl_shareable = False\<rparr>"

definition subgraphOf :: "string \<Rightarrow> type_decl list \<Rightarrow> subgraph" where
  "subgraphOf n tds = \<lparr>sub_name = n, sub_url = ''https://'' @ n, sub_typeDefs = tds\<rparr>"

definition queryT :: type_decl where
  "queryT = \<lparr>td_name = ''Query'', td_key = [], td_fields = [plainDecl ''t'' ''T'']\<rparr>"

text \<open>
  The test ``multiple override error'':
  \<^verbatim>\<open>
  Subgraph1: type Query { t: T }
             type T @key(fields: "k") { k: ID  a: Int @override(from: "Subgraph2") }
  Subgraph2: type T @key(fields: "k") { k: ID  a: Int @override(from: "Subgraph1") }
  \<close>
\<close>

definition twoWay_subgraphs :: "subgraph list" where
  "twoWay_subgraphs =
     [subgraphOf ''Subgraph1''
        [queryT,
         \<lparr>td_name = ''T'', td_key = [''k''],
          td_fields = [plainDecl ''k'' ''ID'', overrideDecl ''a'' ''Int'' ''Subgraph2'']\<rparr>],
      subgraphOf ''Subgraph2''
        [\<lparr>td_name = ''T'', td_key = [''k''],
          td_fields = [plainDecl ''k'' ''ID'', overrideDecl ''a'' ''Int'' ''Subgraph1'']\<rparr>]]"

text \<open>
  The test ``override @key field'':
  \<^verbatim>\<open>
  Subgraph1: type Query { t: T }
             type T @key(fields: "k") { k: ID @override(from: "Subgraph2")  a: Int }
  Subgraph2: type T @key(fields: "k") { k: ID  b: Int }
  \<close>
\<close>

definition keyOverride_subgraph1 :: subgraph where
  "keyOverride_subgraph1 =
     subgraphOf ''Subgraph1''
       [queryT,
        \<lparr>td_name = ''T'', td_key = [''k''],
         td_fields = [overrideDecl ''k'' ''ID'' ''Subgraph2'', plainDecl ''a'' ''Int'']\<rparr>]"

definition keyOverride_subgraph2 :: subgraph where
  "keyOverride_subgraph2 =
     subgraphOf ''Subgraph2''
       [\<lparr>td_name = ''T'', td_key = [''k''],
         td_fields = [plainDecl ''k'' ''ID'', plainDecl ''b'' ''Int'']\<rparr>]"

definition keyOverride_subgraphs :: "subgraph list" where
  "keyOverride_subgraphs = [keyOverride_subgraph1, keyOverride_subgraph2]"

text \<open>The same with a field \<open>c\<close> that both subgraphs resolve and neither shares.\<close>

definition keyOverride_conflict_subgraphs :: "subgraph list" where
  "keyOverride_conflict_subgraphs =
     [subgraphOf ''Subgraph1''
        [queryT,
         \<lparr>td_name = ''T'', td_key = [''k''],
          td_fields = [overrideDecl ''k'' ''ID'' ''Subgraph2'', plainDecl ''c'' ''Int'']\<rparr>],
      subgraphOf ''Subgraph2''
        [\<lparr>td_name = ''T'', td_key = [''k''],
          td_fields = [plainDecl ''k'' ''ID'', plainDecl ''c'' ''Int'']\<rparr>]]"

text \<open>
  Three variations of the test ``multiple override error''. In the first, \<open>T.a\<close> is
  \<open>@shareable\<close> in both subgraphs; in the second, both subgraphs also declare a field
  \<open>T.b: Int\<close>; in the third, \<open>T.a\<close> of \<open>Subgraph1\<close> is \<open>@external\<close> as well.
\<close>

definition twoWay_shareable_subgraphs :: "subgraph list" where
  "twoWay_shareable_subgraphs =
     [subgraphOf ''Subgraph1''
        [queryT,
         \<lparr>td_name = ''T'', td_key = [''k''],
          td_fields = [plainDecl ''k'' ''ID'',
                       (overrideDecl ''a'' ''Int'' ''Subgraph2'')\<lparr>fdl_shareable := True\<rparr>]\<rparr>],
      subgraphOf ''Subgraph2''
        [\<lparr>td_name = ''T'', td_key = [''k''],
          td_fields = [plainDecl ''k'' ''ID'',
                       (overrideDecl ''a'' ''Int'' ''Subgraph1'')\<lparr>fdl_shareable := True\<rparr>]\<rparr>]]"

definition twoWay_extra_subgraphs :: "subgraph list" where
  "twoWay_extra_subgraphs =
     [subgraphOf ''Subgraph1''
        [queryT,
         \<lparr>td_name = ''T'', td_key = [''k''],
          td_fields = [plainDecl ''k'' ''ID'', overrideDecl ''a'' ''Int'' ''Subgraph2'',
                       plainDecl ''b'' ''Int'']\<rparr>],
      subgraphOf ''Subgraph2''
        [\<lparr>td_name = ''T'', td_key = [''k''],
          td_fields = [plainDecl ''k'' ''ID'', overrideDecl ''a'' ''Int'' ''Subgraph1'',
                       plainDecl ''b'' ''Int'']\<rparr>]]"

definition twoWay_external_subgraphs :: "subgraph list" where
  "twoWay_external_subgraphs =
     [subgraphOf ''Subgraph1''
        [queryT,
         \<lparr>td_name = ''T'', td_key = [''k''],
          td_fields = [plainDecl ''k'' ''ID'',
                       (overrideDecl ''a'' ''Int'' ''Subgraph2'')\<lparr>fdl_external := True\<rparr>]\<rparr>],
      subgraphOf ''Subgraph2''
        [\<lparr>td_name = ''T'', td_key = [''k''],
          td_fields = [plainDecl ''k'' ''ID'', overrideDecl ''a'' ''Int'' ''Subgraph1'']\<rparr>]]"

section \<open>Properties of the scope algebra\<close>

lemma intersectEnclosing_mono:
  "set ts \<subseteq> set ts' \<Longrightarrow> set (intersectEnclosing ctx ts enc) \<subseteq> set (intersectEnclosing ctx ts' enc)"
proof (induction ctx ts enc arbitrary: ts' rule: intersectEnclosing.induct)
  case (1 ctx possibleTypes)
  then show ?case by simp
next
  case (2 ctx possibleTypes p d enc)
  have "set (filter (\<lambda>t. t \<in> set (getPossibleTypes ctx p)) possibleTypes)
        \<subseteq> set (filter (\<lambda>t. t \<in> set (getPossibleTypes ctx p)) ts')"
    using "2.prems" by auto
  from "2.IH" [OF this] show ?case by simp
qed

lemma intersectEnclosing_prune:
  "(\<forall>a b. isTypeSubTypeOf ctx a b
           \<longrightarrow> set (getPossibleTypes ctx a) \<subseteq> set (getPossibleTypes ctx b))
   \<Longrightarrow> set ts \<subseteq> set (getPossibleTypes ctx T)
   \<Longrightarrow> intersectEnclosing ctx ts (pruneRefinedTypes ctx enc T) = intersectEnclosing ctx ts enc"
proof (induction ctx enc T arbitrary: ts rule: pruneRefinedTypes.induct)
  case (1 ctx refiningType)
  then show ?case by simp
next
  case (2 ctx p d enc T)
  let ?f = "filter (\<lambda>t. t \<in> set (getPossibleTypes ctx p)) ts"
  show ?case
  proof (cases "d = None \<and> isTypeSubTypeOf ctx T p")
    case True
    then have "set (getPossibleTypes ctx T) \<subseteq> set (getPossibleTypes ctx p)"
      using "2.prems"(1) by blast
    then have "?f = ts"
      using "2.prems"(2) by (auto simp: filter_id_conv)
    moreover have "intersectEnclosing ctx ts (pruneRefinedTypes ctx enc T)
                   = intersectEnclosing ctx ts enc"
      using "2.IH"(1) [OF True "2.prems"] .
    ultimately show ?thesis using True by simp
  next
    case False
    have "set ?f \<subseteq> set (getPossibleTypes ctx T)"
      using "2.prems"(2) by auto
    from "2.IH"(2) [OF False "2.prems"(1) this] show ?thesis using False by auto
  qed
qed

text \<open>
  Claim C7. Refining a scope by a composite type, with or without fragment directives,
  never adds a possible runtime type: the runtime types of \<open>s.refine(T, dirs)\<close> are among
  those of \<open>s\<close>, also when \<open>refine\<close> prunes directive-less links of the chain. The
  schema functions of graphql-js are parameters; they are assumed to agree, as they do on
  a valid schema: a subtype has no possible type that its supertype lacks.
\<close>

theorem refine_narrows:
  assumes "\<And>a b. isTypeSubTypeOf ctx a b
             \<Longrightarrow> set (getPossibleTypes ctx a) \<subseteq> set (getPossibleTypes ctx b)"
  shows "set (possibleRuntimeTypes ctx (refine ctx s T dirs)) \<subseteq> set (possibleRuntimeTypes ctx s)"
proof -
  obtain p d enc where s: "s = Scope p d enc" by (cases s)
  have sub: "\<forall>a b. isTypeSubTypeOf ctx a b
              \<longrightarrow> set (getPossibleTypes ctx a) \<subseteq> set (getPossibleTypes ctx b)"
    using assms by blast
  have push: "set (intersectEnclosing ctx (getPossibleTypes ctx T) (Some s))
              \<subseteq> set (possibleRuntimeTypes ctx s)"
    unfolding s possibleRuntimeTypes_def
    by (simp, rule intersectEnclosing_mono, auto simp:)
  have pruned: "intersectEnclosing ctx (getPossibleTypes ctx T) (pruneRefinedTypes ctx (Some s) T)
                = intersectEnclosing ctx (getPossibleTypes ctx T) (Some s)"
    by (rule intersectEnclosing_prune [OF sub]) simp
  show ?thesis
    using push pruned
    by (auto simp: refine_def possibleRuntimeTypes_def Let_def split: option.splits list.splits)
qed

theorem refine_narrows_witness:
  "set (possibleRuntimeTypes example_context (refine example_context (Scope ''I'' None None) ''A'' None))
   \<subseteq> set (possibleRuntimeTypes example_context (Scope ''I'' None None))
   \<and> refine example_context (Scope ''I'' None None) ''A'' None = Scope ''A'' None None"
proof -
  have "\<And>a b. isTypeSubTypeOf example_context a b
          \<Longrightarrow> set (getPossibleTypes example_context a) \<subseteq> set (getPossibleTypes example_context b)"
    by (auto simp: example_context_def getPossibleTypes_def)
  from refine_narrows [OF this, of "Scope ''I'' None None" "''A''" None]
  show ?thesis by (simp add: refine_def example_context_def)
qed

lemma directiveStringsAgree_iff:
  "n \<le> length xs \<Longrightarrow> n \<le> length ys
   \<Longrightarrow> directiveStringsAgree xs ys i n \<longleftrightarrow> (\<forall>j. i \<le> j \<and> j < n \<longrightarrow> xs ! j = ys ! j)"
proof (induction xs ys i n rule: directiveStringsAgree.induct)
  case (1 d1Strings d2Strings i n)
  show ?case
  proof (cases "i < n")
    case True
    note lt = this
    show ?thesis
    proof (cases "d1Strings ! i = d2Strings ! i")
      case True
      have "directiveStringsAgree d1Strings d2Strings i n
            = directiveStringsAgree d1Strings d2Strings (Suc i) n"
        using lt True by (subst directiveStringsAgree.simps) simp
      also have "\<dots> = (\<forall>j. Suc i \<le> j \<and> j < n \<longrightarrow> d1Strings ! j = d2Strings ! j)"
        using "1.IH" [OF lt _ "1.prems"] True by simp
      also have "\<dots> = (\<forall>j. i \<le> j \<and> j < n \<longrightarrow> d1Strings ! j = d2Strings ! j)"
        using True by (metis Suc_leD Suc_leI le_neq_implies_less)
      finally show ?thesis .
    next
      case False
      then show ?thesis using lt by (subst directiveStringsAgree.simps) auto
    qed
  next
    case False
    then show ?thesis by (subst directiveStringsAgree.simps) auto
  qed
qed

lemma directiveStringsAgree_eq:
  "length xs = length ys \<Longrightarrow> directiveStringsAgree xs ys 0 (length xs) \<longleftrightarrow> xs = ys"
  by (simp add: directiveStringsAgree_iff list_eq_iff_nth_eq)

lemma sort_eq_iff_mset:
  fixes xs ys :: "'a::linorder list"
  shows "sort xs = sort ys \<longleftrightarrow> mset xs = mset ys"
proof
  assume "sort xs = sort ys"
  then have "mset (sort xs) = mset (sort ys)" by simp
  then show "mset xs = mset ys" by simp
next
  assume "mset xs = mset ys"
  then have "mset (sort ys) = mset xs" by simp
  then show "sort xs = sort ys"
    by (rule properties_for_sort) simp
qed

text \<open>
  Claim C9, as amended. Two directive lists compare equal exactly when the multisets of
  their printed forms agree: \<open>directivesEquals\<close> sorts the printed directives of both
  lists before it compares them position by position, so the order of the directives in
  the lists does not matter, and an element is compared through its printed string.
\<close>

theorem directivesEquals_iff_mset:
  "directivesEquals pr (Some d1) (Some d2) \<longleftrightarrow> mset (map pr d1) = mset (map pr d2)"
proof (cases "length d1 = length d2")
  case True
  then have "directivesEquals pr (Some d1) (Some d2)
             \<longleftrightarrow> sort (map pr d1) = sort (map pr d2)"
    using directiveStringsAgree_eq [of "sort (map pr d1)" "sort (map pr d2)"]
    by (simp add: directivesEquals_def)
  then show ?thesis by (simp add: sort_eq_iff_mset)
next
  case False
  then have "mset (map pr d1) \<noteq> mset (map pr d2)"
    by (metis length_map size_mset)
  then show ?thesis using False by (simp add: directivesEquals_def)
qed

text \<open>
  Claim C9 as stated fails: the lists \<open>[@a, @b]\<close> and \<open>[@b, @a]\<close> compare equal, though
  their first elements differ in name.
\<close>

theorem directivesEquals_order_counterexample:
  "directivesEquals printBareDirective (Some [bareDirective ''a'', bareDirective ''b''])
     (Some [bareDirective ''b'', bareDirective ''a''])
   \<and> \<not> directivesElementwiseEqual [bareDirective ''a'', bareDirective ''b'']
         [bareDirective ''b'', bareDirective ''a'']"
  by code_simp

text \<open>
  Claim C8 at a failing input. The two scopes are the root scope of \<open>A\<close> refined by \<open>A\<close>
  under the directives \<open>@a @b\<close> and \<open>@b @a\<close>. \<open>equals\<close> holds of them, since
  \<open>directivesEquals\<close> sorts the printed directives; \<open>hashCode\<close> folds the directive hashes in
  list order and returns two different numbers. The identity keys of the earlier Scope
  class, for the same parent type and directives, differ as well.
\<close>

theorem equal_scopes_hash_differs:
  "equals printBareDirective
     (refine example_context (create ''A'') ''A'' (Some [bareDirective ''a'', bareDirective ''b'']))
     (refine example_context (create ''A'') ''A'' (Some [bareDirective ''b'', bareDirective ''a'']))
   \<and> hashCode printBareDirective
       (refine example_context (create ''A'') ''A'' (Some [bareDirective ''a'', bareDirective ''b'']))
       = 1050722
   \<and> hashCode printBareDirective
       (refine example_context (create ''A'') ''A'' (Some [bareDirective ''b'', bareDirective ''a'']))
       = 1050752
   \<and> identityKey (flatScope ''A'' [''A''] (Some [bareDirective ''a'', bareDirective ''b'']))
       = Inr ''A-A-a--b-''
   \<and> identityKey (flatScope ''A'' [''A''] (Some [bareDirective ''b'', bareDirective ''a'']))
       = Inr ''A-A-b--a-''"
  by code_simp

section \<open>Properties of the planning context\<close>

text \<open>
  Claim C10. For a field whose named return type, with list and non-null wrappers
  removed, is not a composite type, \<open>getProvidedFields\<close> returns the empty field set for
  every service name, whatever keys or \<open>@provides\<close> selection the metadata holds (and
  with any fuel: no field is collected).
\<close>

theorem getProvidedFields_non_composite:
  "\<not> isCompositeType ctx (getNamedType (fd_type fieldDef))
   \<Longrightarrow> getProvidedFields fuel ctx fieldDef serviceName = Some (Inr [])"
  by (simp add: getProvidedFields_def)

theorem getProvidedFields_non_composite_witness:
  "\<not> isCompositeType example_context (getNamedType (ListOf (NonNull (NamedType ''String''))))
   \<and> getProvidedFields 0 example_context
       \<lparr>fd_name = ''names'', fd_type = ListOf (NonNull (NamedType ''String''))\<rparr> ''S1''
     = Some (Inr [])"
  using getProvidedFields_non_composite
    [of example_context "\<lparr>fd_name = ''names'', fd_type = ListOf (NonNull (NamedType ''String''))\<rparr>"
        0 "''S1''"]
  by (simp add: example_context_def)

section \<open>Properties of the precomputed predicates\<close>

lemma set_addAll: "set (addAll cs flds) = set cs \<union> set flds"
  unfolding addAll_def by (induction cs arbitrary: flds) auto

lemma set_fold_adds:
  assumes "\<And>x acc. set (f x acc) = set acc \<union> G x"
  shows "set (fold f xs acc) = set acc \<union> (\<Union>x\<in>set xs. G x)"
  using assms by (induction xs arbitrary: acc) auto

lemma set_addKeyFields:
  "set (addKeyFields ctf schema md t flds)
   = set flds \<union> (\<Union>key\<in>set (appliedDirectivesOf (keyDirective md) (st_appliedDirectives t)).
                    set (ctf schema (st_name t) key))"
  unfolding addKeyFields_def
  by (rule set_fold_adds) (auto simp: set_addAll)

lemma set_addProvided:
  "set (addProvided ctf schema md field flds)
   = set flds \<union> (\<Union>provides\<in>set (appliedDirectivesOf (providesDirective md) (sf_appliedDirectives field)).
                    {c \<in> set (ctf schema (getNamedType (sf_type field)) provides). isFieldExternal md c})"
  unfolding addProvided_def
  by (rule set_fold_adds) (auto simp: set_addAll)

lemma set_addObjectField:
  "set (addObjectField ctf schema md directive incl t directivesOnType field flds)
   = set flds
     \<union> (if fieldIsShareable directive directivesOnType field \<and> incl
        then {(st_name t, sf_name field)} else {})
     \<union> (\<Union>provides\<in>set (appliedDirectivesOf (providesDirective md) (sf_appliedDirectives field)).
          {c \<in> set (ctf schema (getNamedType (sf_type field)) provides). isFieldExternal md c})"
  unfolding addObjectField_def by (auto simp: set_addProvided)


lemma set_addObjectType:
  "set (addObjectType ctf schema md directive incl t flds)
   = set flds
     \<union> (\<Union>key\<in>set (appliedDirectivesOf (keyDirective md) (st_appliedDirectives t)).
          set (ctf schema (st_name t) key))
     \<union> (\<Union>field\<in>set (st_fields t).
          (if fieldIsShareable directive
                (case directive of None \<Rightarrow> []
                 | Some d \<Rightarrow> appliedDirectivesOf d (st_appliedDirectives t)) field \<and> incl
           then {(st_name t, sf_name field)} else {})
          \<union> (\<Union>provides\<in>set (appliedDirectivesOf (providesDirective md) (sf_appliedDirectives field)).
               {c \<in> set (ctf schema (getNamedType (sf_type field)) provides). isFieldExternal md c}))"
proof -
  let ?ds = "case directive of None \<Rightarrow> [] | Some d \<Rightarrow> appliedDirectivesOf d (st_appliedDirectives t)"
  have "set (fold (addObjectField ctf schema md directive incl t ?ds) (st_fields t)
              (addKeyFields ctf schema md t flds))
        = set (addKeyFields ctf schema md t flds)
          \<union> (\<Union>field\<in>set (st_fields t).
               (if fieldIsShareable directive ?ds field \<and> incl
                then {(st_name t, sf_name field)} else {})
               \<union> (\<Union>provides\<in>set (appliedDirectivesOf (providesDirective md) (sf_appliedDirectives field)).
                    {c \<in> set (ctf schema (getNamedType (sf_type field)) provides). isFieldExternal md c}))"
    by (rule set_fold_adds) (simp add: set_addObjectField Un_assoc)
  then show ?thesis
    by (simp add: addObjectType_def Let_def set_addKeyFields)
qed

text \<open>
  Claim C6, as amended. On a federation subgraph, the predicate computed by
  \<open>computeShareables\<close> holds of a field coordinate exactly in these cases:
  the field is a target of a \<open>@key\<close> of an object or interface type (the targets include
  the implementations of interface fields); or the schema is a federation 2 schema and
  the field belongs to an object type and carries \<open>@shareable\<close> itself, or its object type
  carries a \<open>@shareable\<close> application of the same extension as the field; or the field
  is external and a target of a \<open>@provides\<close> selection on a field of some object type,
  the selection starting at the base type of the field that carries \<open>@provides\<close>.
\<close>

theorem computeShareables_characterisation:
  assumes "sch_metadata schema = Some md"
  shows "\<exists>p. computeShareables ctf schema = Inr p \<and>
    (\<forall>c. p c \<longleftrightarrow>
       (\<exists>t\<in>set (sch_types schema).
           (st_kind t = ObjectType \<or> st_kind t = InterfaceType)
           \<and> (\<exists>key\<in>set (appliedDirectivesOf (keyDirective md) (st_appliedDirectives t)).
                  c \<in> set (ctf schema (st_name t) key)))
       \<or> (isFed2Schema md
           \<and> (\<exists>t\<in>set (sch_types schema).
                  st_kind t = ObjectType \<and> st_name t = fst c
                  \<and> (\<exists>f\<in>set (st_fields t).
                         sf_name f = snd c
                         \<and> (hasAppliedDirective (shareableDirective md) (sf_appliedDirectives f)
                              \<or> (\<exists>d\<in>set (appliedDirectivesOf (shareableDirective md)
                                              (st_appliedDirectives t)).
                                     sf_ofExtension f = ad_ofExtension d)))))
       \<or> (isFieldExternal md c
           \<and> (\<exists>t\<in>set (sch_types schema).
                  st_kind t = ObjectType
                  \<and> (\<exists>g\<in>set (st_fields t).
                         \<exists>provides\<in>set (appliedDirectivesOf (providesDirective md)
                                              (sf_appliedDirectives g)).
                           c \<in> set (ctf schema (getNamedType (sf_type g)) provides)))))"
proof -
  let ?dir = "directiveIfFed2 schema shareableDirective"
  let ?flds1 = "fold (addObjectType ctf schema md ?dir True) (typesOfKind schema ObjectType) []"
  let ?flds2 = "fold (addKeyFields ctf schema md) (typesOfKind schema InterfaceType) ?flds1"
  have run: "computeShareables ctf schema = Inr (\<lambda>field. field \<in> set ?flds2)"
    using assms by (simp add: computeShareables_def computeAllFieldsWithDirective_def)
  have s2: "set ?flds2 = set ?flds1
              \<union> (\<Union>t\<in>set (typesOfKind schema InterfaceType).
                   \<Union>key\<in>set (appliedDirectivesOf (keyDirective md) (st_appliedDirectives t)).
                     set (ctf schema (st_name t) key))"
    by (rule set_fold_adds) (simp add: set_addKeyFields)
  have s1: "set ?flds1 = set []
     \<union> (\<Union>t\<in>set (typesOfKind schema ObjectType).
     (\<Union>key\<in>set (appliedDirectivesOf (keyDirective md) (st_appliedDirectives t)).
          set (ctf schema (st_name t) key))
     \<union> (\<Union>field\<in>set (st_fields t).
          (if fieldIsShareable ?dir
                (case ?dir of None \<Rightarrow> []
                 | Some d \<Rightarrow> appliedDirectivesOf d (st_appliedDirectives t)) field \<and> True
           then {(st_name t, sf_name field)} else {})
          \<union> (\<Union>provides\<in>set (appliedDirectivesOf (providesDirective md) (sf_appliedDirectives field)).
               {c \<in> set (ctf schema (getNamedType (sf_type field)) provides). isFieldExternal md c})))"
    by (rule set_fold_adds) (simp add: set_addObjectType Un_assoc)
  have dir: "?dir = (if isFed2Schema md then Some (shareableDirective md) else None)"
    using assms by (simp add: directiveIfFed2_def)
  have shareable: "fieldIsShareable ?dir
          (case ?dir of None \<Rightarrow> [] | Some d \<Rightarrow> appliedDirectivesOf d (st_appliedDirectives t)) f
        \<longleftrightarrow> isFed2Schema md
            \<and> (hasAppliedDirective (shareableDirective md) (sf_appliedDirectives f)
                 \<or> (\<exists>d\<in>set (appliedDirectivesOf (shareableDirective md) (st_appliedDirectives t)).
                        sf_ofExtension f = ad_ofExtension d))" for t :: sg_type and f :: sg_field
    unfolding dir by (auto simp: fieldIsShareable_def list_ex_iff)
  have mem_if: "x \<in> (if b then {y} else {}) \<longleftrightarrow> b \<and> x = y" for x y :: coordinate and b
    by simp
  have mem: "c \<in> set ?flds2 \<longleftrightarrow>
       (\<exists>t\<in>set (sch_types schema).
           (st_kind t = ObjectType \<or> st_kind t = InterfaceType)
           \<and> (\<exists>key\<in>set (appliedDirectivesOf (keyDirective md) (st_appliedDirectives t)).
                  c \<in> set (ctf schema (st_name t) key)))
       \<or> (isFed2Schema md
           \<and> (\<exists>t\<in>set (sch_types schema).
                  st_kind t = ObjectType \<and> st_name t = fst c
                  \<and> (\<exists>f\<in>set (st_fields t).
                         sf_name f = snd c
                         \<and> (hasAppliedDirective (shareableDirective md) (sf_appliedDirectives f)
                              \<or> (\<exists>d\<in>set (appliedDirectivesOf (shareableDirective md)
                                              (st_appliedDirectives t)).
                                     sf_ofExtension f = ad_ofExtension d)))))
       \<or> (isFieldExternal md c
           \<and> (\<exists>t\<in>set (sch_types schema).
                  st_kind t = ObjectType
                  \<and> (\<exists>g\<in>set (st_fields t).
                         \<exists>provides\<in>set (appliedDirectivesOf (providesDirective md)
                                              (sf_appliedDirectives g)).
                           c \<in> set (ctf schema (getNamedType (sf_type g)) provides))))" for c
    unfolding s2 s1
    apply (simp only: Un_iff UN_iff mem_if shareable mem_Collect_eq typesOfKind_def set_filter
        empty_iff simp_thms list.set)
    apply (cases c)
    apply (simp only: fst_conv snd_conv prod.inject)
    apply blast
    done
  show ?thesis
    unfolding run using mem by blast
qed

theorem computeShareables_characterisation_witness:
  "sch_metadata example_subgraph = Some (fed2_metadata [(''T'', ''y'')])
   \<and> (\<exists>p. computeShareables flatTargetFields example_subgraph = Inr p
          \<and> p (''T'', ''id'') \<and> p (''T'', ''y'') \<and> p (''T'', ''z'') \<and> \<not> p (''T'', ''w''))"
proof -
  have md: "sch_metadata example_subgraph = Some (fed2_metadata [(''T'', ''y'')])"
    by (simp add: example_subgraph_def)
  from computeShareables_characterisation [OF md, of flatTargetFields]
  obtain p where run: "computeShareables flatTargetFields example_subgraph = Inr p"
    and p: "\<And>c. p c \<longleftrightarrow>
       (\<exists>t\<in>set (sch_types example_subgraph).
           (st_kind t = ObjectType \<or> st_kind t = InterfaceType)
           \<and> (\<exists>key\<in>set (appliedDirectivesOf (keyDirective (fed2_metadata [(''T'', ''y'')]))
                             (st_appliedDirectives t)).
                  c \<in> set (flatTargetFields example_subgraph (st_name t) key)))
       \<or> (isFed2Schema (fed2_metadata [(''T'', ''y'')])
           \<and> (\<exists>t\<in>set (sch_types example_subgraph).
                  st_kind t = ObjectType \<and> st_name t = fst c
                  \<and> (\<exists>f\<in>set (st_fields t).
                         sf_name f = snd c
                         \<and> (hasAppliedDirective (shareableDirective (fed2_metadata [(''T'', ''y'')]))
                                (sf_appliedDirectives f)
                              \<or> (\<exists>d\<in>set (appliedDirectivesOf
                                              (shareableDirective (fed2_metadata [(''T'', ''y'')]))
                                              (st_appliedDirectives t)).
                                     sf_ofExtension f = ad_ofExtension d)))))
       \<or> (isFieldExternal (fed2_metadata [(''T'', ''y'')]) c
           \<and> (\<exists>t\<in>set (sch_types example_subgraph).
                  st_kind t = ObjectType
                  \<and> (\<exists>g\<in>set (st_fields t).
                         \<exists>provides\<in>set (appliedDirectivesOf
                                               (providesDirective (fed2_metadata [(''T'', ''y'')]))
                                               (sf_appliedDirectives g)).
                           c \<in> set (flatTargetFields example_subgraph
                                       (getNamedType (sf_type g)) provides))))"
    by blast
  have "p (''T'', ''id'')" unfolding p by code_simp
  moreover have "p (''T'', ''y'')" unfolding p by code_simp
  moreover have "p (''T'', ''z'')" unfolding p by code_simp
  moreover have "\<not> p (''T'', ''w'')" unfolding p by code_simp
  ultimately show ?thesis using md run by blast
qed

text \<open>
  Claim C6 as stated fails on the subgraph above. The interface field \<open>I.x\<close> carries
  \<open>@shareable\<close>, case (a) of the claim, and the computed predicate is false of it: only
  the fields of object types are looked at. The external field \<open>T.y\<close> is provided by
  \<open>Query.t\<close>, a field of another type than its parent \<open>T\<close>, so none of the four cases of
  the claim holds of it, and the computed predicate is true of it.
\<close>

theorem computeShareables_spec_counterexample:
  "(case computeShareables flatTargetFields example_subgraph of
      Inl e \<Rightarrow> False
    | Inr p \<Rightarrow> \<not> p (''I'', ''x'') \<and> p (''T'', ''y''))
   \<and> shareable_spec flatTargetFields example_subgraph (fed2_metadata [(''T'', ''y'')]) (''I'', ''x'')
   \<and> \<not> shareable_spec flatTargetFields example_subgraph (fed2_metadata [(''T'', ''y'')])
         (''T'', ''y'')"
  by code_simp

section \<open>Properties of the schema object model\<close>

lemmas som_defs = emptySchema_def newSchema_def createSchema_def empty_heap_def
  addSchemaDefinition_def createType_def setBuiltIn_def builtInTypes_def
  createSchemaDefinition_def addScalarType_def addType_def ensureTypeNotFound_def
  typeByName_def bind_def addObjectType_som_def addField_object_def schemaOfSomType_def
  schemaOfType_def createFieldDefinition_def allSchemaElement_def allChildrenElements_def
  referencerSymmetry_def baseTypes_def toImmutable_def toMutable_def copy_def
  copyNamedTypeShallow_def createNamedType_def addTypeDefinition_def
  copySchemaDefinitionInner_def copyAppliedDirectives_def copyNamedTypeInner_def
  copyFieldDefinition_def addReferencerToType_def addReferencer_def set_add_def addField_def
  schemaOfField_def setType_def lookupType_def lookupField_def remove_scalarType_def
  removeTypeDefinition_def map_delete_def appliedDirectives_def removeAppliedDirectives.simps

text \<open>
  Claim C1 at a failing input. After \<open>a.addField('f', s)\<close> on a schema built through the
  mutable interface, the field \<open>A.f\<close> is an element of the schema and its type is the
  scalar \<open>S\<close>, but the referencer set of \<open>S\<close> does not hold the field: \<open>addField\<close> never
  registers the referencer, and referencer symmetry fails. The deep copy of the same
  schema registers it (\<open>copyFieldDefinition\<close> calls \<open>addReferencerToType\<close>), and referencer
  symmetry holds of the copy.
\<close>

theorem addField_breaks_referencer_symmetry:
  "(case example_schema of
      Inl e \<Rightarrow> False
    | Inr ((schema, s, s2, f), h) \<Rightarrow>
        fld_type (h_fields h f) = Some (Named s)
        \<and> FieldDefinitionRef f \<in> set (allSchemaElement h schema)
        \<and> FieldDefinitionRef f \<notin> set (nt_referencers (h_types h s))
        \<and> \<not> referencerSymmetry h schema)
   \<and> (case example_copied_schema of
        Inl e \<Rightarrow> False
      | Inr ((schema, s, s2, f), h) \<Rightarrow>
          FieldDefinitionRef f \<in> set (nt_referencers (h_types h s))
          \<and> referencerSymmetry h schema)"
  by (simp add: example_schema_def example_copied_schema_def som_defs split_def Let_def)

text \<open>
  \<open>setType\<close> in general: it fails on a detached field and on a type whose schema is not
  the schema of the field; when it succeeds, the field has the new type and no other
  object of the store has changed, the referencer sets included.
\<close>

lemma setType_detached:
  "schemaOfField h f = None \<Longrightarrow> \<exists>e. setType f t h = Inl e"
  by (simp add: setType_def)

lemma setType_other_schema:
  "schemaOfSomType h t = Inr s \<Longrightarrow> s \<noteq> schemaOfField h f \<Longrightarrow> \<exists>e. setType f t h = Inl e"
  by (simp add: setType_def bind_def)

lemma setType_success:
  "setType f t h = Inr (r, h')
   \<Longrightarrow> r = f \<and> fld_type (h_fields h' f) = Some t \<and> h_types h' = h_types h
       \<and> h' = h\<lparr>h_fields := (h_fields h)(f := (h_fields h f)\<lparr>fld_type := Some t\<rparr>)\<rparr>"
  by (auto simp: setType_def bind_def split: if_splits sum.splits)

text \<open>
  Claim C5 at a failing input. In the copy of the example schema the field \<open>A.f\<close> is a
  registered referencer of its type \<open>S\<close>. \<open>f.setType(s2)\<close> succeeds and the type of the
  field is \<open>S2\<close>, but the referencer set of the old type \<open>S\<close> still lists the field (and
  that of the new type does not).
\<close>

theorem setType_keeps_old_referencer:
  "(case example_copied_schema of
      Inl e \<Rightarrow> False
    | Inr ((schema, s, s2, f), h) \<Rightarrow>
        fld_type (h_fields h f) = Some (Named s)
        \<and> FieldDefinitionRef f \<in> set (nt_referencers (h_types h s))
        \<and> (case setType f (Named s2) h of
             Inl e \<Rightarrow> False
           | Inr (f', h') \<Rightarrow>
               fld_type (h_fields h' f) = Some (Named s2)
               \<and> FieldDefinitionRef f \<in> set (nt_referencers (h_types h' s))
               \<and> FieldDefinitionRef f \<notin> set (nt_referencers (h_types h' s2))))"
  by (simp add: example_schema_def example_copied_schema_def som_defs split_def Let_def)

section \<open>Properties of the composition with @override\<close>

lemma set_dedup [simp]: "set (dedup xs) = set xs"
  by (simp add: dedup_def)

lemma find_unique:
  "c \<in> set xs \<Longrightarrow> P c \<Longrightarrow> \<forall>x\<in>set xs. P x \<longrightarrow> x = c \<Longrightarrow> find P xs = Some c"
proof (induction xs)
  case Nil
  then show ?case by simp
next
  case (Cons a xs)
  show ?case
  proof (cases "P a")
    case True
    then have "a = c" using Cons.prems(3) by (meson list.set_intros(1))
    then show ?thesis using True by simp
  next
    case False
    then have "c \<in> set xs" using Cons.prems(1,2) by auto
    moreover have "\<forall>x\<in>set xs. P x \<longrightarrow> x = c" using Cons.prems(3) by (meson list.set_intros(2))
    ultimately have "find P xs = Some c" using Cons.IH Cons.prems(2) by blast
    then show ?thesis using False by simp
  qed
qed


lemma find_map_comp: "find P (map f xs) = map_option f (find (\<lambda>x. P (f x)) xs)"
  by (induction xs) auto

lemma declOf_coordinate:
  assumes "declOf sg c = Some fd"
  shows "c \<in> set (coordinatesOf sg)"
proof -
  from assms obtain td where td: "typeOf sg (fst c) = Some td"
    and fd: "find (\<lambda>fd. fdl_name fd = snd c) (td_fields td) = Some fd"
    by (auto simp: declOf_def split: option.splits)
  from td have "td \<in> set (sub_typeDefs sg)" "td_name td = fst c"
    by (auto simp: typeOf_def find_Some_iff)
  moreover from fd have "fd \<in> set (td_fields td)" "fdl_name fd = snd c"
    by (auto simp: find_Some_iff)
  ultimately have "(fst c, snd c) \<in> (\<Union>td\<in>set (sub_typeDefs sg).
                      (\<lambda>fd. (td_name td, fdl_name fd)) ` set (td_fields td))"
    by (intro UN_I [of td] image_eqI [of _ _ fd]) simp_all
  then show ?thesis by (simp add: coordinatesOf_def)
qed

lemma declOf_typeName:
  assumes "declOf sg c = Some fd" "sg \<in> set sgs"
  shows "fst c \<in> set (typeNames sgs)"
proof -
  from assms(1) obtain td where "typeOf sg (fst c) = Some td"
    by (auto simp: declOf_def split: option.splits)
  then have "td \<in> set (sub_typeDefs sg)" "td_name td = fst c"
    by (auto simp: typeOf_def find_Some_iff)
  then have "fst c \<in> (\<Union>sg\<in>set sgs. td_name ` set (sub_typeDefs sg))"
    using assms(2) by (intro UN_I [of sg] image_eqI [of _ _ td]) simp_all
  then show ?thesis by (simp add: typeNames_def)
qed

lemma no_override_errors_at:
  assumes "overrideErrors sgs = []" "sg \<in> set sgs" "declOf sg c = Some fd"
  shows "overrideErrorsAt sgs sg c = []"
proof -
  have "\<forall>xs\<in>set (map (\<lambda>sg. concat (map (overrideErrorsAt sgs sg) (coordinatesOf sg))) sgs).
          xs = []"
    using assms(1) by (simp only: overrideErrors_def concat_eq_Nil_conv)
  with assms(2) have "concat (map (overrideErrorsAt sgs sg) (coordinatesOf sg)) = []"
    by simp
  then have "\<forall>xs\<in>set (map (overrideErrorsAt sgs sg) (coordinatesOf sg)). xs = []"
    by (simp only: concat_eq_Nil_conv)
  with declOf_coordinate [OF assms(3)] show ?thesis by simp
qed

lemma valid_override_facts:
  assumes "overrideErrorsAt sgs sg c = []" "declOf sg c = Some fd" "fdl_override fd = Some from"
  shows "from \<noteq> sub_name sg" and "\<not> fdl_external fd"
    and "\<And>src g. src \<in> set sgs \<Longrightarrow> sub_name src = from \<Longrightarrow> declOf src c = Some g
           \<Longrightarrow> fdl_override g = None \<and> \<not> fdl_external g"
proof -
  show "from \<noteq> sub_name sg"
  proof
    assume "from = sub_name sg"
    then show False using assms by (simp add: overrideErrorsAt_def)
  qed
  show "\<not> fdl_external fd"
  proof
    assume "fdl_external fd"
    then show False using assms by (simp add: overrideErrorsAt_def)
  qed
  fix src g assume src: "src \<in> set sgs" "sub_name src = from" "declOf src c = Some g"
  have ne: "from \<noteq> sub_name sg" by fact
  have "concat (map (counterpartErrors sg from c) sgs) = []"
    using assms ne by (simp add: overrideErrorsAt_def)
  then have "\<forall>xs\<in>set (map (counterpartErrors sg from c) sgs). xs = []"
    by (simp only: concat_eq_Nil_conv)
  with src(1) have "counterpartErrors sg from c src = []"
    by simp
  with src(2,3) show "fdl_override g = None \<and> \<not> fdl_external g"
    by (simp add: counterpartErrors_def split: if_splits)
qed

text \<open>
  Claim C3, as amended. Whenever composition succeeds, a field \<open>T.a\<close> that a subgraph \<open>S\<close>
  declares with \<open>@override(from: S')\<close> and that is a component of the \<open>@key\<close> of \<open>T\<close> in \<open>S'\<close>
  is a field of the supergraph annotated with \<open>@join__field(graph: S)\<close> and with
  \<open>@join__field(graph: S', external: true)\<close>, and \<open>S'\<close> is not among the subgraphs that
  resolve it.
\<close>

theorem override_of_key_field:
  assumes ok: "compose sgs = Inr super"
    and sg: "sg \<in> set sgs" and decl: "declOf sg c = Some fd"
    and ov: "fdl_override fd = Some from"
    and src: "src \<in> set sgs" and name: "sub_name src = from"
    and srcdecl: "declOf src c = Some g" and key: "isKeyComponent src c"
  shows "\<exists>js. supergraphJoinFields super c = Some js
           \<and> (sub_name sg, False) \<in> set js \<and> (from, True) \<in> set js \<and> (from, False) \<notin> set js"
proof -
  from ok have noerr: "overrideErrors sgs = []" and super: "super = merge sgs"
    by (auto simp: compose_def Let_def split: if_splits)
  have at: "overrideErrorsAt sgs sg c = []"
    using no_override_errors_at [OF noerr sg decl] .
  note valid = valid_override_facts [OF at decl ov]
  have over_src: "isOverridden sgs src c"
    unfolding isOverridden_def list_ex_iff
    by (rule bexI [of _ sg]) (use decl ov at name sg in simp_all)
  have not_over_sg: "\<not> isOverridden sgs sg c"
  proof
    assume "isOverridden sgs sg c"
    then obtain sg' fd' where sg': "sg' \<in> set sgs" "declOf sg' c = Some fd'"
      "fdl_override fd' = Some (sub_name sg)" "overrideErrorsAt sgs sg' c = []"
      by (auto simp: isOverridden_def list_ex_iff split: option.splits)
    from valid_override_facts(3) [OF sg'(4) sg'(2) sg'(3) sg refl decl] ov
    show False by simp
  qed
  have c_sg: "contribution sgs sg c = Some (sub_name sg, False)"
    using decl not_over_sg valid(2) by (simp add: contribution_def)
  have c_src: "contribution sgs src c = Some (from, True)"
    using srcdecl over_src key name by (simp add: contribution_def)
  have in1: "(sub_name sg, False) \<in> set (joinFields sgs c)"
    using c_sg sg by (force simp: joinFields_def List.map_filter_def)
  have in2: "(from, True) \<in> set (joinFields sgs c)"
    using c_src src by (force simp: joinFields_def List.map_filter_def)
  have out: "(from, False) \<notin> set (joinFields sgs c)"
  proof
    assume "(from, False) \<in> set (joinFields sgs c)"
    then obtain s where s: "s \<in> set sgs" "contribution sgs s c = Some (from, False)"
      by (auto simp: joinFields_def List.map_filter_def)
    then have nm: "sub_name s = from"
      by (auto simp: contribution_def split: option.splits if_splits)
    have "sub_name s = sub_name src" using nm name by simp
    then have "isOverridden sgs s c"
      using over_src by (simp add: isOverridden_def cong: option.case_cong)
    with s(2) show False
      by (auto simp: contribution_def split: option.splits if_splits)
  qed
  have tn: "fst c \<in> set (typeNames sgs)"
    using declOf_typeName [OF decl sg] .
  have ftype: "find (\<lambda>t. sup_name t = fst c) (sup_types (merge sgs))
               = Some \<lparr>sup_name = fst c, sup_join_type = joinTypes sgs (fst c),
                       sup_fields = mergedFields sgs (fst c)\<rparr>"
  proof -
    have "find (\<lambda>T. T = fst c) (typeNames sgs) = Some (fst c)"
      by (rule find_unique) (use tn in blast)+
    then show ?thesis by (simp add: merge_def find_map_comp)
  qed
  have call: "c \<in> set (allCoordinates sgs)"
    using declOf_coordinate [OF decl] sg by (force simp: allCoordinates_def)
  have ffield: "find (\<lambda>f. sf_field f = snd c) (mergedFields sgs (fst c))
                = Some \<lparr>sf_field = snd c, sf_fieldType = mergedFieldType sgs c,
                        sf_join_field = joinFields sgs c\<rparr>"
  proof -
    have "find (\<lambda>c'. snd c' = snd c)
            (filter (\<lambda>c'. fst c' = fst c \<and> joinFields sgs c' \<noteq> []) (allCoordinates sgs))
          = Some c"
    proof (rule find_unique)
      show "c \<in> set (filter (\<lambda>c'. fst c' = fst c \<and> joinFields sgs c' \<noteq> [])
                        (allCoordinates sgs))"
        using call in1 by auto
      show "snd c = snd c" by simp
      show "\<forall>x\<in>set (filter (\<lambda>c'. fst c' = fst c \<and> joinFields sgs c' \<noteq> [])
                                (allCoordinates sgs)). snd x = snd c \<longrightarrow> x = c"
        by (simp add: prod_eq_iff)
    qed
    then show ?thesis by (simp add: mergedFields_def find_map_comp)
  qed
  have "supergraphJoinFields super c = Some (joinFields sgs c)"
    unfolding super supergraphJoinFields_def by (simp add: ftype ffield)
  then show ?thesis using in1 in2 out by blast
qed

theorem override_of_key_field_witness:
  "compose keyOverride_subgraphs = Inr (merge keyOverride_subgraphs)
   \<and> (\<exists>js. supergraphJoinFields (merge keyOverride_subgraphs) (''T'', ''k'') = Some js
          \<and> (''Subgraph1'', False) \<in> set js \<and> (''Subgraph2'', True) \<in> set js
          \<and> (''Subgraph2'', False) \<notin> set js)"
proof -
  have ok: "compose keyOverride_subgraphs = Inr (merge keyOverride_subgraphs)"
    by code_simp
  have d1: "declOf keyOverride_subgraph1 (''T'', ''k'') = Some (overrideDecl ''k'' ''ID'' ''Subgraph2'')"
    by code_simp
  have d2: "declOf keyOverride_subgraph2 (''T'', ''k'') = Some (plainDecl ''k'' ''ID'')"
    by code_simp
  have k2: "isKeyComponent keyOverride_subgraph2 (''T'', ''k'')"
    by code_simp
  have n1: "sub_name keyOverride_subgraph1 = ''Subgraph1''"
    and n2: "sub_name keyOverride_subgraph2 = ''Subgraph2''"
    by (simp_all add: keyOverride_subgraph1_def keyOverride_subgraph2_def subgraphOf_def)
  from override_of_key_field [OF ok, of keyOverride_subgraph1 "(''T'', ''k'')"
      "overrideDecl ''k'' ''ID'' ''Subgraph2''" "''Subgraph2''" keyOverride_subgraph2
      "plainDecl ''k'' ''ID''"]
  show ?thesis
    using ok d1 d2 k2 n1 n2 by (simp add: keyOverride_subgraphs_def overrideDecl_def)
qed

text \<open>
  Claim C3 as stated fails: in the following composition the key field \<open>T.k\<close> of
  \<open>Subgraph1\<close> carries an \<open>@override(from: "Subgraph2")\<close> to which no row of the override
  table applies, and composition does not succeed, because both subgraphs resolve the
  field \<open>T.c\<close> and neither declares it shareable.
\<close>

theorem key_override_composition_fails:
  "compose keyOverride_conflict_subgraphs =
     Inl [mkError INVALID_FIELD_SHARING (''T'', ''c'') [''Subgraph1'', ''Subgraph2'']]
   \<and> overrideErrors keyOverride_conflict_subgraphs = []
   \<and> declOf (hd keyOverride_conflict_subgraphs) (''T'', ''k'')
       = Some (overrideDecl ''k'' ''ID'' ''Subgraph2'')
   \<and> isKeyComponent (hd keyOverride_conflict_subgraphs) (''T'', ''k'')
   \<and> isKeyComponent (hd (tl keyOverride_conflict_subgraphs)) (''T'', ''k'')"
  by code_simp

subsection \<open>The errors at one coordinate\<close>

lemma distinct_dedup [simp]: "distinct (dedup xs)"
  by (simp add: dedup_def)

lemma filter_concat_at:
  assumes "\<And>x e. x \<in> set xs \<Longrightarrow> e \<in> set (f x) \<Longrightarrow> key e = x" and "distinct xs"
  shows "filter (\<lambda>e. key e = c) (concat (map f xs)) = (if c \<in> set xs then f c else [])"
  using assms
proof (induction xs)
  case Nil
  then show ?case by simp
next
  case (Cons a xs)
  have IH: "filter (\<lambda>e. key e = c) (concat (map f xs)) = (if c \<in> set xs then f c else [])"
    using Cons.IH Cons.prems by simp
  have keya: "\<And>e. e \<in> set (f a) \<Longrightarrow> key e = a" using Cons.prems(1) by simp
  show ?case
  proof (cases "a = c")
    case True
    then have "c \<notin> set xs" using Cons.prems(2) by auto
    moreover have "filter (\<lambda>e. key e = c) (f a) = f a"
      using keya True by (simp add: filter_id_conv)
    ultimately show ?thesis using IH True by simp
  next
    case False
    have "filter (\<lambda>e. key e = c) (f a) = []"
      using keya False by (auto simp: filter_empty_conv)
    then show ?thesis using IH False by auto
  qed
qed

lemma overrideErrorsAt_coordinate:
  "e \<in> set (overrideErrorsAt sgs sg c) \<Longrightarrow> err_coordinate e = c"
  by (auto simp: overrideErrorsAt_def counterpartErrors_def mkError_def
           split: option.splits if_splits)

lemma declOf_None:
  "c \<notin> set (coordinatesOf sg) \<Longrightarrow> declOf sg c = None"
  using declOf_coordinate [of sg c] by (cases "declOf sg c") auto

lemma overrideErrors_at:
  "filter (\<lambda>e. err_coordinate e = c) (overrideErrors sgs)
   = concat (map (\<lambda>sg. overrideErrorsAt sgs sg c) sgs)"
proof -
  have one: "filter (\<lambda>e. err_coordinate e = c)
               (concat (map (overrideErrorsAt sgs sg) (coordinatesOf sg)))
             = overrideErrorsAt sgs sg c" for sg
  proof -
    have "filter (\<lambda>e. err_coordinate e = c)
               (concat (map (overrideErrorsAt sgs sg) (coordinatesOf sg)))
          = (if c \<in> set (coordinatesOf sg) then overrideErrorsAt sgs sg c else [])"
      by (rule filter_concat_at) (simp_all add: overrideErrorsAt_coordinate coordinatesOf_def)
    moreover have "c \<notin> set (coordinatesOf sg) \<Longrightarrow> overrideErrorsAt sgs sg c = []"
      by (simp add: overrideErrorsAt_def declOf_None)
    ultimately show ?thesis by simp
  qed
  have "filter (\<lambda>e. err_coordinate e = c) (overrideErrors sgs)
        = concat (map (\<lambda>sg. filter (\<lambda>e. err_coordinate e = c)
                     (concat (map (overrideErrorsAt sgs sg) (coordinatesOf sg)))) sgs)"
    unfolding overrideErrors_def by (simp only: filter_concat map_map comp_def)
  then show ?thesis by (simp only: one)
qed

lemma sharingErrors_at:
  "filter (\<lambda>e. err_coordinate e = c) (sharingErrors sgs)
   = (if c \<in> set (allCoordinates sgs)
      then (if length (resolvers sgs c) \<ge> 2
               \<and> list_all (\<lambda>sg. \<not> isShareableIn sg c) (resolvers sgs c)
            then [mkError INVALID_FIELD_SHARING c (map sub_name (resolvers sgs c))]
            else [])
      else [])"
  unfolding sharingErrors_def
  by (rule filter_concat_at) (auto simp: mkError_def allCoordinates_def split: if_splits)

text \<open>
  Claim C4, as amended. Let \<open>Subgraph1\<close> declare \<open>T.a\<close> with \<open>@override(from: "Subgraph2")\<close> and
  \<open>Subgraph2\<close> declare \<open>T.a\<close> with \<open>@override(from: "Subgraph1")\<close>, neither declaration being
  \<open>@external\<close>. The composition of the two fails, and its errors about \<open>T.a\<close> are, in this
  order, one \<open>OVERRIDE_SOURCE_HAS_OVERRIDE\<close> for each side and, when \<open>T.a\<close> is shareable in neither
  subgraph, one \<open>INVALID_FIELD_SHARING\<close> for \<open>T.a\<close>. When \<open>T.a\<close> is shareable in neither subgraph
  and every error is about \<open>T.a\<close>, these three errors are the whole list. The list, with its
  order, is given as a function of the two subgraphs.
\<close>

theorem two_way_override:
  assumes names: "sub_name s1 \<noteq> sub_name s2"
    and d1: "declOf s1 c = Some f1" and o1: "fdl_override f1 = Some (sub_name s2)"
    and x1: "\<not> fdl_external f1"
    and d2: "declOf s2 c = Some f2" and o2: "fdl_override f2 = Some (sub_name s1)"
    and x2: "\<not> fdl_external f2"
  shows "\<exists>errors. compose [s1, s2] = Inl errors
           \<and> filter (\<lambda>e. err_coordinate e = c) errors
               = [mkError OVERRIDE_SOURCE_HAS_OVERRIDE c [sub_name s1, sub_name s2],
                  mkError OVERRIDE_SOURCE_HAS_OVERRIDE c [sub_name s2, sub_name s1]]
                 @ (if \<not> isShareableIn s1 c \<and> \<not> isShareableIn s2 c
                    then [mkError INVALID_FIELD_SHARING c [sub_name s1, sub_name s2]]
                    else [])
           \<and> ((\<forall>e\<in>set errors. err_coordinate e = c)
                 \<and> \<not> isShareableIn s1 c \<and> \<not> isShareableIn s2 c
               \<longrightarrow> errors
                   = [mkError OVERRIDE_SOURCE_HAS_OVERRIDE c [sub_name s1, sub_name s2],
                      mkError OVERRIDE_SOURCE_HAS_OVERRIDE c [sub_name s2, sub_name s1],
                      mkError INVALID_FIELD_SHARING c [sub_name s1, sub_name s2]])"
proof -
  let ?sgs = "[s1, s2]"
  let ?E1 = "mkError OVERRIDE_SOURCE_HAS_OVERRIDE c [sub_name s1, sub_name s2]"
  let ?E2 = "mkError OVERRIDE_SOURCE_HAS_OVERRIDE c [sub_name s2, sub_name s1]"
  let ?E3 = "mkError INVALID_FIELD_SHARING c [sub_name s1, sub_name s2]"
  let ?errors = "overrideErrors ?sgs @ sharingErrors ?sgs"
  have at1: "overrideErrorsAt ?sgs s1 c = [?E1]"
    using names d1 o1 x1 d2 o2 x2 by (simp add: overrideErrorsAt_def counterpartErrors_def)
  have at2: "overrideErrorsAt ?sgs s2 c = [?E2]"
    using names d1 o1 x1 d2 o2 x2 by (simp add: overrideErrorsAt_def counterpartErrors_def)
  have ov: "filter (\<lambda>e. err_coordinate e = c) (overrideErrors ?sgs) = [?E1, ?E2]"
    by (simp add: overrideErrors_at at1 at2)
  have no1: "\<not> isOverridden ?sgs s1 c"
    using names d1 o1 d2 o2 at2 by (simp add: isOverridden_def)
  have no2: "\<not> isOverridden ?sgs s2 c"
    using names d1 o1 d2 o2 at1 by (simp add: isOverridden_def)
  have c1: "contribution ?sgs s1 c = Some (sub_name s1, False)"
    using d1 x1 no1 by (simp add: contribution_def)
  have c2: "contribution ?sgs s2 c = Some (sub_name s2, False)"
    using d2 x2 no2 by (simp add: contribution_def)
  have res: "resolvers ?sgs c = [s1, s2]"
    by (simp add: resolvers_def c1 c2)
  have call: "c \<in> set (allCoordinates ?sgs)"
    using declOf_coordinate [OF d1] by (simp add: allCoordinates_def)
  have sh: "filter (\<lambda>e. err_coordinate e = c) (sharingErrors ?sgs)
            = (if \<not> isShareableIn s1 c \<and> \<not> isShareableIn s2 c then [?E3] else [])"
    by (simp add: sharingErrors_at call res)
  have at: "filter (\<lambda>e. err_coordinate e = c) ?errors
            = [?E1, ?E2] @ (if \<not> isShareableIn s1 c \<and> \<not> isShareableIn s2 c then [?E3] else [])"
    by (simp only: filter_append ov sh)
  have ne: "?errors \<noteq> []"
  proof
    assume "?errors = []"
    then have "filter (\<lambda>e. err_coordinate e = c) ?errors = []" by simp
    with at show False by simp
  qed
  have comp: "compose ?sgs = Inl ?errors"
    using ne by (simp add: compose_def Let_def)
  have whole: "?errors = [?E1, ?E2, ?E3]"
    if "\<forall>e\<in>set ?errors. err_coordinate e = c"
      and "\<not> isShareableIn s1 c" "\<not> isShareableIn s2 c"
  proof -
    have "filter (\<lambda>e. err_coordinate e = c) ?errors = ?errors"
      using that(1) by (simp only: filter_id_conv)
    with at that(2,3) show ?thesis by simp
  qed
  show ?thesis
    using comp at whole by blast
qed

text \<open>
  The subgraphs of the test ``multiple override error'' meet the conditions, and their
  composition fails with the three errors the test expects, in the order it expects.
\<close>

theorem two_way_override_witness:
  "sub_name (hd twoWay_subgraphs) \<noteq> sub_name (hd (tl twoWay_subgraphs))
   \<and> declOf (hd twoWay_subgraphs) (''T'', ''a'') = Some (overrideDecl ''a'' ''Int'' ''Subgraph2'')
   \<and> declOf (hd (tl twoWay_subgraphs)) (''T'', ''a'')
       = Some (overrideDecl ''a'' ''Int'' ''Subgraph1'')
   \<and> \<not> isShareableIn (hd twoWay_subgraphs) (''T'', ''a'')
   \<and> \<not> isShareableIn (hd (tl twoWay_subgraphs)) (''T'', ''a'')
   \<and> compose twoWay_subgraphs =
       Inl [mkError OVERRIDE_SOURCE_HAS_OVERRIDE (''T'', ''a'') [''Subgraph1'', ''Subgraph2''],
            mkError OVERRIDE_SOURCE_HAS_OVERRIDE (''T'', ''a'') [''Subgraph2'', ''Subgraph1''],
            mkError INVALID_FIELD_SHARING (''T'', ''a'') [''Subgraph1'', ''Subgraph2'']]"
proof -
  let ?s1 = "hd twoWay_subgraphs" and ?s2 = "hd (tl twoWay_subgraphs)"
  let ?c = "(''T'', ''a'')"
  have l: "twoWay_subgraphs = [?s1, ?s2]"
    by (simp add: twoWay_subgraphs_def)
  have n1: "sub_name ?s1 = ''Subgraph1''" and n2: "sub_name ?s2 = ''Subgraph2''"
    by (simp_all add: twoWay_subgraphs_def subgraphOf_def)
  have d1: "declOf ?s1 ?c = Some (overrideDecl ''a'' ''Int'' ''Subgraph2'')"
    by code_simp
  have d2: "declOf ?s2 ?c = Some (overrideDecl ''a'' ''Int'' ''Subgraph1'')"
    by code_simp
  have s1: "\<not> isShareableIn ?s1 ?c" by code_simp
  have s2: "\<not> isShareableIn ?s2 ?c" by code_simp
  have only: "\<forall>e\<in>set (overrideErrors twoWay_subgraphs @ sharingErrors twoWay_subgraphs).
                err_coordinate e = ?c"
    by code_simp
  from two_way_override [of ?s1 ?s2 ?c "overrideDecl ''a'' ''Int'' ''Subgraph2''"
      "overrideDecl ''a'' ''Int'' ''Subgraph1''"]
  obtain errors where e: "compose [?s1, ?s2] = Inl errors"
    and w: "(\<forall>e\<in>set errors. err_coordinate e = ?c)
             \<and> \<not> isShareableIn ?s1 ?c \<and> \<not> isShareableIn ?s2 ?c
            \<longrightarrow> errors
                = [mkError OVERRIDE_SOURCE_HAS_OVERRIDE ?c [sub_name ?s1, sub_name ?s2],
                   mkError OVERRIDE_SOURCE_HAS_OVERRIDE ?c [sub_name ?s2, sub_name ?s1],
                   mkError INVALID_FIELD_SHARING ?c [sub_name ?s1, sub_name ?s2]]"
    using d1 d2 n1 n2 by (auto simp: overrideDecl_def)
  from e l have "errors = overrideErrors twoWay_subgraphs @ sharingErrors twoWay_subgraphs"
    by (simp add: compose_def Let_def split: if_splits)
  with only have "\<forall>e\<in>set errors. err_coordinate e = ?c" by simp
  with w s1 s2 n1 n2 have "errors
      = [mkError OVERRIDE_SOURCE_HAS_OVERRIDE ?c [''Subgraph1'', ''Subgraph2''],
         mkError OVERRIDE_SOURCE_HAS_OVERRIDE ?c [''Subgraph2'', ''Subgraph1''],
         mkError INVALID_FIELD_SHARING ?c [''Subgraph1'', ''Subgraph2'']]"
    by simp
  with e l d1 d2 s1 s2 n1 n2 show ?thesis by simp
qed

text \<open>
  Claim C4 as stated fails: a two-way override of \<open>T.a\<close> does not always give three errors.
  With \<open>T.a\<close> \<open>@shareable\<close> in both subgraphs there is no \<open>INVALID_FIELD_SHARING\<close> and the errors
  are two; with a further field \<open>T.b\<close> that both subgraphs resolve and neither shares they are
  four; with \<open>T.a\<close> of \<open>Subgraph1\<close> \<open>@external\<close> as well they are four, none of them an
  \<open>INVALID_FIELD_SHARING\<close>.
\<close>

theorem two_way_override_error_count_varies:
  "compose twoWay_shareable_subgraphs =
     Inl [mkError OVERRIDE_SOURCE_HAS_OVERRIDE (''T'', ''a'') [''Subgraph1'', ''Subgraph2''],
          mkError OVERRIDE_SOURCE_HAS_OVERRIDE (''T'', ''a'') [''Subgraph2'', ''Subgraph1'']]
   \<and> compose twoWay_extra_subgraphs =
     Inl [mkError OVERRIDE_SOURCE_HAS_OVERRIDE (''T'', ''a'') [''Subgraph1'', ''Subgraph2''],
          mkError OVERRIDE_SOURCE_HAS_OVERRIDE (''T'', ''a'') [''Subgraph2'', ''Subgraph1''],
          mkError INVALID_FIELD_SHARING (''T'', ''a'') [''Subgraph1'', ''Subgraph2''],
          mkError INVALID_FIELD_SHARING (''T'', ''b'') [''Subgraph1'', ''Subgraph2'']]
   \<and> compose twoWay_external_subgraphs =
     Inl [mkError OVERRIDE_SOURCE_HAS_OVERRIDE (''T'', ''a'') [''Subgraph1'', ''Subgraph2''],
          mkError OVERRIDE_COLLISION_WITH_ANOTHER_DIRECTIVE (''T'', ''a'')
            [''Subgraph1'', ''Subgraph1''],
          mkError OVERRIDE_SOURCE_HAS_OVERRIDE (''T'', ''a'') [''Subgraph2'', ''Subgraph1''],
          mkError OVERRIDE_COLLISION_WITH_ANOTHER_DIRECTIVE (''T'', ''a'')
            [''Subgraph2'', ''Subgraph1'']]"
  by code_simp

section \<open>The copy between the immutable and the mutable world\<close>

text \<open>
  \<open>copy\<close> is followed through every loop on the store: each step allocates new objects
  and changes only the container it is filling, so what has been copied keeps its shape,
  and the shape of each copied object is the shape of its source.
\<close>


lemma bind_Inr [simp]: "bind (Inr x) f = f x"
  by (simp add: bind_def)

lemma bind_Inl [simp]: "bind (Inl e) f = Inl e"
  by (simp add: bind_def)

lemma map_set_fresh: "k \<notin> fst ` set m \<Longrightarrow> map_set k v m = m @ [(k, v)]"
  by (induction m) auto

lemma fold_map_set_distinct:
  "distinct (map fst (acc @ m)) \<Longrightarrow> fold (\<lambda>(name, v) args. map_set name v args) m acc = acc @ m"
proof (induction m arbitrary: acc)
  case Nil
  then show ?case by simp
next
  case (Cons kv m)
  obtain k v where kv: "kv = (k, v)" by (cases kv)
  from Cons.prems have fresh: "k \<notin> fst ` set acc" by (auto simp: kv)
  from Cons.prems have "distinct (map fst ((acc @ [(k, v)]) @ m))" by (simp add: kv)
  from Cons.IH[OF this] show ?case by (simp add: kv map_set_fresh[OF fresh])
qed

subsection \<open>unchangedOutside\<close>

lemma sameType_refl [simp]: "sameType a a"
  by (simp add: sameType_def)

lemma sameType_trans: "sameType a b \<Longrightarrow> sameType b c \<Longrightarrow> sameType a c"
  by (simp add: sameType_def)

lemma sameType_referencers [simp]: "sameType (a\<lparr>nt_referencers := x\<rparr>) b = sameType a b"
  by (simp add: sameType_def)

lemma unchangedOutside_refl [simp]: "unchangedOutside E h h"
  by (simp add: unchangedOutside_def)

lemma unchangedOutside_trans:
  assumes "unchangedOutside E h h1" "unchangedOutside E h1 h2"
  shows "unchangedOutside E h h2"
proof -
  have le: "h_next h \<le> h_next h1" "h_next h1 \<le> h_next h2"
    using assms by (simp_all add: unchangedOutside_def)
  { fix r assume r: "r < h_next h"
    then have r1: "r < h_next h1" using le by simp
    have "nt_kind (h_types h2 r) = nt_kind (h_types h r)
        \<and> nt_name (h_types h2 r) = nt_name (h_types h r)
        \<and> nt_parent (h_types h2 r) = nt_parent (h_types h r)"
      using assms r r1 by (simp add: unchangedOutside_def) }
  moreover
  { fix r assume r: "r < h_next h" "r \<notin> E"
    then have r1: "r < h_next h1" using le by simp
    have a: "h_schemas h1 r = h_schemas h r \<and> h_schemaDefs h1 r = h_schemaDefs h r
           \<and> sameType (h_types h1 r) (h_types h r) \<and> h_fields h1 r = h_fields h r
           \<and> h_inputFields h1 r = h_inputFields h r \<and> h_args h1 r = h_args h r
           \<and> h_directiveDefs h1 r = h_directiveDefs h r
           \<and> h_directives h1 r = h_directives h r"
      using assms(1) r by (simp add: unchangedOutside_def)
    have b: "h_schemas h2 r = h_schemas h1 r \<and> h_schemaDefs h2 r = h_schemaDefs h1 r
           \<and> sameType (h_types h2 r) (h_types h1 r) \<and> h_fields h2 r = h_fields h1 r
           \<and> h_inputFields h2 r = h_inputFields h1 r \<and> h_args h2 r = h_args h1 r
           \<and> h_directiveDefs h2 r = h_directiveDefs h1 r
           \<and> h_directives h2 r = h_directives h1 r"
      using assms(2) r1 r(2) by (simp add: unchangedOutside_def)
    from a b have "h_schemas h2 r = h_schemas h r \<and> h_schemaDefs h2 r = h_schemaDefs h r
           \<and> sameType (h_types h2 r) (h_types h r) \<and> h_fields h2 r = h_fields h r
           \<and> h_inputFields h2 r = h_inputFields h r \<and> h_args h2 r = h_args h r
           \<and> h_directiveDefs h2 r = h_directiveDefs h r
           \<and> h_directives h2 r = h_directives h r"
      using sameType_trans by auto }
  ultimately show ?thesis
    using le unfolding unchangedOutside_def by (intro conjI allI impI) (simp_all)
qed

lemma unchangedOutside_mono:
  "unchangedOutside E h h' \<Longrightarrow> E \<subseteq> E' \<Longrightarrow> unchangedOutside E' h h'"
  unfolding unchangedOutside_def by blast

lemma unchangedOutside_fresh:
  "unchangedOutside (E \<union> F) h h' \<Longrightarrow> \<forall>r\<in>F. h_next h \<le> r \<Longrightarrow> unchangedOutside E h h'"
  unfolding unchangedOutside_def by (meson UnE not_le)

lemma unchangedOutside_next: "unchangedOutside E h h' \<Longrightarrow> h_next h \<le> h_next h'"
  by (simp add: unchangedOutside_def)


lemma unchangedOutside_type:
  assumes "unchangedOutside E h h'" "r < h_next h"
  shows "nt_kind (h_types h' r) = nt_kind (h_types h r)"
    and "nt_name (h_types h' r) = nt_name (h_types h r)"
    and "nt_parent (h_types h' r) = nt_parent (h_types h r)"
  using assms by (simp_all add: unchangedOutside_def)

lemma unchangedOutside_at:
  assumes "unchangedOutside E h h'" "r < h_next h" "r \<notin> E"
  shows "h_schemas h' r = h_schemas h r" and "h_schemaDefs h' r = h_schemaDefs h r"
    and "sameType (h_types h' r) (h_types h r)" and "h_fields h' r = h_fields h r"
    and "h_inputFields h' r = h_inputFields h r" and "h_args h' r = h_args h r"
    and "h_directiveDefs h' r = h_directiveDefs h r" and "h_directives h' r = h_directives h r"
  using assms by (simp_all add: unchangedOutside_def)

lemma unchangedOutside_type_at:
  assumes "unchangedOutside E h h'" "r < h_next h" "r \<notin> E"
  shows "nt_appliedDirectives (h_types h' r) = nt_appliedDirectives (h_types h r)"
    and "nt_fieldsMap (h_types h' r) = nt_fieldsMap (h_types h r)"
    and "nt_typesList (h_types h' r) = nt_typesList (h_types h r)"
  using unchangedOutside_at(3)[OF assms] by (simp_all add: sameType_def)

subsection \<open>Shapes are stable\<close>

lemma typeBelow_mono: "typeBelow n t \<Longrightarrow> n \<le> m \<Longrightarrow> typeBelow m t"
  by (induction n t rule: typeBelow.induct) auto

lemma typeShape_stable:
  "unchangedOutside E h h' \<Longrightarrow> typeBelow (h_next h) t \<Longrightarrow> typeShape h' t = typeShape h t"
  by (induction h t rule: typeShape.induct) (auto simp: unchangedOutside_type)

lemma typeAllocated_stable:
  assumes "unchangedOutside E h h'" "typeAllocated h t"
  shows "typeAllocated h' t" and "map_option (typeShape h') t = map_option (typeShape h) t"
  using assms
  by (auto simp: typeAllocated_def typeShape_stable split: option.splits
           intro: typeBelow_mono unchangedOutside_next)

lemma directiveShape_stable:
  assumes "unchangedOutside (- I) h h'" "I \<subseteq> {..<h_next h}" "d \<in> I"
  shows "directiveShape h' d = directiveShape h d"
proof -
  have "d < h_next h" "d \<notin> - I" using assms by auto
  from unchangedOutside_at(8)[OF assms(1) this] show ?thesis by (simp add: directiveShape_def)
qed

lemma directivesShape_stable:
  assumes "unchangedOutside (- I) h h'" "I \<subseteq> {..<h_next h}" "set ds \<subseteq> I"
  shows "map (directiveShape h') ds = map (directiveShape h) ds"
  using assms by (auto simp: directiveShape_stable)

lemma argument_stable:
  assumes "unchangedOutside (- I) h h'" "I \<subseteq> {..<h_next h}" "argumentIn I h a"
  shows "argumentIn I h' a" and "argumentShape h' a = argumentShape h a"
proof -
  have a: "a < h_next h" "a \<notin> - I" using assms by (auto simp: argumentIn_def)
  have eq: "h_args h' a = h_args h a" by (rule unchangedOutside_at(6)[OF assms(1) a])
  have ds: "set (arg_appliedDirectives (h_args h a)) \<subseteq> I"
    and ty: "typeAllocated h (arg_type (h_args h a))"
    using assms(3) by (auto simp: argumentIn_def)
  show "argumentIn I h' a"
    using assms(3) typeAllocated_stable(1)[OF assms(1) ty] by (simp add: argumentIn_def eq)
  show "argumentShape h' a = argumentShape h a"
    by (simp add: argumentShape_def eq directivesShape_stable[OF assms(1,2) ds]
          typeAllocated_stable(2)[OF assms(1) ty])
qed

lemma arguments_stable:
  assumes "unchangedOutside (- I) h h'" "I \<subseteq> {..<h_next h}" "\<forall>kv\<in>set m. argumentIn I h (snd kv)"
  shows "\<forall>kv\<in>set m. argumentIn I h' (snd kv)"
    and "map (\<lambda>(k, a). (k, argumentShape h' a)) m = map (\<lambda>(k, a). (k, argumentShape h a)) m"
  using assms by (auto simp: argument_stable)

lemma field_stable:
  assumes "unchangedOutside (- I) h h'" "I \<subseteq> {..<h_next h}" "fieldIn I h f"
  shows "fieldIn I h' f" and "fieldShape h' f = fieldShape h f"
proof -
  have a: "f < h_next h" "f \<notin> - I" using assms by (auto simp: fieldIn_def)
  have eq: "h_fields h' f = h_fields h f" by (rule unchangedOutside_at(4)[OF assms(1) a])
  have ds: "set (fld_appliedDirectives (h_fields h f)) \<subseteq> I"
    and ty: "typeAllocated h (fld_type (h_fields h f))"
    and args: "\<forall>kv\<in>set (fld_args (h_fields h f)). argumentIn I h (snd kv)"
    using assms(3) by (auto simp: fieldIn_def)
  show "fieldIn I h' f"
    using assms(3) typeAllocated_stable(1)[OF assms(1) ty] arguments_stable(1)[OF assms(1,2) args]
    by (simp add: fieldIn_def eq)
  show "fieldShape h' f = fieldShape h f"
    by (simp add: fieldShape_def eq directivesShape_stable[OF assms(1,2) ds]
          typeAllocated_stable(2)[OF assms(1) ty] arguments_stable(2)[OF assms(1,2) args])
qed

lemma fields_stable:
  assumes "unchangedOutside (- I) h h'" "I \<subseteq> {..<h_next h}" "\<forall>kv\<in>set m. fieldIn I h (snd kv)"
  shows "\<forall>kv\<in>set m. fieldIn I h' (snd kv)"
    and "map (\<lambda>(k, a). (k, fieldShape h' a)) m = map (\<lambda>(k, a). (k, fieldShape h a)) m"
  using assms by (auto simp: field_stable)

lemma inputField_stable:
  assumes "unchangedOutside (- I) h h'" "I \<subseteq> {..<h_next h}" "inputFieldIn I h f"
  shows "inputFieldIn I h' f" and "inputFieldShape h' f = inputFieldShape h f"
proof -
  have a: "f < h_next h" "f \<notin> - I" using assms by (auto simp: inputFieldIn_def)
  have eq: "h_inputFields h' f = h_inputFields h f" by (rule unchangedOutside_at(5)[OF assms(1) a])
  have ds: "set (ifd_appliedDirectives (h_inputFields h f)) \<subseteq> I"
    and ty: "typeAllocated h (ifd_type (h_inputFields h f))"
    using assms(3) by (auto simp: inputFieldIn_def)
  show "inputFieldIn I h' f"
    using assms(3) typeAllocated_stable(1)[OF assms(1) ty] by (simp add: inputFieldIn_def eq)
  show "inputFieldShape h' f = inputFieldShape h f"
    by (simp add: inputFieldShape_def eq directivesShape_stable[OF assms(1,2) ds]
          typeAllocated_stable(2)[OF assms(1) ty])
qed

lemma inputFields_stable:
  assumes "unchangedOutside (- I) h h'" "I \<subseteq> {..<h_next h}"
    "\<forall>kv\<in>set m. inputFieldIn I h (snd kv)"
  shows "\<forall>kv\<in>set m. inputFieldIn I h' (snd kv)"
    and "map (\<lambda>(k, a). (k, inputFieldShape h' a)) m = map (\<lambda>(k, a). (k, inputFieldShape h a)) m"
  using assms by (auto simp: inputField_stable)

lemma names_stable:
  assumes "unchangedOutside E h h'" "\<forall>m\<in>set ms. m < h_next h"
  shows "\<forall>m\<in>set ms. m < h_next h'"
    and "map (\<lambda>m. nt_name (h_types h' m)) ms = map (\<lambda>m. nt_name (h_types h m)) ms"
  using assms unchangedOutside_next[OF assms(1)] by (auto simp: unchangedOutside_type)

lemma namedType_stable:
  assumes "unchangedOutside (- I) h h'" "I \<subseteq> {..<h_next h}" "namedTypeIn I h t"
  shows "namedTypeIn I h' t" and "namedTypeShape h' t = namedTypeShape h t"
proof -
  have a: "t < h_next h" "t \<notin> - I" using assms by (auto simp: namedTypeIn_def)
  note eq = unchangedOutside_type[OF assms(1) a(1)] unchangedOutside_type_at[OF assms(1) a]
  have ds: "set (nt_appliedDirectives (h_types h t)) \<subseteq> I"
    using assms(3) by (auto simp: namedTypeIn_def)
  show "namedTypeIn I h' t"
    using assms(3) fields_stable(1)[OF assms(1,2), of "nt_fieldsMap (h_types h t)"]
      inputFields_stable(1)[OF assms(1,2), of "nt_fieldsMap (h_types h t)"]
      names_stable(1)[OF assms(1), of "nt_typesList (h_types h t)"]
    by (simp add: namedTypeIn_def eq)
  show "namedTypeShape h' t = namedTypeShape h t"
    using assms(3) fields_stable(2)[OF assms(1,2), of "nt_fieldsMap (h_types h t)"]
      inputFields_stable(2)[OF assms(1,2), of "nt_fieldsMap (h_types h t)"]
      names_stable(2)[OF assms(1), of "nt_typesList (h_types h t)"]
    by (simp add: namedTypeShape_def namedTypeIn_def eq directivesShape_stable[OF assms(1,2) ds])
qed

lemma directiveDefinition_stable:
  assumes "unchangedOutside (- I) h h'" "I \<subseteq> {..<h_next h}" "directiveDefinitionIn I h d"
  shows "directiveDefinitionIn I h' d"
    and "directiveDefinitionShape h' d = directiveDefinitionShape h d"
proof -
  have a: "d < h_next h" "d \<notin> - I" using assms by (auto simp: directiveDefinitionIn_def)
  have eq: "h_directiveDefs h' d = h_directiveDefs h d"
    by (rule unchangedOutside_at(7)[OF assms(1) a])
  have args: "\<forall>kv\<in>set (dd_args (h_directiveDefs h d)). argumentIn I h (snd kv)"
    using assms(3) by (auto simp: directiveDefinitionIn_def)
  show "directiveDefinitionIn I h' d"
    using assms(3) arguments_stable(1)[OF assms(1,2) args]
    by (simp add: directiveDefinitionIn_def eq)
  show "directiveDefinitionShape h' d = directiveDefinitionShape h d"
    by (simp add: directiveDefinitionShape_def eq arguments_stable(2)[OF assms(1,2) args])
qed

lemma roots_stable:
  assumes "unchangedOutside E h h'" "\<forall>kv\<in>set m. snd kv < h_next h"
  shows "\<forall>kv\<in>set m. snd kv < h_next h'"
    and "map (\<lambda>(root, t). (root, nt_name (h_types h' t))) m
         = map (\<lambda>(root, t). (root, nt_name (h_types h t))) m"
  using assms unchangedOutside_next[OF assms(1)] by (auto simp: unchangedOutside_type)

lemma schemaDefinition_stable:
  assumes "unchangedOutside (- I) h h'" "I \<subseteq> {..<h_next h}" "schemaDefinitionIn I h d"
  shows "schemaDefinitionIn I h' d"
    and "schemaDefinitionShape h' d = schemaDefinitionShape h d"
proof -
  have a: "d < h_next h" "d \<notin> - I" using assms by (auto simp: schemaDefinitionIn_def)
  have eq: "h_schemaDefs h' d = h_schemaDefs h d"
    by (rule unchangedOutside_at(2)[OF assms(1) a])
  have ds: "set (sd_appliedDirectives (h_schemaDefs h d)) \<subseteq> I"
    and roots: "\<forall>kv\<in>set (sd_rootsMap (h_schemaDefs h d)). snd kv < h_next h"
    using assms(3) by (auto simp: schemaDefinitionIn_def)
  show "schemaDefinitionIn I h' d"
    using assms(3) roots_stable(1)[OF assms(1) roots] by (simp add: schemaDefinitionIn_def eq)
  show "schemaDefinitionShape h' d = schemaDefinitionShape h d"
    by (simp add: schemaDefinitionShape_def eq directivesShape_stable[OF assms(1,2) ds]
          roots_stable(2)[OF assms(1) roots])
qed

lemma schema_stable:
  assumes "unchangedOutside (- I) h h'" "I \<subseteq> {..<h_next h}" "schemaIn I h s"
  shows "schemaIn I h' s" and "schemaShape h' s = schemaShape h s"
proof -
  have a: "s < h_next h" "s \<notin> - I" using assms by (auto simp: schemaIn_def)
  have eq: "h_schemas h' s = h_schemas h s" by (rule unchangedOutside_at(1)[OF assms(1) a])
  have types: "\<forall>kv\<in>set (sc_typesMap (h_schemas h s)). namedTypeIn I h (snd kv)"
    and dds: "\<forall>kv\<in>set (sc_directivesMap (h_schemas h s)). directiveDefinitionIn I h (snd kv)"
    using assms(3) by (auto simp: schemaIn_def)
  have t1: "\<forall>kv\<in>set (sc_typesMap (h_schemas h s)). namedTypeIn I h' (snd kv)"
    and t2: "map (\<lambda>(k, t). (k, namedTypeShape h' t)) (sc_typesMap (h_schemas h s))
             = map (\<lambda>(k, t). (k, namedTypeShape h t)) (sc_typesMap (h_schemas h s))"
    using types by (auto simp: namedType_stable[OF assms(1,2)])
  have d1: "\<forall>kv\<in>set (sc_directivesMap (h_schemas h s)). directiveDefinitionIn I h' (snd kv)"
    and d2: "map (\<lambda>(k, t). (k, directiveDefinitionShape h' t)) (sc_directivesMap (h_schemas h s))
             = map (\<lambda>(k, t). (k, directiveDefinitionShape h t)) (sc_directivesMap (h_schemas h s))"
    using dds by (auto simp: directiveDefinition_stable[OF assms(1,2)])
  show "schemaIn I h' s"
    using assms(3) t1 d1 schemaDefinition_stable(1)[OF assms(1,2)]
    by (auto simp: schemaIn_def eq split: option.splits)
  show "schemaShape h' s = schemaShape h s"
    using assms(3) schemaDefinition_stable(2)[OF assms(1,2)]
    by (auto simp: schemaShape_def schemaIn_def eq t2 d2 split: option.splits)
qed


subsection \<open>Applied directives\<close>

lemma appliedDirectives_set [simp]:
  "appliedDirectives (setAppliedDirectives h e xs) e = xs"
  by (cases e) (simp_all add: appliedDirectives_def setAppliedDirectives_def)

lemma appliedDirectives_upd [simp]:
  "appliedDirectives (h\<lparr>h_directives := D, h_next := n\<rparr>) e = appliedDirectives h e"
  by (cases e) (simp_all add: appliedDirectives_def)

lemma setAppliedDirectives_upd:
  "setAppliedDirectives (h\<lparr>h_directives := D, h_next := n\<rparr>) e xs
   = (setAppliedDirectives h e xs)\<lparr>h_directives := D, h_next := n\<rparr>"
  by (cases e) (simp_all add: setAppliedDirectives_def)

lemma setAppliedDirectives_twice [simp]:
  "setAppliedDirectives (setAppliedDirectives h e xs) e ys = setAppliedDirectives h e ys"
  by (cases e) (simp_all add: setAppliedDirectives_def)

lemma setAppliedDirectives_sel [simp]:
  "h_directives (setAppliedDirectives h e xs) = h_directives h"
  "h_next (setAppliedDirectives h e xs) = h_next h"
  by (cases e; simp add: setAppliedDirectives_def)+

lemma copyAppliedDirectives_Cons:
  "copyAppliedDirectives (d # ds) e h
   = copyAppliedDirectives ds e
       ((setAppliedDirectives h e (appliedDirectives h e @ [h_next h]))
          \<lparr>h_directives := (h_directives h)(h_next h :=
              \<lparr>dir_name = dir_name (h_directives h d), dir_parent = Some e,
               dir_args = fold (\<lambda>(name, v) args. map_set name v args)
                            (dir_args (h_directives h d)) []\<rparr>),
           h_next := Suc (h_next h)\<rparr>)"
  by (simp add: copyAppliedDirectives_def copyDirective_def createDirective_def
        setAppliedDirectives_upd)

lemma copyAppliedDirectives_closed:
  assumes "set ds \<subseteq> {..<h_next h}"
    and "\<forall>d\<in>set ds. distinct (map fst (dir_args (h_directives h d)))"
  shows "\<exists>D. copyAppliedDirectives ds e h
             = (setAppliedDirectives h e
                  (appliedDirectives h e @ [h_next h..<h_next h + length ds]))
                 \<lparr>h_directives := D, h_next := h_next h + length ds\<rparr>
           \<and> (\<forall>r<h_next h. D r = h_directives h r)
           \<and> map D [h_next h..<h_next h + length ds]
             = map (\<lambda>d. copiedDirective e (h_directives h d)) ds"
  using assms
proof (induction ds arbitrary: h)
  case Nil
  have "copyAppliedDirectives [] e h = h" by (simp add: copyAppliedDirectives_def)
  moreover have "setAppliedDirectives h e (appliedDirectives h e) = h"
    by (cases e) (simp_all add: setAppliedDirectives_def appliedDirectives_def)
  ultimately show ?case by (intro exI[of _ "h_directives h"]) simp
next
  case (Cons d ds)
  let ?n = "h_next h"
  let ?new = "\<lparr>dir_name = dir_name (h_directives h d), dir_parent = Some e,
               dir_args = fold (\<lambda>(name, v) args. map_set name v args)
                            (dir_args (h_directives h d)) []\<rparr>"
  let ?h1 = "(setAppliedDirectives h e (appliedDirectives h e @ [?n]))
               \<lparr>h_directives := (h_directives h)(?n := ?new), h_next := Suc ?n\<rparr>"
  have d: "d < ?n" "distinct (map fst (dir_args (h_directives h d)))"
    using Cons.prems by auto
  have new: "?new = copiedDirective e (h_directives h d)"
    using fold_map_set_distinct[of "[]" "dir_args (h_directives h d)"] d(2)
    by (simp add: copiedDirective_def)
  have same: "\<forall>x\<in>set ds. h_directives ?h1 x = h_directives h x"
    using Cons.prems by auto
  have p1: "set ds \<subseteq> {..<h_next ?h1}" using Cons.prems by auto
  have p2: "\<forall>d\<in>set ds. distinct (map fst (dir_args (h_directives ?h1 d)))"
    using Cons.prems same by auto
  from Cons.IH[OF p1 p2] obtain D where
    D: "copyAppliedDirectives ds e ?h1
        = (setAppliedDirectives ?h1 e
             (appliedDirectives ?h1 e @ [h_next ?h1..<h_next ?h1 + length ds]))
            \<lparr>h_directives := D, h_next := h_next ?h1 + length ds\<rparr>"
    and low: "\<forall>r<h_next ?h1. D r = h_directives ?h1 r"
    and new_ds: "map D [h_next ?h1..<h_next ?h1 + length ds]
                 = map (\<lambda>d. copiedDirective e (h_directives ?h1 d)) ds"
    by blast
  have upt: "[?n..<?n + length (d # ds)] = ?n # [Suc ?n..<Suc ?n + length ds]"
  proof -
    have "?n < ?n + length (d # ds)" by simp
    from upt_conv_Cons[OF this] show ?thesis by (simp del: upt_Suc)
  qed
  have eq: "copyAppliedDirectives (d # ds) e h
            = (setAppliedDirectives h e (appliedDirectives h e @ [?n..<?n + length (d # ds)]))
                \<lparr>h_directives := D, h_next := ?n + length (d # ds)\<rparr>"
    unfolding copyAppliedDirectives_Cons D upt
    by (simp add: setAppliedDirectives_upd)
  have low': "\<forall>r<?n. D r = h_directives h r" using low by simp
  have Dn: "D ?n = copiedDirective e (h_directives h d)" using low new by simp
  have "map D [Suc ?n..<Suc ?n + length ds] = map (\<lambda>d. copiedDirective e (h_directives h d)) ds"
    using new_ds same by (simp cong: map_cong)
  then have "map D [?n..<?n + length (d # ds)]
             = map (\<lambda>d. copiedDirective e (h_directives h d)) (d # ds)"
    unfolding upt using Dn by simp
  with eq low' show ?case by blast
qed


lemma shapeOfDirective_copied [simp]: "shapeOfDirective (copiedDirective e d) = shapeOfDirective d"
  by (simp add: shapeOfDirective_def copiedDirective_def)

lemma directiveShape_alt: "directiveShape h d = shapeOfDirective (h_directives h d)"
  by (simp add: directiveShape_def shapeOfDirective_def)

lemma directivesOk_iff:
  "directivesOk (map (directiveShape h) ds)
   \<longleftrightarrow> (\<forall>d\<in>set ds. distinct (map fst (dir_args (h_directives h d))))"
  by (simp add: directivesOk_def directiveShape_def)

lemma copyAppliedDirectives_spec:
  assumes "set ds \<subseteq> {..<h_next h}" and "directivesOk (map (directiveShape h) ds)"
  obtains D where
    "copyAppliedDirectives ds e h
     = (setAppliedDirectives h e (appliedDirectives h e @ [h_next h..<h_next h + length ds]))
         \<lparr>h_directives := D, h_next := h_next h + length ds\<rparr>"
    and "\<And>r. r < h_next h \<Longrightarrow> D r = h_directives h r"
    and "map (\<lambda>r. shapeOfDirective (D r)) [h_next h..<h_next h + length ds]
         = map (directiveShape h) ds"
proof -
  from copyAppliedDirectives_closed[OF assms(1) assms(2)[unfolded directivesOk_iff], of e]
  obtain D where
    1: "copyAppliedDirectives ds e h
        = (setAppliedDirectives h e (appliedDirectives h e @ [h_next h..<h_next h + length ds]))
            \<lparr>h_directives := D, h_next := h_next h + length ds\<rparr>"
    and 2: "\<forall>r<h_next h. D r = h_directives h r"
    and 3: "map D [h_next h..<h_next h + length ds]
            = map (\<lambda>d. copiedDirective e (h_directives h d)) ds"
    by blast
  from arg_cong[OF 3, of "map shapeOfDirective"]
  have "map (\<lambda>r. shapeOfDirective (D r)) [h_next h..<h_next h + length ds]
        = map (directiveShape h) ds"
    by (simp add: o_def directiveShape_alt)
  with 1 2 that show thesis by blast
qed

subsection \<open>Type references\<close>

lemma typeShape_cong:
  "(\<And>x. nt_name (h_types h' x) = nt_name (h_types h x)) \<Longrightarrow> typeShape h' t = typeShape h t"
  by (induction h t rule: typeShape.induct) auto

lemma typeByName_cong:
  "h_schemas h' doc = h_schemas h doc \<Longrightarrow> typeByName h' doc n = typeByName h doc n"
  by (simp add: typeByName_def split: option.splits)

lemma resolvesIn_stable:
  assumes "unchangedOutside E h h'" "doc \<notin> E" "resolvesIn N h doc"
  shows "resolvesIn N h' doc"
proof -
  have doc: "doc < h_next h" using assms(3) by (simp add: resolvesIn_def)
  have eq: "h_schemas h' doc = h_schemas h doc"
    by (rule unchangedOutside_at(1)[OF assms(1) doc assms(2)])
  have le: "h_next h \<le> h_next h'" by (rule unchangedOutside_next[OF assms(1)])
  { fix n assume "n \<in> N"
    with assms(3) obtain t where t: "typeByName h doc n = Some t" "t < h_next h"
      "nt_name (h_types h t) = n"
      by (auto simp: resolvesIn_def)
    have "typeByName h' doc n = Some t \<and> t < h_next h' \<and> nt_name (h_types h' t) = n"
      using t le typeByName_cong[OF eq] unchangedOutside_type(2)[OF assms(1) t(2)] by simp
    then have "\<exists>t. typeByName h' doc n = Some t \<and> t < h_next h' \<and> nt_name (h_types h' t) = n"
      by blast }
  then show ?thesis using doc le by (auto simp: resolvesIn_def)
qed

lemma copyType_ok:
  assumes "resolvesIn N h doc" "typeShapeResolves N (typeShape h ty)"
  shows "\<exists>ty' r. copyWrapperTypeOrTypeRef h (Some ty) (Some doc) w = Inr (Some ty')
               \<and> typeShape h ty' = typeShape h ty \<and> typeBelow (h_next h) ty'
               \<and> baseType ty' = Inr r"
  using assms
proof (induction h ty rule: typeShape.induct)
  case (1 h r)
  then obtain t where "typeByName h doc (nt_name (h_types h r)) = Some t" "t < h_next h"
    "nt_name (h_types h t) = nt_name (h_types h r)"
    by (auto simp: resolvesIn_def)
  then show ?case by simp
next
  case (2 h)
  then show ?case by simp
next
  case (3 h t)
  then show ?case by auto
qed


subsection \<open>Arguments\<close>

lemma addReferencer_sel [simp]:
  "h_schemas (addReferencer r x h) = h_schemas h"
  "h_schemaDefs (addReferencer r x h) = h_schemaDefs h"
  "h_fields (addReferencer r x h) = h_fields h"
  "h_inputFields (addReferencer r x h) = h_inputFields h"
  "h_args (addReferencer r x h) = h_args h"
  "h_directiveDefs (addReferencer r x h) = h_directiveDefs h"
  "h_directives (addReferencer r x h) = h_directives h"
  "h_next (addReferencer r x h) = h_next h"
  "nt_kind (h_types (addReferencer r x h) t) = nt_kind (h_types h t)"
  "nt_name (h_types (addReferencer r x h) t) = nt_name (h_types h t)"
  "nt_parent (h_types (addReferencer r x h) t) = nt_parent (h_types h t)"
  "nt_appliedDirectives (h_types (addReferencer r x h) t) = nt_appliedDirectives (h_types h t)"
  "nt_fieldsMap (h_types (addReferencer r x h) t) = nt_fieldsMap (h_types h t)"
  "nt_typesList (h_types (addReferencer r x h) t) = nt_typesList (h_types h t)"
  by (simp_all add: addReferencer_def)

lemma addReferencer_unchanged: "unchangedOutside {} h (addReferencer r x h)"
  by (simp add: unchangedOutside_def sameType_def)

lemma typeShape_addReferencer [simp]: "typeShape (addReferencer r x h) t = typeShape h t"
  by (rule typeShape_cong) simp

lemma typeShape_addReferencer_fun [simp]: "typeShape (addReferencer r x h) = typeShape h"
  by (rule ext) simp

lemma shape_addReferencer [simp]:
  "directiveShape (addReferencer r x h) = directiveShape h"
  "argumentShape (addReferencer r x h) = argumentShape h"
  "fieldShape (addReferencer r x h) = fieldShape h"
  "inputFieldShape (addReferencer r x h) = inputFieldShape h"
proof -
  show d: "directiveShape (addReferencer r x h) = directiveShape h"
    by (rule ext) (simp add: directiveShape_def)
  show a: "argumentShape (addReferencer r x h) = argumentShape h"
    by (rule ext) (simp add: argumentShape_def d)
  show "fieldShape (addReferencer r x h) = fieldShape h"
    by (rule ext) (simp add: fieldShape_def d a)
  show "inputFieldShape (addReferencer r x h) = inputFieldShape h"
    by (rule ext) (simp add: inputFieldShape_def d)
qed

lemma in_addReferencer [simp]:
  "typeAllocated (addReferencer r x h) = typeAllocated h"
  "argumentIn J (addReferencer r x h) = argumentIn J h"
  "fieldIn J (addReferencer r x h) = fieldIn J h"
  "inputFieldIn J (addReferencer r x h) = inputFieldIn J h"
proof -
  show t: "typeAllocated (addReferencer r x h) = typeAllocated h"
    by (rule ext) (simp add: typeAllocated_def split: option.splits)
  show a: "argumentIn J (addReferencer r x h) = argumentIn J h" for J
    by (rule ext) (simp add: argumentIn_def t)
  show "fieldIn J (addReferencer r x h) = fieldIn J h"
    by (rule ext) (simp add: fieldIn_def t a)
  show "inputFieldIn J (addReferencer r x h) = inputFieldIn J h"
    by (rule ext) (simp add: inputFieldIn_def t)
qed

lemma directiveShape_cong:
  "h_directives h' = h_directives h \<Longrightarrow> directiveShape h' = directiveShape h"
  by (rule ext) (simp add: directiveShape_def)

lemma copyArgument_generic:
  fixes P :: elem_ref
  assumes res: "resolvesIn N h doc"
    and src: "argumentIn I h source" "I \<subseteq> {..<h_next h}"
    and ok: "typeResolves N (ash_type (argumentShape h source))"
            "directivesOk (ash_directives (argumentShape h source))"
  shows "\<exists>h'. bind (copyWrapperTypeOrTypeRef h (arg_type (h_args h source)) (Some doc) w)
           (\<lambda>type.
              (let (copied, h1) = createArgumentDefinition (arg_name (h_args h source)) (Some P)
                                    type (arg_defaultValue (h_args h source)) h;
                   h2 = copyAppliedDirectives (arg_appliedDirectives (h_args h1 source))
                          (ArgumentDefinitionRef copied) h1
               in bind (addReferencerToType (ArgumentDefinitionRef copied) type h2)
                    (\<lambda>h3. Inr (copied, h3))))
           = Inr (h_next h, h')
         \<and> unchangedOutside {} h h' \<and> h_next h < h_next h'
         \<and> argumentShape h' (h_next h) = argumentShape h source
         \<and> argumentIn {h_next h..<h_next h'} h' (h_next h)"
proof -
  let ?n = "h_next h"
  let ?ds = "arg_appliedDirectives (h_args h source)"
  let ?k = "length ?ds"
  have s: "source < ?n" "set ?ds \<subseteq> {..<?n}" using src by (auto simp: argumentIn_def)
  from ok(1) obtain ty where ty: "arg_type (h_args h source) = Some ty"
    "typeShapeResolves N (typeShape h ty)"
    by (auto simp: typeResolves_def argumentShape_def split: option.splits)
  from copyType_ok[OF res ty(2), of w] obtain ty' r where
    c: "copyWrapperTypeOrTypeRef h (Some ty) (Some doc) w = Inr (Some ty')"
       "typeShape h ty' = typeShape h ty" "typeBelow ?n ty'" "baseType ty' = Inr r"
    by blast
  define A where "A = \<lparr>arg_name = arg_name (h_args h source), arg_parent = Some P,
    arg_type = Some ty', arg_defaultValue = arg_defaultValue (h_args h source),
    arg_appliedDirectives = []\<rparr>"
  define h1 where "h1 = h\<lparr>h_args := (h_args h)(?n := A), h_next := Suc ?n\<rparr>"
  have create: "createArgumentDefinition (arg_name (h_args h source)) (Some P) (Some ty')
                  (arg_defaultValue (h_args h source)) h = (?n, h1)"
    by (simp add: createArgumentDefinition_def h1_def A_def)
  have src1: "h_args h1 source = h_args h source" using s(1) by (simp add: h1_def)
  have d1: "set ?ds \<subseteq> {..<h_next h1}" using s(2) by (auto simp: h1_def)
  have ds1: "directiveShape h1 = directiveShape h"
    by (rule directiveShape_cong) (simp add: h1_def)
  have d2: "directivesOk (map (directiveShape h1) ?ds)"
    using ok(2) by (simp add: argumentShape_def ds1)
  from copyAppliedDirectives_spec[OF d1 d2, of "ArgumentDefinitionRef ?n"] obtain D where
    D1: "copyAppliedDirectives ?ds (ArgumentDefinitionRef ?n) h1
         = (setAppliedDirectives h1 (ArgumentDefinitionRef ?n)
              (appliedDirectives h1 (ArgumentDefinitionRef ?n) @ [h_next h1..<h_next h1 + ?k]))
             \<lparr>h_directives := D, h_next := h_next h1 + ?k\<rparr>"
    and D2: "\<And>r. r < h_next h1 \<Longrightarrow> D r = h_directives h1 r"
    and D3: "map (\<lambda>r. shapeOfDirective (D r)) [h_next h1..<h_next h1 + ?k]
             = map (directiveShape h1) ?ds"
    by blast
  define h2 where "h2 = copyAppliedDirectives ?ds (ArgumentDefinitionRef ?n) h1"
  have h2: "h2 = h\<lparr>h_args := (h_args h)(?n := A\<lparr>arg_appliedDirectives := [Suc ?n..<Suc ?n + ?k]\<rparr>),
                   h_directives := D, h_next := Suc ?n + ?k\<rparr>"
    unfolding h2_def D1
    by (simp add: setAppliedDirectives_def appliedDirectives_def h1_def A_def)
  define h3 where "h3 = addReferencer r (ArgumentDefinitionRef ?n) h2"
  have run: "bind (copyWrapperTypeOrTypeRef h (arg_type (h_args h source)) (Some doc) w)
           (\<lambda>type.
              (let (copied, h1) = createArgumentDefinition (arg_name (h_args h source)) (Some P)
                                    type (arg_defaultValue (h_args h source)) h;
                   h2 = copyAppliedDirectives (arg_appliedDirectives (h_args h1 source))
                          (ArgumentDefinitionRef copied) h1
               in bind (addReferencerToType (ArgumentDefinitionRef copied) type h2)
                    (\<lambda>h3. Inr (copied, h3))))
           = Inr (?n, h3)"
    by (simp add: ty(1) c(1,4) create src1 addReferencerToType_def h2_def h3_def)
  have D2': "\<And>r. r < ?n \<Longrightarrow> D r = h_directives h r"
    using D2 by (simp add: h1_def)
  have uo: "unchangedOutside {} h h3"
    unfolding h3_def
    by (rule unchangedOutside_trans[OF _ addReferencer_unchanged])
       (simp add: unchangedOutside_def h2 D2')
  have next3: "h_next h3 = Suc ?n + ?k" by (simp add: h3_def h2)
  have dirs: "map (directiveShape h3) [Suc ?n..<Suc ?n + ?k] = map (directiveShape h) ?ds"
  proof -
    have "map (directiveShape h3) [Suc ?n..<Suc ?n + ?k]
          = map (\<lambda>r. shapeOfDirective (D r)) [h_next h1..<h_next h1 + ?k]"
      by (simp add: directiveShape_alt h3_def h2 h1_def)
    also have "\<dots> = map (directiveShape h1) ?ds" by (rule D3)
    also have "\<dots> = map (directiveShape h) ?ds" by (simp add: ds1)
    finally show ?thesis .
  qed
  have tyshape: "typeShape h3 ty' = typeShape h ty"
    unfolding c(2)[symmetric] by (rule typeShape_cong) (simp add: h3_def h2)
  have shape: "argumentShape h3 ?n = argumentShape h source"
    using dirs tyshape by (simp add: argumentShape_def h3_def h2 A_def ty(1))
  have "typeBelow (h_next h3) ty'" by (rule typeBelow_mono[OF c(3)]) (simp add: next3)
  then have "argumentIn {?n..<h_next h3} h3 ?n"
    by (auto simp: argumentIn_def typeAllocated_def h3_def h2 A_def)
  with run uo shape next3 show ?thesis by auto
qed


subsection \<open>A loop that copies the entries of a map into a container\<close>

lemma copy_attach_loop:
  fixes c b :: nat and I :: "nat set"
    and copyOne :: "nat \<Rightarrow> heap \<Rightarrow> som_error + nat \<times> heap"
    and attach :: "nat \<Rightarrow> heap \<Rightarrow> heap"
    and entries :: "heap \<Rightarrow> (string \<times> nat) list"
    and shape :: "heap \<Rightarrow> nat \<Rightarrow> 's"
    and inI :: "nat set \<Rightarrow> heap \<Rightarrow> nat \<Rightarrow> bool"
    and name :: "'s \<Rightarrow> string"
    and ok :: "'s \<Rightarrow> bool"
    and Inv :: "heap \<Rightarrow> bool"
    and Rest :: "heap \<Rightarrow> heap \<Rightarrow> bool"
  assumes stable: "\<And>J h h' x. unchangedOutside (- J) h h' \<Longrightarrow> J \<subseteq> {..<h_next h} \<Longrightarrow> inI J h x
                     \<Longrightarrow> inI J h' x \<and> shape h' x = shape h x"
    and mono: "\<And>J K h x. inI J h x \<Longrightarrow> J \<subseteq> K \<Longrightarrow> inI K h x"
    and step: "\<And>h x. Inv h \<Longrightarrow> inI I h x \<Longrightarrow> I \<subseteq> {..<h_next h} \<Longrightarrow> ok (shape h x)
                 \<Longrightarrow> \<exists>h'. copyOne x h = Inr (h_next h, h') \<and> unchangedOutside {} h h'
                          \<and> h_next h < h_next h' \<and> shape h' (h_next h) = shape h x
                          \<and> inI {h_next h..<h_next h'} h' (h_next h)"
    and attach: "\<And>h x. Inv h \<Longrightarrow> x < h_next h
                 \<Longrightarrow> unchangedOutside {c} h (attach x h) \<and> h_next (attach x h) = h_next h
                     \<and> entries (attach x h) = map_set (name (shape h x)) x (entries h)
                     \<and> Inv (attach x h) \<and> Rest h (attach x h)"
    and inv: "\<And>h h'. Inv h \<Longrightarrow> unchangedOutside {} h h'
                 \<Longrightarrow> Inv h' \<and> entries h' = entries h \<and> Rest h h'"
    and rest_trans: "\<And>h1 h2 h3. Rest h1 h2 \<Longrightarrow> Rest h2 h3 \<Longrightarrow> Rest h1 h3"
    and below: "\<And>h. Inv h \<Longrightarrow> c < h_next h"
    and cI: "c \<notin> I" and cb: "c < b"
  shows "Inv h \<Longrightarrow> I \<subseteq> {..<h_next h} \<Longrightarrow> \<forall>kv\<in>set m. inI I h (snd kv)
         \<Longrightarrow> \<forall>kv\<in>set (entries h). inI {b..<h_next h} h (snd kv) \<Longrightarrow> b \<le> h_next h
         \<Longrightarrow> distinct (map fst (entries h) @ map fst m)
         \<Longrightarrow> \<forall>kv\<in>set m. name (shape h (snd kv)) = fst kv \<and> ok (shape h (snd kv))
         \<Longrightarrow> \<exists>h'. foldM (\<lambda>x hh. bind (copyOne x hh) (\<lambda>(y, hh1). Inr (attach y hh1)))
                     (map snd m) h = Inr h'
                  \<and> unchangedOutside {c} h h' \<and> Inv h' \<and> Rest h h'
                  \<and> map (\<lambda>(k, x). (k, shape h' x)) (entries h')
                    = map (\<lambda>(k, x). (k, shape h x)) (entries h @ m)
                  \<and> (\<forall>kv\<in>set (entries h'). inI {b..<h_next h'} h' (snd kv))"
proof (induction m arbitrary: h)
  case Nil
  have "Rest h h" using inv[OF Nil(1) unchangedOutside_refl] by simp
  with Nil show ?case by simp
next
  case (Cons kx m)
  obtain k x where kx: "kx = (k, x)" by (cases kx)
  let ?n = "h_next h"
  have x: "inI I h x" "name (shape h x) = k" "ok (shape h x)"
    using Cons.prems by (auto simp: kx)
  from step[OF Cons.prems(1) x(1) Cons.prems(2) x(3)] obtain h1 where
    h1: "copyOne x h = Inr (?n, h1)" "unchangedOutside {} h h1" "?n < h_next h1"
        "shape h1 ?n = shape h x" "inI {?n..<h_next h1} h1 ?n"
    by blast
  from inv[OF Cons.prems(1) h1(2)] have i1: "Inv h1" "entries h1 = entries h" "Rest h h1"
    by simp_all
  define h2 where "h2 = attach ?n h1"
  from attach[OF i1(1) h1(3)] have
    h2: "unchangedOutside {c} h1 h2" "h_next h2 = h_next h1"
        "entries h2 = map_set (name (shape h1 ?n)) ?n (entries h1)" "Inv h2" "Rest h1 h2"
    by (simp_all add: h2_def)
  have fresh: "k \<notin> fst ` set (entries h)" using Cons.prems(6) by (auto simp: kx)
  have e2: "entries h2 = entries h @ [(k, ?n)]"
    by (simp add: h2(3) h1(4) x(2) i1(2) map_set_fresh[OF fresh])
  have c: "c < ?n" by (rule below[OF Cons.prems(1)])
  have uo: "unchangedOutside {c} h h2"
    by (rule unchangedOutside_trans[OF unchangedOutside_mono[OF h1(2)] h2(1)]) simp
  have le: "?n \<le> h_next h2" using h1(3) h2(2) by simp
  have uoI: "unchangedOutside (- I) h h2"
    by (rule unchangedOutside_mono[OF uo]) (use cI in auto)
  let ?J = "{b..<?n}"
  have uoJ: "unchangedOutside (- ?J) h h2"
    by (rule unchangedOutside_mono[OF uo]) (use cb in auto)
  let ?K = "{?n..<h_next h1}"
  have uoK: "unchangedOutside (- ?K) h1 h2"
    by (rule unchangedOutside_mono[OF h2(1)]) (use c in auto)
  have p2: "I \<subseteq> {..<h_next h2}" using Cons.prems(2) le by auto
  have p3: "\<forall>kv\<in>set m. inI I h2 (snd kv)"
    using Cons.prems(3) stable[OF uoI Cons.prems(2)] by simp
  have srcshape: "\<forall>kv\<in>set m. shape h2 (snd kv) = shape h (snd kv)"
    using Cons.prems(3) stable[OF uoI Cons.prems(2)] by simp
  have old: "\<forall>kv\<in>set (entries h). inI ?J h2 (snd kv) \<and> shape h2 (snd kv) = shape h (snd kv)"
  proof -
    have "?J \<subseteq> {..<?n}" by auto
    from stable[OF uoJ this] Cons.prems(4) show ?thesis by blast
  qed
  have new: "inI ?K h2 ?n \<and> shape h2 ?n = shape h1 ?n"
  proof -
    have "?K \<subseteq> {..<h_next h1}" by auto
    from stable[OF uoK this h1(5)] show ?thesis .
  qed
  have bn: "b \<le> ?n" by (rule Cons.prems(5))
  have p4: "\<forall>kv\<in>set (entries h2). inI {b..<h_next h2} h2 (snd kv)"
  proof
    fix kv assume "kv \<in> set (entries h2)"
    then consider "kv \<in> set (entries h)" | "kv = (k, ?n)" by (auto simp: e2)
    then show "inI {b..<h_next h2} h2 (snd kv)"
    proof cases
      case 1
      with old have "inI ?J h2 (snd kv)" by blast
      then show ?thesis by (rule mono) (use le in auto)
    next
      case 2
      from new have "inI ?K h2 ?n" by blast
      then have "inI {b..<h_next h2} h2 ?n" by (rule mono) (use bn h2(2) in auto)
      with 2 show ?thesis by simp
    qed
  qed
  have p5: "distinct (map fst (entries h2) @ map fst m)"
    using Cons.prems(6) by (simp add: e2 kx)
  have p6: "\<forall>kv\<in>set m. name (shape h2 (snd kv)) = fst kv \<and> ok (shape h2 (snd kv))"
    using Cons.prems(7) srcshape by simp
  have p4b: "b \<le> h_next h2" using bn le by simp
  from Cons.IH[OF h2(4) p2 p3 p4 p4b p5 p6] obtain h' where
    h': "foldM (\<lambda>x hh. bind (copyOne x hh) (\<lambda>(y, hh1). Inr (attach y hh1))) (map snd m) h2
         = Inr h'"
      "unchangedOutside {c} h2 h'" "Inv h'" "Rest h2 h'"
      "map (\<lambda>(k, x). (k, shape h' x)) (entries h')
       = map (\<lambda>(k, x). (k, shape h2 x)) (entries h2 @ m)"
      "\<forall>kv\<in>set (entries h'). inI {b..<h_next h'} h' (snd kv)"
    by blast
  have run: "foldM (\<lambda>x hh. bind (copyOne x hh) (\<lambda>(y, hh1). Inr (attach y hh1)))
               (map snd (kx # m)) h = Inr h'"
    by (simp add: kx h1(1) h2_def[symmetric] h'(1))
  have shapes: "map (\<lambda>(k, x). (k, shape h2 x)) (entries h2 @ m)
                = map (\<lambda>(k, x). (k, shape h x)) (entries h @ kx # m)"
    using old srcshape new h1(4) by (auto simp: e2 kx)
  have "unchangedOutside {c} h h'" by (rule unchangedOutside_trans[OF uo h'(2)])
  moreover have "Rest h h'" by (rule rest_trans[OF rest_trans[OF i1(3) h2(5)] h'(4)])
  ultimately show ?case using run h'(3,5,6) shapes by simp
qed


subsection \<open>Field definitions\<close>

lemma argumentIn_mono: "argumentIn J h x \<Longrightarrow> J \<subseteq> K \<Longrightarrow> argumentIn K h x"
  by (auto simp: argumentIn_def)

lemma fieldIn_mono: "fieldIn J h x \<Longrightarrow> J \<subseteq> K \<Longrightarrow> fieldIn K h x"
  by (auto simp: fieldIn_def intro: argumentIn_mono)

lemma inputFieldIn_mono: "inputFieldIn J h x \<Longrightarrow> J \<subseteq> K \<Longrightarrow> inputFieldIn K h x"
  by (auto simp: inputFieldIn_def)

lemma copyFieldArgumentDefinition_ok:
  assumes "schemaOfField h f = Some doc" "resolvesIn N h doc"
    "argumentIn I h source" "I \<subseteq> {..<h_next h}"
    "typeResolves N (ash_type (argumentShape h source))"
    "directivesOk (ash_directives (argumentShape h source))"
  shows "\<exists>h'. copyFieldArgumentDefinition w source f h = Inr (h_next h, h')
         \<and> unchangedOutside {} h h' \<and> h_next h < h_next h'
         \<and> argumentShape h' (h_next h) = argumentShape h source
         \<and> argumentIn {h_next h..<h_next h'} h' (h_next h)"
  unfolding copyFieldArgumentDefinition_def assms(1)
  by (rule copyArgument_generic[OF assms(2-6)])

lemma addFieldArg_unchanged: "unchangedOutside {f} h (addFieldArg a f h)"
  by (simp add: unchangedOutside_def addFieldArg_def)

lemma addFieldArg_sel [simp]:
  "h_next (addFieldArg a f h) = h_next h"
  "h_schemas (addFieldArg a f h) = h_schemas h"
  "h_types (addFieldArg a f h) = h_types h"
  "fld_args (h_fields (addFieldArg a f h) f)
   = map_set (arg_name (h_args h a)) a (fld_args (h_fields h f))"
  "fld_name (h_fields (addFieldArg a f h) g) = fld_name (h_fields h g)"
  "fld_parent (h_fields (addFieldArg a f h) g) = fld_parent (h_fields h g)"
  "fld_type (h_fields (addFieldArg a f h) g) = fld_type (h_fields h g)"
  "fld_appliedDirectives (h_fields (addFieldArg a f h) g) = fld_appliedDirectives (h_fields h g)"
  by (simp_all add: addFieldArg_def)

lemma resolvesIn_cong:
  assumes "resolvesIn N h doc" "h_schemas h' = h_schemas h" "h_types h' = h_types h"
    "h_next h' = h_next h"
  shows "resolvesIn N h' doc"
  using assms typeByName_cong[of h' doc h] by (simp add: resolvesIn_def)

lemma copyFieldDefinition_ok:
  assumes res: "resolvesIn N h doc"
    and par: "t' < h_next h" "nt_parent (h_types h t') = Some doc"
    and src: "fieldIn I h source" "I \<subseteq> {..<h_next h}"
    and ok: "typeResolves N (fsh_type (fieldShape h source))"
            "directivesOk (fsh_directives (fieldShape h source))"
            "argumentsOk N (fsh_args (fieldShape h source))"
  shows "\<exists>h'. copyFieldDefinition w source t' h = Inr (h_next h, h')
         \<and> unchangedOutside {} h h' \<and> h_next h < h_next h'
         \<and> fieldShape h' (h_next h) = fieldShape h source
         \<and> fieldIn {h_next h..<h_next h'} h' (h_next h)"
proof -
  let ?n = "h_next h"
  let ?ds = "fld_appliedDirectives (h_fields h source)"
  let ?k = "length ?ds"
  let ?m = "fld_args (h_fields h source)"
  have s: "source < ?n" "set ?ds \<subseteq> {..<?n}" "\<forall>kv\<in>set ?m. argumentIn I h (snd kv)"
    using src by (auto simp: fieldIn_def)
  from ok(1) obtain ty where ty: "fld_type (h_fields h source) = Some ty"
    "typeShapeResolves N (typeShape h ty)"
    by (auto simp: typeResolves_def fieldShape_def split: option.splits)
  from copyType_ok[OF res ty(2), of w] obtain ty' r where
    c: "copyWrapperTypeOrTypeRef h (Some ty) (Some doc) w = Inr (Some ty')"
       "typeShape h ty' = typeShape h ty" "typeBelow ?n ty'" "baseType ty' = Inr r"
    by blast
  define F where "F = \<lparr>fld_name = fld_name (h_fields h source), fld_parent = Some t',
    fld_type = Some ty', fld_args = [], fld_appliedDirectives = []\<rparr>"
  define h1 where "h1 = h\<lparr>h_fields := (h_fields h)(?n := F), h_next := Suc ?n\<rparr>"
  have create: "createFieldDefinition (fld_name (h_fields h source)) (Some t') (Some ty') h
                = (?n, h1)"
    by (simp add: createFieldDefinition_def h1_def F_def)
  have src1: "h_fields h1 source = h_fields h source" using s(1) by (simp add: h1_def)
  have d1: "set ?ds \<subseteq> {..<h_next h1}" using s(2) by (auto simp: h1_def)
  have ds1: "directiveShape h1 = directiveShape h"
    by (rule directiveShape_cong) (simp add: h1_def)
  have d2: "directivesOk (map (directiveShape h1) ?ds)"
    using ok(2) by (simp add: fieldShape_def ds1)
  from copyAppliedDirectives_spec[OF d1 d2, of "FieldDefinitionRef ?n"] obtain D where
    D1: "copyAppliedDirectives ?ds (FieldDefinitionRef ?n) h1
         = (setAppliedDirectives h1 (FieldDefinitionRef ?n)
              (appliedDirectives h1 (FieldDefinitionRef ?n) @ [h_next h1..<h_next h1 + ?k]))
             \<lparr>h_directives := D, h_next := h_next h1 + ?k\<rparr>"
    and D2: "\<And>r. r < h_next h1 \<Longrightarrow> D r = h_directives h1 r"
    and D3: "map (\<lambda>r. shapeOfDirective (D r)) [h_next h1..<h_next h1 + ?k]
             = map (directiveShape h1) ?ds"
    by blast
  define h2 where "h2 = copyAppliedDirectives ?ds (FieldDefinitionRef ?n) h1"
  have h2: "h2 = h\<lparr>h_fields := (h_fields h)(?n := F\<lparr>fld_appliedDirectives := [Suc ?n..<Suc ?n + ?k]\<rparr>),
                   h_directives := D, h_next := Suc ?n + ?k\<rparr>"
    unfolding h2_def D1
    by (simp add: setAppliedDirectives_def appliedDirectives_def h1_def F_def)
  have D2': "\<And>r. r < ?n \<Longrightarrow> D r = h_directives h r"
    using D2 by (simp add: h1_def)
  have uo2: "unchangedOutside {} h h2"
    by (simp add: unchangedOutside_def h2 D2')
  have next2: "h_next h2 = Suc ?n + ?k" by (simp add: h2)
  have src2: "h_fields h2 source = h_fields h source" using s(1) by (simp add: h2)
  have dirs2: "map (directiveShape h2) [Suc ?n..<Suc ?n + ?k] = map (directiveShape h) ?ds"
  proof -
    have "map (directiveShape h2) [Suc ?n..<Suc ?n + ?k]
          = map (\<lambda>r. shapeOfDirective (D r)) [h_next h1..<h_next h1 + ?k]"
      by (simp add: directiveShape_alt h2 h1_def)
    also have "\<dots> = map (directiveShape h1) ?ds" by (rule D3)
    also have "\<dots> = map (directiveShape h) ?ds" by (simp add: ds1)
    finally show ?thesis .
  qed
  text \<open>the loop over the arguments\<close>
  define Inv :: "heap \<Rightarrow> bool" where "Inv = (\<lambda>hh. resolvesIn N hh doc \<and> ?n < h_next hh
    \<and> fld_parent (h_fields hh ?n) = Some t' \<and> nt_parent (h_types hh t') = Some doc)"
  define Rest :: "heap \<Rightarrow> heap \<Rightarrow> bool" where "Rest = (\<lambda>a b. fld_name (h_fields b ?n) = fld_name (h_fields a ?n)
    \<and> fld_type (h_fields b ?n) = fld_type (h_fields a ?n)
    \<and> fld_appliedDirectives (h_fields b ?n) = fld_appliedDirectives (h_fields a ?n))"
  define okA :: "argument_shape \<Rightarrow> bool"
    where "okA = (\<lambda>s. typeResolves N (ash_type s) \<and> directivesOk (ash_directives s))"
  have a_stable: "\<And>J h h' x. unchangedOutside (- J) h h' \<Longrightarrow> J \<subseteq> {..<h_next h}
      \<Longrightarrow> argumentIn J h x \<Longrightarrow> argumentIn J h' x \<and> argumentShape h' x = argumentShape h x"
    using argument_stable by blast
  have a_step: "\<And>hh x. Inv hh \<Longrightarrow> argumentIn I hh x \<Longrightarrow> I \<subseteq> {..<h_next hh}
      \<Longrightarrow> okA (argumentShape hh x)
      \<Longrightarrow> \<exists>h'. copyFieldArgumentDefinition w x ?n hh = Inr (h_next hh, h')
               \<and> unchangedOutside {} hh h' \<and> h_next hh < h_next h'
               \<and> argumentShape h' (h_next hh) = argumentShape hh x
               \<and> argumentIn {h_next hh..<h_next h'} h' (h_next hh)"
  proof -
    fix hh x
    assume a: "Inv hh" "argumentIn I hh x" "I \<subseteq> {..<h_next hh}" "okA (argumentShape hh x)"
    have sf: "schemaOfField hh ?n = Some doc"
      using a(1) by (simp add: Inv_def schemaOfField_def schemaOfType_def)
    have r: "resolvesIn N hh doc" using a(1) by (simp add: Inv_def)
    have t1: "typeResolves N (ash_type (argumentShape hh x))"
      and t2: "directivesOk (ash_directives (argumentShape hh x))"
      using a(4) by (simp_all add: okA_def)
    show "\<exists>h'. copyFieldArgumentDefinition w x ?n hh = Inr (h_next hh, h')
               \<and> unchangedOutside {} hh h' \<and> h_next hh < h_next h'
               \<and> argumentShape h' (h_next hh) = argumentShape hh x
               \<and> argumentIn {h_next hh..<h_next h'} h' (h_next hh)"
      by (rule copyFieldArgumentDefinition_ok[OF sf r a(2,3) t1 t2])
  qed
  have a_attach: "\<And>hh x. Inv hh \<Longrightarrow> x < h_next hh
      \<Longrightarrow> unchangedOutside {?n} hh (addFieldArg x ?n hh)
          \<and> h_next (addFieldArg x ?n hh) = h_next hh
          \<and> fld_args (h_fields (addFieldArg x ?n hh) ?n)
            = map_set (ash_name (argumentShape hh x)) x (fld_args (h_fields hh ?n))
          \<and> Inv (addFieldArg x ?n hh) \<and> Rest hh (addFieldArg x ?n hh)"
    by (auto simp: addFieldArg_unchanged Inv_def Rest_def argumentShape_def
             intro: resolvesIn_cong)
  have a_inv: "\<And>hh h'. Inv hh \<Longrightarrow> unchangedOutside {} hh h'
      \<Longrightarrow> Inv h' \<and> fld_args (h_fields h' ?n) = fld_args (h_fields hh ?n) \<and> Rest hh h'"
  proof -
    fix hh h' assume a: "Inv hh" "unchangedOutside {} hh h'"
    have n: "?n < h_next hh" and t: "t' < h_next hh" using a(1) par(1) by (auto simp: Inv_def)
    have f: "h_fields h' ?n = h_fields hh ?n" using unchangedOutside_at(4)[OF a(2) n] by simp
    have "resolvesIn N h' doc"
      using a(1) resolvesIn_stable[OF a(2)] by (simp add: Inv_def)
    moreover have "?n < h_next h'" using n unchangedOutside_next[OF a(2)] by simp
    ultimately show "Inv h' \<and> fld_args (h_fields h' ?n) = fld_args (h_fields hh ?n) \<and> Rest hh h'"
      using a(1) unchangedOutside_type(3)[OF a(2) t] by (simp add: Inv_def Rest_def f)
  qed
  have a_trans: "\<And>h1 h2 h3. Rest h1 h2 \<Longrightarrow> Rest h2 h3 \<Longrightarrow> Rest h1 h3"
    by (simp add: Rest_def)
  have a_below: "\<And>hh. Inv hh \<Longrightarrow> ?n < h_next hh" by (simp add: Inv_def)
  have cI: "?n \<notin> I" using src(2) by auto
  have i2: "Inv h2"
    using resolvesIn_stable[OF uo2 _ res] par unchangedOutside_type(3)[OF uo2 par(1)]
    by (simp add: Inv_def next2) (simp add: h2 F_def)
  have I2: "I \<subseteq> {..<h_next h2}" using src(2) by (auto simp: next2)
  have uoI: "unchangedOutside (- I) h h2" by (rule unchangedOutside_mono[OF uo2]) simp
  have m2: "\<forall>kv\<in>set ?m. argumentIn I h2 (snd kv)"
    and sh2: "\<forall>kv\<in>set ?m. argumentShape h2 (snd kv) = argumentShape h (snd kv)"
    using s(3) argument_stable[OF uoI src(2)] by auto
  have e2: "fld_args (h_fields h2 ?n) = []" by (simp add: h2 F_def)
  have okm: "keyedBy ash_name (map (\<lambda>(k, a). (k, argumentShape h a)) ?m)"
    "\<forall>kv\<in>set ?m. okA (argumentShape h (snd kv))"
    using ok(3) by (auto simp: argumentsOk_def fieldShape_def okA_def)
  have p5: "distinct (map fst (fld_args (h_fields h2 ?n)) @ map fst ?m)"
    using okm(1) by (simp add: e2 keyedBy_def o_def split_def)
  have p6: "\<forall>kv\<in>set ?m. ash_name (argumentShape h2 (snd kv)) = fst kv
                         \<and> okA (argumentShape h2 (snd kv))"
    using okm sh2 by (auto simp: keyedBy_def)
  have p4: "\<forall>kv\<in>set (fld_args (h_fields h2 ?n)). argumentIn {Suc ?n..<h_next h2} h2 (snd kv)"
    by (simp add: e2)
  have pb: "Suc ?n \<le> h_next h2" by (simp add: next2)
  have a_mono: "\<And>J K h x. argumentIn J h x \<Longrightarrow> J \<subseteq> K \<Longrightarrow> argumentIn K h x"
    by (rule argumentIn_mono)
  have "\<exists>h3. foldM (\<lambda>x hh. bind (copyFieldArgumentDefinition w x ?n hh)
                          (\<lambda>(y, hh1). Inr (addFieldArg y ?n hh1))) (map snd ?m) h2 = Inr h3
      \<and> unchangedOutside {?n} h2 h3 \<and> Inv h3 \<and> Rest h2 h3
      \<and> map (\<lambda>(k, x). (k, argumentShape h3 x)) (fld_args (h_fields h3 ?n))
        = map (\<lambda>(k, x). (k, argumentShape h2 x)) (fld_args (h_fields h2 ?n) @ ?m)
      \<and> (\<forall>kv\<in>set (fld_args (h_fields h3 ?n)). argumentIn {Suc ?n..<h_next h3} h3 (snd kv))"
    by (rule copy_attach_loop[where c = ?n and I = I and Inv = Inv and Rest = Rest and ok = okA
      and copyOne = "\<lambda>x hh. copyFieldArgumentDefinition w x ?n hh"
      and attach = "\<lambda>y hh. addFieldArg y ?n hh"
      and entries = "\<lambda>hh. fld_args (h_fields hh ?n)"
      and shape = argumentShape and inI = argumentIn and name = ash_name and b = "Suc ?n",
      OF a_stable a_mono a_step a_attach a_inv a_trans a_below cI lessI i2 I2 m2 p4 pb p5 p6];
      assumption)
  then obtain h3 where
    h3: "foldM (\<lambda>x hh. bind (copyFieldArgumentDefinition w x ?n hh)
                          (\<lambda>(y, hh1). Inr (addFieldArg y ?n hh1))) (map snd ?m) h2 = Inr h3"
      "unchangedOutside {?n} h2 h3" "Inv h3" "Rest h2 h3"
      "map (\<lambda>(k, x). (k, argumentShape h3 x)) (fld_args (h_fields h3 ?n))
       = map (\<lambda>(k, x). (k, argumentShape h2 x)) (fld_args (h_fields h2 ?n) @ ?m)"
      "\<forall>kv\<in>set (fld_args (h_fields h3 ?n)). argumentIn {Suc ?n..<h_next h3} h3 (snd kv)"
    by blast
  define h4 where "h4 = addReferencer r (FieldDefinitionRef ?n) h3"
  have run: "copyFieldDefinition w source t' h = Inr (?n, h4)"
    using par(2)
    by (simp add: copyFieldDefinition_def schemaOfType_def ty(1) c(1,4) create src1
          h2_def[symmetric] src2 h3(1) addReferencerToType_def h4_def)
  have uo3: "unchangedOutside {} h h3"
  proof -
    have "unchangedOutside {?n} h h3"
      by (rule unchangedOutside_trans[OF unchangedOutside_mono[OF uo2] h3(2)]) simp
    then have "unchangedOutside ({} \<union> {?n}) h h3" by simp
    then show ?thesis by (rule unchangedOutside_fresh) simp
  qed
  have uo4: "unchangedOutside {} h h4"
    unfolding h4_def by (rule unchangedOutside_trans[OF uo3 addReferencer_unchanged])
  have le3: "h_next h2 \<le> h_next h3" by (rule unchangedOutside_next[OF h3(2)])
  have f3: "fld_name (h_fields h3 ?n) = fld_name (h_fields h source)"
    "fld_type (h_fields h3 ?n) = Some ty'"
    "fld_appliedDirectives (h_fields h3 ?n) = [Suc ?n..<Suc ?n + ?k]"
    using h3(4) by (simp_all add: Rest_def h2 F_def)
  have tyshape: "typeShape h3 ty' = typeShape h ty"
    unfolding c(2)[symmetric] by (rule typeShape_stable[OF uo3 c(3)])
  have dirs3: "map (directiveShape h3) [Suc ?n..<Suc ?n + ?k] = map (directiveShape h) ?ds"
  proof -
    have "unchangedOutside (- {Suc ?n..<Suc ?n + ?k}) h2 h3"
      by (rule unchangedOutside_mono[OF h3(2)]) auto
    moreover have "{Suc ?n..<Suc ?n + ?k} \<subseteq> {..<h_next h2}" by (auto simp: next2)
    moreover have "set [Suc ?n..<Suc ?n + ?k] \<subseteq> {Suc ?n..<Suc ?n + ?k}"
      by (simp only: set_upt subset_refl)
    ultimately have "map (directiveShape h3) [Suc ?n..<Suc ?n + ?k]
                     = map (directiveShape h2) [Suc ?n..<Suc ?n + ?k]"
      by (rule directivesShape_stable)
    then show ?thesis unfolding dirs2 .
  qed
  have args3: "map (\<lambda>(k, x). (k, argumentShape h3 x)) (fld_args (h_fields h3 ?n))
               = map (\<lambda>(k, x). (k, argumentShape h x)) ?m"
    using sh2 by (auto simp: h3(5) e2)
  have "fieldShape h4 ?n = fieldShape h3 ?n" by (simp add: h4_def)
  also have "\<dots> = fieldShape h source"
    unfolding fieldShape_def f3 ty(1) args3 dirs3 by (simp add: tyshape)
  finally have shape: "fieldShape h4 ?n = fieldShape h source" .
  have "typeBelow (h_next h3) ty'"
    by (rule typeBelow_mono[OF c(3)]) (use le3 next2 in simp)
  moreover have "\<forall>kv\<in>set (fld_args (h_fields h3 ?n)). argumentIn {?n..<h_next h3} h3 (snd kv)"
    using h3(6) by (auto intro: argumentIn_mono)
  moreover have "set [Suc ?n..<Suc ?n + ?k] \<subseteq> {?n..<h_next h3}"
    using le3 next2 by (auto simp only: set_upt atLeastLessThan_iff)
  ultimately have "fieldIn {?n..<h_next h3} h3 ?n"
    unfolding fieldIn_def f3 typeAllocated_def using le3 next2 by simp
  then have "fieldIn {?n..<h_next h4} h4 ?n" by (simp add: h4_def)
  moreover have "?n < h_next h4" using le3 next2 by (simp add: h4_def)
  ultimately show ?thesis using run uo4 shape by blast
qed


subsection \<open>Input field definitions\<close>

lemma copyInputFieldDefinition_ok:
  assumes res: "resolvesIn N h doc"
    and par: "nt_parent (h_types h t') = Some doc"
    and src: "inputFieldIn I h source" "I \<subseteq> {..<h_next h}"
    and ok: "typeResolves N (ifsh_type (inputFieldShape h source))"
            "directivesOk (ifsh_directives (inputFieldShape h source))"
  shows "\<exists>h'. copyInputFieldDefinition w source t' h = Inr (h_next h, h')
         \<and> unchangedOutside {} h h' \<and> h_next h < h_next h'
         \<and> inputFieldShape h' (h_next h) = inputFieldShape h source
         \<and> inputFieldIn {h_next h..<h_next h'} h' (h_next h)"
proof -
  let ?n = "h_next h"
  let ?ds = "ifd_appliedDirectives (h_inputFields h source)"
  let ?k = "length ?ds"
  have s: "source < ?n" "set ?ds \<subseteq> {..<?n}" using src by (auto simp: inputFieldIn_def)
  from ok(1) obtain ty where ty: "ifd_type (h_inputFields h source) = Some ty"
    "typeShapeResolves N (typeShape h ty)"
    by (auto simp: typeResolves_def inputFieldShape_def split: option.splits)
  from copyType_ok[OF res ty(2), of w] obtain ty' r where
    c: "copyWrapperTypeOrTypeRef h (Some ty) (Some doc) w = Inr (Some ty')"
       "typeShape h ty' = typeShape h ty" "typeBelow ?n ty'" "baseType ty' = Inr r"
    by blast
  define F where "F = \<lparr>ifd_name = ifd_name (h_inputFields h source), ifd_parent = Some t',
    ifd_type = Some ty', ifd_appliedDirectives = []\<rparr>"
  define h1 where "h1 = h\<lparr>h_inputFields := (h_inputFields h)(?n := F), h_next := Suc ?n\<rparr>"
  have create: "createInputFieldDefinition (ifd_name (h_inputFields h source)) (Some t')
                  (Some ty') h = (?n, h1)"
    by (simp add: createInputFieldDefinition_def h1_def F_def)
  have src1: "h_inputFields h1 source = h_inputFields h source" using s(1) by (simp add: h1_def)
  have d1: "set ?ds \<subseteq> {..<h_next h1}" using s(2) by (auto simp: h1_def)
  have ds1: "directiveShape h1 = directiveShape h"
    by (rule directiveShape_cong) (simp add: h1_def)
  have d2: "directivesOk (map (directiveShape h1) ?ds)"
    using ok(2) by (simp add: inputFieldShape_def ds1)
  from copyAppliedDirectives_spec[OF d1 d2, of "InputFieldDefinitionRef ?n"] obtain D where
    D1: "copyAppliedDirectives ?ds (InputFieldDefinitionRef ?n) h1
         = (setAppliedDirectives h1 (InputFieldDefinitionRef ?n)
              (appliedDirectives h1 (InputFieldDefinitionRef ?n)
               @ [h_next h1..<h_next h1 + ?k]))
             \<lparr>h_directives := D, h_next := h_next h1 + ?k\<rparr>"
    and D2: "\<And>r. r < h_next h1 \<Longrightarrow> D r = h_directives h1 r"
    and D3: "map (\<lambda>r. shapeOfDirective (D r)) [h_next h1..<h_next h1 + ?k]
             = map (directiveShape h1) ?ds"
    by blast
  define h2 where "h2 = copyAppliedDirectives ?ds (InputFieldDefinitionRef ?n) h1"
  have h2: "h2 = h\<lparr>h_inputFields := (h_inputFields h)
                      (?n := F\<lparr>ifd_appliedDirectives := [Suc ?n..<Suc ?n + ?k]\<rparr>),
                   h_directives := D, h_next := Suc ?n + ?k\<rparr>"
    unfolding h2_def D1
    by (simp add: setAppliedDirectives_def appliedDirectives_def h1_def F_def)
  define h3 where "h3 = addReferencer r (InputFieldDefinitionRef ?n) h2"
  have run: "copyInputFieldDefinition w source t' h = Inr (?n, h3)"
    using par
    by (simp add: copyInputFieldDefinition_def schemaOfType_def ty(1) c(1,4) create src1
          addReferencerToType_def h2_def h3_def)
  have D2': "\<And>r. r < ?n \<Longrightarrow> D r = h_directives h r"
    using D2 by (simp add: h1_def)
  have uo2: "unchangedOutside {} h h2" by (simp add: unchangedOutside_def h2 D2')
  have uo: "unchangedOutside {} h h3"
    unfolding h3_def by (rule unchangedOutside_trans[OF uo2 addReferencer_unchanged])
  have next2: "h_next h2 = Suc ?n + ?k" by (simp add: h2)
  have dirs: "map (directiveShape h2) [Suc ?n..<Suc ?n + ?k] = map (directiveShape h) ?ds"
  proof -
    have "map (directiveShape h2) [Suc ?n..<Suc ?n + ?k]
          = map (\<lambda>r. shapeOfDirective (D r)) [h_next h1..<h_next h1 + ?k]"
      by (simp add: directiveShape_alt h2 h1_def)
    also have "\<dots> = map (directiveShape h1) ?ds" by (rule D3)
    also have "\<dots> = map (directiveShape h) ?ds" by (simp add: ds1)
    finally show ?thesis .
  qed
  have tyshape: "typeShape h2 ty' = typeShape h ty"
    unfolding c(2)[symmetric] by (rule typeShape_stable[OF uo2 c(3)])
  have f2: "ifd_name (h_inputFields h2 ?n) = ifd_name (h_inputFields h source)"
    "ifd_type (h_inputFields h2 ?n) = Some ty'"
    "ifd_appliedDirectives (h_inputFields h2 ?n) = [Suc ?n..<Suc ?n + ?k]"
    by (simp_all add: h2 F_def)
  have "inputFieldShape h3 ?n = inputFieldShape h2 ?n" by (simp add: h3_def)
  also have "\<dots> = inputFieldShape h source"
    unfolding inputFieldShape_def f2 ty(1) dirs by (simp add: tyshape)
  finally have shape: "inputFieldShape h3 ?n = inputFieldShape h source" .
  have "typeBelow (h_next h2) ty'" by (rule typeBelow_mono[OF c(3)]) (simp add: next2)
  moreover have "set [Suc ?n..<Suc ?n + ?k] \<subseteq> {?n..<h_next h2}"
    using next2 by (auto simp only: set_upt atLeastLessThan_iff)
  ultimately have "inputFieldIn {?n..<h_next h2} h2 ?n"
    unfolding inputFieldIn_def f2 typeAllocated_def using next2 by simp
  then have "inputFieldIn {?n..<h_next h3} h3 ?n" by (simp add: h3_def)
  moreover have "?n < h_next h3" using next2 by (simp add: h3_def)
  ultimately show ?thesis using run uo shape by blast
qed


subsection \<open>The fields of a type\<close>

lemma addField_unchanged: "unchangedOutside {t} h (addField f t h)"
  by (simp add: unchangedOutside_def addField_def)

lemma addField_sel [simp]:
  "h_next (addField f t h) = h_next h"
  "h_schemas (addField f t h) = h_schemas h"
  "nt_fieldsMap (h_types (addField f t h) t)
   = map_set (fld_name (h_fields h f)) f (nt_fieldsMap (h_types h t))"
  "nt_kind (h_types (addField f t h) u) = nt_kind (h_types h u)"
  "nt_name (h_types (addField f t h) u) = nt_name (h_types h u)"
  "nt_parent (h_types (addField f t h) u) = nt_parent (h_types h u)"
  "nt_appliedDirectives (h_types (addField f t h) u) = nt_appliedDirectives (h_types h u)"
  "nt_typesList (h_types (addField f t h) u) = nt_typesList (h_types h u)"
  by (simp_all add: addField_def)

lemma addInputField_unchanged: "unchangedOutside {t} h (addInputField f t h)"
  by (simp add: unchangedOutside_def addInputField_def)

lemma addInputField_sel [simp]:
  "h_next (addInputField f t h) = h_next h"
  "h_schemas (addInputField f t h) = h_schemas h"
  "nt_fieldsMap (h_types (addInputField f t h) t)
   = map_set (ifd_name (h_inputFields h f)) f (nt_fieldsMap (h_types h t))"
  "nt_kind (h_types (addInputField f t h) u) = nt_kind (h_types h u)"
  "nt_name (h_types (addInputField f t h) u) = nt_name (h_types h u)"
  "nt_parent (h_types (addInputField f t h) u) = nt_parent (h_types h u)"
  "nt_appliedDirectives (h_types (addInputField f t h) u) = nt_appliedDirectives (h_types h u)"
  "nt_typesList (h_types (addInputField f t h) u) = nt_typesList (h_types h u)"
  by (simp_all add: addInputField_def)

lemma resolvesIn_names:
  assumes "resolvesIn N h doc" "h_schemas h' = h_schemas h" "h_next h \<le> h_next h'"
    "\<And>t. nt_name (h_types h' t) = nt_name (h_types h t)"
  shows "resolvesIn N h' doc"
  using assms typeByName_cong[of h' doc h] by (fastforce simp: resolvesIn_def)

lemma copyFields_ok:
  assumes res: "resolvesIn N h doc"
    and dest: "t' < h_next h" "nt_parent (h_types h t') = Some doc" "t' \<notin> I"
      "nt_fieldsMap (h_types h t') = []"
    and src: "\<forall>kv\<in>set m. fieldIn I h (snd kv)" "I \<subseteq> {..<h_next h}"
    and ok: "fieldsOk N (map (\<lambda>(k, f). (k, fieldShape h f)) m)"
  shows "\<exists>h'. foldM (\<lambda>field hh. bind (copyFieldDefinition w field t' hh)
                                  (\<lambda>(copied, hh1). Inr (addField copied t' hh1)))
                (map snd m) h = Inr h'
         \<and> unchangedOutside {t'} h h' \<and> resolvesIn N h' doc
         \<and> nt_appliedDirectives (h_types h' t') = nt_appliedDirectives (h_types h t')
         \<and> map (\<lambda>(k, x). (k, fieldShape h' x)) (nt_fieldsMap (h_types h' t'))
           = map (\<lambda>(k, x). (k, fieldShape h x)) m
         \<and> (\<forall>kv\<in>set (nt_fieldsMap (h_types h' t')). fieldIn {h_next h..<h_next h'} h' (snd kv))"
proof -
  define Inv :: "heap \<Rightarrow> bool" where "Inv = (\<lambda>hh. resolvesIn N hh doc \<and> t' < h_next hh
    \<and> nt_parent (h_types hh t') = Some doc)"
  define Rest :: "heap \<Rightarrow> heap \<Rightarrow> bool" where "Rest = (\<lambda>a b.
    nt_appliedDirectives (h_types b t') = nt_appliedDirectives (h_types a t'))"
  define okF :: "field_shape \<Rightarrow> bool" where "okF = (\<lambda>s. typeResolves N (fsh_type s)
    \<and> directivesOk (fsh_directives s) \<and> argumentsOk N (fsh_args s))"
  have a_stable: "\<And>J h h' x. unchangedOutside (- J) h h' \<Longrightarrow> J \<subseteq> {..<h_next h}
      \<Longrightarrow> fieldIn J h x \<Longrightarrow> fieldIn J h' x \<and> fieldShape h' x = fieldShape h x"
    using field_stable by blast
  have a_mono: "\<And>J K h x. fieldIn J h x \<Longrightarrow> J \<subseteq> K \<Longrightarrow> fieldIn K h x"
    by (rule fieldIn_mono)
  have a_step: "\<And>hh x. Inv hh \<Longrightarrow> fieldIn I hh x \<Longrightarrow> I \<subseteq> {..<h_next hh}
      \<Longrightarrow> okF (fieldShape hh x)
      \<Longrightarrow> \<exists>h'. copyFieldDefinition w x t' hh = Inr (h_next hh, h')
               \<and> unchangedOutside {} hh h' \<and> h_next hh < h_next h'
               \<and> fieldShape h' (h_next hh) = fieldShape hh x
               \<and> fieldIn {h_next hh..<h_next h'} h' (h_next hh)"
  proof -
    fix hh x
    assume a: "Inv hh" "fieldIn I hh x" "I \<subseteq> {..<h_next hh}" "okF (fieldShape hh x)"
    have r: "resolvesIn N hh doc" and p: "t' < h_next hh" "nt_parent (h_types hh t') = Some doc"
      using a(1) by (simp_all add: Inv_def)
    have t1: "typeResolves N (fsh_type (fieldShape hh x))"
      and t2: "directivesOk (fsh_directives (fieldShape hh x))"
      and t3: "argumentsOk N (fsh_args (fieldShape hh x))"
      using a(4) by (simp_all add: okF_def)
    show "\<exists>h'. copyFieldDefinition w x t' hh = Inr (h_next hh, h')
               \<and> unchangedOutside {} hh h' \<and> h_next hh < h_next h'
               \<and> fieldShape h' (h_next hh) = fieldShape hh x
               \<and> fieldIn {h_next hh..<h_next h'} h' (h_next hh)"
      by (rule copyFieldDefinition_ok[OF r p a(2,3) t1 t2 t3])
  qed
  have a_attach: "\<And>hh x. Inv hh \<Longrightarrow> x < h_next hh
      \<Longrightarrow> unchangedOutside {t'} hh (addField x t' hh)
          \<and> h_next (addField x t' hh) = h_next hh
          \<and> nt_fieldsMap (h_types (addField x t' hh) t')
            = map_set (fsh_name (fieldShape hh x)) x (nt_fieldsMap (h_types hh t'))
          \<and> Inv (addField x t' hh) \<and> Rest hh (addField x t' hh)"
    by (auto simp: addField_unchanged Inv_def Rest_def fieldShape_def
             intro: resolvesIn_names)
  have a_inv: "\<And>hh h'. Inv hh \<Longrightarrow> unchangedOutside {} hh h'
      \<Longrightarrow> Inv h' \<and> nt_fieldsMap (h_types h' t') = nt_fieldsMap (h_types hh t') \<and> Rest hh h'"
  proof -
    fix hh h' assume a: "Inv hh" "unchangedOutside {} hh h'"
    have t: "t' < h_next hh" using a(1) by (auto simp: Inv_def)
    have "resolvesIn N h' doc"
      using a(1) resolvesIn_stable[OF a(2)] by (simp add: Inv_def)
    moreover have "t' < h_next h'" using t unchangedOutside_next[OF a(2)] by simp
    ultimately show "Inv h' \<and> nt_fieldsMap (h_types h' t') = nt_fieldsMap (h_types hh t')
                     \<and> Rest hh h'"
      using a(1) unchangedOutside_type(3)[OF a(2) t] unchangedOutside_type_at[OF a(2) t]
      by (simp add: Inv_def Rest_def)
  qed
  have a_trans: "\<And>h1 h2 h3. Rest h1 h2 \<Longrightarrow> Rest h2 h3 \<Longrightarrow> Rest h1 h3"
    by (simp add: Rest_def)
  have a_below: "\<And>hh. Inv hh \<Longrightarrow> t' < h_next hh" by (simp add: Inv_def)
  have i0: "Inv h" using res dest by (simp add: Inv_def)
  have p4: "\<forall>kv\<in>set (nt_fieldsMap (h_types h t')). fieldIn {h_next h..<h_next h} h (snd kv)"
    by (simp add: dest(4))
  have okm: "keyedBy fsh_name (map (\<lambda>(k, a). (k, fieldShape h a)) m)"
    "\<forall>kv\<in>set m. okF (fieldShape h (snd kv))"
    using ok by (auto simp: fieldsOk_def okF_def)
  have p5: "distinct (map fst (nt_fieldsMap (h_types h t')) @ map fst m)"
    using okm(1) by (simp add: dest(4) keyedBy_def o_def split_def)
  have p6: "\<forall>kv\<in>set m. fsh_name (fieldShape h (snd kv)) = fst kv \<and> okF (fieldShape h (snd kv))"
    using okm by (auto simp: keyedBy_def)
  have "\<exists>h'. foldM (\<lambda>x hh. bind (copyFieldDefinition w x t' hh)
                              (\<lambda>(y, hh1). Inr (addField y t' hh1))) (map snd m) h = Inr h'
      \<and> unchangedOutside {t'} h h' \<and> Inv h' \<and> Rest h h'
      \<and> map (\<lambda>(k, x). (k, fieldShape h' x)) (nt_fieldsMap (h_types h' t'))
        = map (\<lambda>(k, x). (k, fieldShape h x)) (nt_fieldsMap (h_types h t') @ m)
      \<and> (\<forall>kv\<in>set (nt_fieldsMap (h_types h' t')). fieldIn {h_next h..<h_next h'} h' (snd kv))"
    by (rule copy_attach_loop[where c = t' and I = I and Inv = Inv and Rest = Rest and ok = okF
      and copyOne = "\<lambda>x hh. copyFieldDefinition w x t' hh"
      and attach = "\<lambda>y hh. addField y t' hh"
      and entries = "\<lambda>hh. nt_fieldsMap (h_types hh t')"
      and shape = fieldShape and inI = fieldIn and name = fsh_name and b = "h_next h",
      OF a_stable a_mono a_step a_attach a_inv a_trans a_below dest(3,1) i0 src(2,1) p4 order_refl
         p5 p6];
      assumption)
  then show ?thesis by (auto simp: Inv_def Rest_def dest(4))
qed

lemma copyInputFields_ok:
  assumes res: "resolvesIn N h doc"
    and dest: "t' < h_next h" "nt_parent (h_types h t') = Some doc" "t' \<notin> I"
      "nt_fieldsMap (h_types h t') = []"
    and src: "\<forall>kv\<in>set m. inputFieldIn I h (snd kv)" "I \<subseteq> {..<h_next h}"
    and ok: "inputFieldsOk N (map (\<lambda>(k, f). (k, inputFieldShape h f)) m)"
  shows "\<exists>h'. foldM (\<lambda>field hh. bind (copyInputFieldDefinition w field t' hh)
                                  (\<lambda>(copied, hh1). Inr (addInputField copied t' hh1)))
                (map snd m) h = Inr h'
         \<and> unchangedOutside {t'} h h' \<and> resolvesIn N h' doc
         \<and> nt_appliedDirectives (h_types h' t') = nt_appliedDirectives (h_types h t')
         \<and> map (\<lambda>(k, x). (k, inputFieldShape h' x)) (nt_fieldsMap (h_types h' t'))
           = map (\<lambda>(k, x). (k, inputFieldShape h x)) m
         \<and> (\<forall>kv\<in>set (nt_fieldsMap (h_types h' t')).
               inputFieldIn {h_next h..<h_next h'} h' (snd kv))"
proof -
  define Inv :: "heap \<Rightarrow> bool" where "Inv = (\<lambda>hh. resolvesIn N hh doc \<and> t' < h_next hh
    \<and> nt_parent (h_types hh t') = Some doc)"
  define Rest :: "heap \<Rightarrow> heap \<Rightarrow> bool" where "Rest = (\<lambda>a b.
    nt_appliedDirectives (h_types b t') = nt_appliedDirectives (h_types a t'))"
  define okF :: "input_field_shape \<Rightarrow> bool" where "okF = (\<lambda>s. typeResolves N (ifsh_type s)
    \<and> directivesOk (ifsh_directives s))"
  have a_stable: "\<And>J h h' x. unchangedOutside (- J) h h' \<Longrightarrow> J \<subseteq> {..<h_next h}
      \<Longrightarrow> inputFieldIn J h x \<Longrightarrow> inputFieldIn J h' x \<and> inputFieldShape h' x = inputFieldShape h x"
    using inputField_stable by blast
  have a_mono: "\<And>J K h x. inputFieldIn J h x \<Longrightarrow> J \<subseteq> K \<Longrightarrow> inputFieldIn K h x"
    by (rule inputFieldIn_mono)
  have a_step: "\<And>hh x. Inv hh \<Longrightarrow> inputFieldIn I hh x \<Longrightarrow> I \<subseteq> {..<h_next hh}
      \<Longrightarrow> okF (inputFieldShape hh x)
      \<Longrightarrow> \<exists>h'. copyInputFieldDefinition w x t' hh = Inr (h_next hh, h')
               \<and> unchangedOutside {} hh h' \<and> h_next hh < h_next h'
               \<and> inputFieldShape h' (h_next hh) = inputFieldShape hh x
               \<and> inputFieldIn {h_next hh..<h_next h'} h' (h_next hh)"
  proof -
    fix hh x
    assume a: "Inv hh" "inputFieldIn I hh x" "I \<subseteq> {..<h_next hh}" "okF (inputFieldShape hh x)"
    have r: "resolvesIn N hh doc" and p: "nt_parent (h_types hh t') = Some doc"
      using a(1) by (simp_all add: Inv_def)
    have t1: "typeResolves N (ifsh_type (inputFieldShape hh x))"
      and t2: "directivesOk (ifsh_directives (inputFieldShape hh x))"
      using a(4) by (simp_all add: okF_def)
    show "\<exists>h'. copyInputFieldDefinition w x t' hh = Inr (h_next hh, h')
               \<and> unchangedOutside {} hh h' \<and> h_next hh < h_next h'
               \<and> inputFieldShape h' (h_next hh) = inputFieldShape hh x
               \<and> inputFieldIn {h_next hh..<h_next h'} h' (h_next hh)"
      by (rule copyInputFieldDefinition_ok[OF r p a(2,3) t1 t2])
  qed
  have a_attach: "\<And>hh x. Inv hh \<Longrightarrow> x < h_next hh
      \<Longrightarrow> unchangedOutside {t'} hh (addInputField x t' hh)
          \<and> h_next (addInputField x t' hh) = h_next hh
          \<and> nt_fieldsMap (h_types (addInputField x t' hh) t')
            = map_set (ifsh_name (inputFieldShape hh x)) x (nt_fieldsMap (h_types hh t'))
          \<and> Inv (addInputField x t' hh) \<and> Rest hh (addInputField x t' hh)"
    by (auto simp: addInputField_unchanged Inv_def Rest_def inputFieldShape_def
             intro: resolvesIn_names)
  have a_inv: "\<And>hh h'. Inv hh \<Longrightarrow> unchangedOutside {} hh h'
      \<Longrightarrow> Inv h' \<and> nt_fieldsMap (h_types h' t') = nt_fieldsMap (h_types hh t') \<and> Rest hh h'"
  proof -
    fix hh h' assume a: "Inv hh" "unchangedOutside {} hh h'"
    have t: "t' < h_next hh" using a(1) by (auto simp: Inv_def)
    have "resolvesIn N h' doc"
      using a(1) resolvesIn_stable[OF a(2)] by (simp add: Inv_def)
    moreover have "t' < h_next h'" using t unchangedOutside_next[OF a(2)] by simp
    ultimately show "Inv h' \<and> nt_fieldsMap (h_types h' t') = nt_fieldsMap (h_types hh t')
                     \<and> Rest hh h'"
      using a(1) unchangedOutside_type(3)[OF a(2) t] unchangedOutside_type_at[OF a(2) t]
      by (simp add: Inv_def Rest_def)
  qed
  have a_trans: "\<And>h1 h2 h3. Rest h1 h2 \<Longrightarrow> Rest h2 h3 \<Longrightarrow> Rest h1 h3"
    by (simp add: Rest_def)
  have a_below: "\<And>hh. Inv hh \<Longrightarrow> t' < h_next hh" by (simp add: Inv_def)
  have i0: "Inv h" using res dest by (simp add: Inv_def)
  have p4: "\<forall>kv\<in>set (nt_fieldsMap (h_types h t')). inputFieldIn {h_next h..<h_next h} h (snd kv)"
    by (simp add: dest(4))
  have okm: "keyedBy ifsh_name (map (\<lambda>(k, a). (k, inputFieldShape h a)) m)"
    "\<forall>kv\<in>set m. okF (inputFieldShape h (snd kv))"
    using ok by (auto simp: inputFieldsOk_def okF_def)
  have p5: "distinct (map fst (nt_fieldsMap (h_types h t')) @ map fst m)"
    using okm(1) by (simp add: dest(4) keyedBy_def o_def split_def)
  have p6: "\<forall>kv\<in>set m. ifsh_name (inputFieldShape h (snd kv)) = fst kv
                        \<and> okF (inputFieldShape h (snd kv))"
    using okm by (auto simp: keyedBy_def)
  have "\<exists>h'. foldM (\<lambda>x hh. bind (copyInputFieldDefinition w x t' hh)
                              (\<lambda>(y, hh1). Inr (addInputField y t' hh1))) (map snd m) h = Inr h'
      \<and> unchangedOutside {t'} h h' \<and> Inv h' \<and> Rest h h'
      \<and> map (\<lambda>(k, x). (k, inputFieldShape h' x)) (nt_fieldsMap (h_types h' t'))
        = map (\<lambda>(k, x). (k, inputFieldShape h x)) (nt_fieldsMap (h_types h t') @ m)
      \<and> (\<forall>kv\<in>set (nt_fieldsMap (h_types h' t')).
            inputFieldIn {h_next h..<h_next h'} h' (snd kv))"
    by (rule copy_attach_loop[where c = t' and I = I and Inv = Inv and Rest = Rest and ok = okF
      and copyOne = "\<lambda>x hh. copyInputFieldDefinition w x t' hh"
      and attach = "\<lambda>y hh. addInputField y t' hh"
      and entries = "\<lambda>hh. nt_fieldsMap (h_types hh t')"
      and shape = inputFieldShape and inI = inputFieldIn and name = ifsh_name and b = "h_next h",
      OF a_stable a_mono a_step a_attach a_inv a_trans a_below dest(3,1) i0 src(2,1) p4 order_refl
         p5 p6];
      assumption)
  then show ?thesis by (auto simp: Inv_def Rest_def dest(4))
qed


subsection \<open>The members of a union type\<close>

lemma addTypeToUnion_ok:
  assumes res: "resolvesIn N h doc" and par: "nt_parent (h_types h t') = Some doc"
    and name: "name \<in> N"
  shows "\<exists>t h'. addTypeToUnion name t' h = Inr h' \<and> t < h_next h \<and> nt_name (h_types h t) = name
           \<and> unchangedOutside {t'} h h' \<and> h_next h' = h_next h \<and> h_schemas h' = h_schemas h
           \<and> (\<forall>u. nt_name (h_types h' u) = nt_name (h_types h u))
           \<and> nt_parent (h_types h' t') = nt_parent (h_types h t')
           \<and> nt_appliedDirectives (h_types h' t') = nt_appliedDirectives (h_types h t')
           \<and> nt_typesList (h_types h' t') = nt_typesList (h_types h t') @ [t]"
proof -
  from res name obtain t where t: "typeByName h doc name = Some t" "t < h_next h"
    "nt_name (h_types h t) = name"
    by (auto simp: resolvesIn_def)
  define h' where "h' = addReferencer t (NamedTypeRef t')
    (h\<lparr>h_types := (h_types h)(t' := (h_types h t')\<lparr>nt_typesList :=
         nt_typesList (h_types h t') @ [t]\<rparr>)\<rparr>)"
  have run: "addTypeToUnion name t' h = Inr h'"
    by (simp add: addTypeToUnion_def schemaOfType_def par t(1) addReferencerToType_def h'_def)
  have "unchangedOutside {t'} h h'"
    unfolding h'_def
    by (rule unchangedOutside_trans[OF _ unchangedOutside_mono[OF addReferencer_unchanged]])
       (simp_all add: unchangedOutside_def)
  moreover have "nt_typesList (h_types h' t') = nt_typesList (h_types h t') @ [t]"
    by (simp add: h'_def)
  moreover have "\<forall>u. nt_name (h_types h' u) = nt_name (h_types h u)"
    by (simp add: h'_def)
  moreover have "nt_parent (h_types h' t') = nt_parent (h_types h t')"
    "nt_appliedDirectives (h_types h' t') = nt_appliedDirectives (h_types h t')"
    "h_next h' = h_next h" "h_schemas h' = h_schemas h"
    by (simp_all add: h'_def)
  ultimately show ?thesis using run t(2,3) by blast
qed

lemma copyMembers_ok:
  assumes "resolvesIn N h doc" "nt_parent (h_types h t') = Some doc"
    "\<forall>m\<in>set ms. nt_name (h_types h m) \<in> N"
    "\<forall>m\<in>set (nt_typesList (h_types h t')). m < h_next h"
  shows "\<exists>h'. foldM (\<lambda>t hh. addTypeToUnion (nt_name (h_types hh t)) t' hh) ms h = Inr h'
         \<and> unchangedOutside {t'} h h' \<and> h_next h' = h_next h \<and> resolvesIn N h' doc
         \<and> nt_appliedDirectives (h_types h' t') = nt_appliedDirectives (h_types h t')
         \<and> map (\<lambda>m. nt_name (h_types h' m)) (nt_typesList (h_types h' t'))
           = map (\<lambda>m. nt_name (h_types h m)) (nt_typesList (h_types h t'))
             @ map (\<lambda>m. nt_name (h_types h m)) ms
         \<and> (\<forall>m\<in>set (nt_typesList (h_types h' t')). m < h_next h')"
  using assms
proof (induction ms arbitrary: h)
  case Nil
  then show ?case by simp
next
  case (Cons m ms)
  have "nt_name (h_types h m) \<in> N" using Cons.prems(3) by simp
  from addTypeToUnion_ok[OF Cons.prems(1,2) this] obtain t h1 where
    h1: "addTypeToUnion (nt_name (h_types h m)) t' h = Inr h1" "t < h_next h"
      "nt_name (h_types h t) = nt_name (h_types h m)"
      "unchangedOutside {t'} h h1" "h_next h1 = h_next h" "h_schemas h1 = h_schemas h"
      "\<forall>u. nt_name (h_types h1 u) = nt_name (h_types h u)"
      "nt_parent (h_types h1 t') = nt_parent (h_types h t')"
      "nt_appliedDirectives (h_types h1 t') = nt_appliedDirectives (h_types h t')"
      "nt_typesList (h_types h1 t') = nt_typesList (h_types h t') @ [t]"
    by blast
  have r1: "resolvesIn N h1 doc"
    by (rule resolvesIn_names[OF Cons.prems(1) h1(6)]) (simp_all add: h1(5,7))
  have p1: "nt_parent (h_types h1 t') = Some doc" using Cons.prems(2) h1(8) by simp
  have m1: "\<forall>m\<in>set ms. nt_name (h_types h1 m) \<in> N" using Cons.prems(3) h1(7) by simp
  have l1: "\<forall>m\<in>set (nt_typesList (h_types h1 t')). m < h_next h1"
    using Cons.prems(4) h1(2,5,10) by auto
  from Cons.IH[OF r1 p1 m1 l1] obtain h' where
    h': "foldM (\<lambda>t hh. addTypeToUnion (nt_name (h_types hh t)) t' hh) ms h1 = Inr h'"
      "unchangedOutside {t'} h1 h'" "h_next h' = h_next h1" "resolvesIn N h' doc"
      "nt_appliedDirectives (h_types h' t') = nt_appliedDirectives (h_types h1 t')"
      "map (\<lambda>m. nt_name (h_types h' m)) (nt_typesList (h_types h' t'))
       = map (\<lambda>m. nt_name (h_types h1 m)) (nt_typesList (h_types h1 t'))
         @ map (\<lambda>m. nt_name (h_types h1 m)) ms"
      "\<forall>m\<in>set (nt_typesList (h_types h' t')). m < h_next h'"
    by blast
  have "foldM (\<lambda>t hh. addTypeToUnion (nt_name (h_types hh t)) t' hh) (m # ms) h = Inr h'"
    by (simp add: h1(1) h'(1))
  moreover have "unchangedOutside {t'} h h'" by (rule unchangedOutside_trans[OF h1(4) h'(2)])
  moreover have "map (\<lambda>m. nt_name (h_types h' m)) (nt_typesList (h_types h' t'))
       = map (\<lambda>m. nt_name (h_types h m)) (nt_typesList (h_types h t'))
         @ map (\<lambda>m. nt_name (h_types h m)) (m # ms)"
    by (simp add: h'(6) h1(7,10,3))
  ultimately show ?case using h'(3,4,5,7) h1(5,9) by simp
qed


subsection \<open>The inside of a type\<close>

lemma copyNamedTypeInner_ok:
  assumes res: "resolvesIn N h doc"
    and dest: "t' < h_next h" "nt_parent (h_types h t') = Some doc" "t' \<notin> I"
      "nt_appliedDirectives (h_types h t') = []" "nt_fieldsMap (h_types h t') = []"
      "nt_typesList (h_types h t') = []"
      "nt_kind (h_types h t') = nt_kind (h_types h source)"
      "nt_name (h_types h t') = nt_name (h_types h source)"
    and src: "namedTypeIn I h source" "I \<subseteq> {..<h_next h}"
    and ok: "namedTypeOk N (namedTypeShape h source)"
  shows "\<exists>h'. copyNamedTypeInner w source t' h = Inr h' \<and> unchangedOutside {t'} h h'
         \<and> resolvesIn N h' doc
         \<and> namedTypeShape h' t' = namedTypeShape h source
         \<and> namedTypeIn (insert t' {h_next h..<h_next h'}) h' t'"
proof -
  let ?n = "h_next h"
  let ?ds = "nt_appliedDirectives (h_types h source)"
  let ?k = "length ?ds"
  let ?m = "nt_fieldsMap (h_types h source)"
  let ?kind = "nt_kind (h_types h source)"
  have s: "source \<in> I" "source < ?n" "set ?ds \<subseteq> {..<?n}" "source \<noteq> t'"
    using src dest(3) by (auto simp: namedTypeIn_def)
  have d2: "directivesOk (map (directiveShape h) ?ds)"
    using ok by (simp add: namedTypeOk_def namedTypeShape_def)
  from copyAppliedDirectives_spec[OF s(3) d2, of "NamedTypeRef t'"] obtain D where
    D1: "copyAppliedDirectives ?ds (NamedTypeRef t') h
         = (setAppliedDirectives h (NamedTypeRef t')
              (appliedDirectives h (NamedTypeRef t') @ [?n..<?n + ?k]))
             \<lparr>h_directives := D, h_next := ?n + ?k\<rparr>"
    and D2: "\<And>r. r < ?n \<Longrightarrow> D r = h_directives h r"
    and D3: "map (\<lambda>r. shapeOfDirective (D r)) [?n..<?n + ?k] = map (directiveShape h) ?ds"
    by blast
  define h1 where "h1 = copyAppliedDirectives ?ds (NamedTypeRef t') h"
  have h1: "h1 = h\<lparr>h_types := (h_types h)(t' := (h_types h t')
                      \<lparr>nt_appliedDirectives := [?n..<?n + ?k]\<rparr>),
                   h_directives := D, h_next := ?n + ?k\<rparr>"
    unfolding h1_def D1
    by (simp add: setAppliedDirectives_def appliedDirectives_def dest(4))
  have uo1: "unchangedOutside {t'} h h1"
    by (simp add: unchangedOutside_def h1 D2)
  have next1: "h_next h1 = ?n + ?k" by (simp add: h1)
  have src1: "h_types h1 source = h_types h source" using s(4) by (simp add: h1)
  have res1: "resolvesIn N h1 doc"
    by (rule resolvesIn_names[OF res]) (simp_all add: h1)
  have dirs1: "map (directiveShape h1) [?n..<?n + ?k] = map (directiveShape h) ?ds"
    unfolding D3[symmetric] by (simp add: directiveShape_alt h1)
  have dest1: "t' < h_next h1" "nt_parent (h_types h1 t') = Some doc"
    "nt_fieldsMap (h_types h1 t') = []" "nt_typesList (h_types h1 t') = []"
    "nt_appliedDirectives (h_types h1 t') = [?n..<?n + ?k]"
    using dest by (simp_all add: h1)
  have I1: "I \<subseteq> {..<h_next h1}" using src(2) by (auto simp: next1)
  have uoI: "unchangedOutside (- I) h h1"
    by (rule unchangedOutside_mono[OF uo1]) (use dest(3) in simp)
  have common: "nt_kind (h_types h' t') = ?kind \<and> nt_name (h_types h' t') = nt_name (h_types h source)
      \<and> map (directiveShape h') (nt_appliedDirectives (h_types h' t')) = map (directiveShape h) ?ds
      \<and> set (nt_appliedDirectives (h_types h' t')) \<subseteq> insert t' {?n..<h_next h'}
      \<and> unchangedOutside {t'} h h'"
    if a: "unchangedOutside {t'} h1 h'"
      "nt_appliedDirectives (h_types h' t') = nt_appliedDirectives (h_types h1 t')" for h'
  proof -
    have uo: "unchangedOutside {t'} h h'" by (rule unchangedOutside_trans[OF uo1 a(1)])
    have le: "h_next h1 \<le> h_next h'" by (rule unchangedOutside_next[OF a(1)])
    have J: "unchangedOutside (- {?n..<?n + ?k}) h1 h'"
      by (rule unchangedOutside_mono[OF a(1)]) (use dest(1) in auto)
    moreover have "{?n..<?n + ?k} \<subseteq> {..<h_next h1}" by (auto simp: next1)
    moreover have "set [?n..<?n + ?k] \<subseteq> {?n..<?n + ?k}" by (simp only: set_upt subset_refl)
    ultimately have "map (directiveShape h') [?n..<?n + ?k]
                     = map (directiveShape h1) [?n..<?n + ?k]"
      by (rule directivesShape_stable)
    moreover have "set [?n..<?n + ?k] \<subseteq> insert t' {?n..<h_next h'}"
      using le next1 by (auto simp only: set_upt atLeastLessThan_iff insert_iff)
    ultimately show ?thesis
      using uo unchangedOutside_type(1,2)[OF uo dest(1)] dest(7,8)
      by (simp add: a(2) dest1(5) dirs1)
  qed
  have kind: "?kind = ScalarType \<or> ?kind = ObjectType \<or> ?kind = UnionType
              \<or> ?kind = InputObjectType"
    using ok by (auto simp: namedTypeOk_def namedTypeShape_def)
  consider (obj) "?kind = ObjectType" | (inp) "?kind = InputObjectType"
    | (uni) "?kind = UnionType" | (sca) "?kind = ScalarType"
    using kind by blast
  then show ?thesis
  proof cases
    case obj
    have f0: "\<forall>kv\<in>set ?m. fieldIn I h (snd kv)"
      using src(1) obj by (simp add: namedTypeIn_def)
    have f1: "\<forall>kv\<in>set ?m. fieldIn I h1 (snd kv)"
      and sh1: "map (\<lambda>(k, a). (k, fieldShape h1 a)) ?m = map (\<lambda>(k, a). (k, fieldShape h a)) ?m"
      using fields_stable[OF uoI src(2) f0] by simp_all
    have ok1: "fieldsOk N (map (\<lambda>(k, f). (k, fieldShape h1 f)) ?m)"
      using ok obj by (simp add: sh1 namedTypeOk_def namedTypeShape_def)
    from copyFields_ok[OF res1 dest1(1,2) dest(3) dest1(3) f1 I1 ok1, of w] obtain h' where
      h': "foldM (\<lambda>field hh. bind (copyFieldDefinition w field t' hh)
                               (\<lambda>(copied, hh1). Inr (addField copied t' hh1)))
             (map snd ?m) h1 = Inr h'"
        "unchangedOutside {t'} h1 h'" "resolvesIn N h' doc"
        "nt_appliedDirectives (h_types h' t') = nt_appliedDirectives (h_types h1 t')"
        "map (\<lambda>(k, x). (k, fieldShape h' x)) (nt_fieldsMap (h_types h' t'))
         = map (\<lambda>(k, x). (k, fieldShape h1 x)) ?m"
        "\<forall>kv\<in>set (nt_fieldsMap (h_types h' t')). fieldIn {h_next h1..<h_next h'} h' (snd kv)"
      by blast
    have run: "copyNamedTypeInner w source t' h = Inr h'"
      by (simp add: copyNamedTypeInner_def Let_def h1_def[symmetric] src1 obj h'(1))
    note c = common[OF h'(2,4)]
    have shape: "namedTypeShape h' t' = namedTypeShape h source"
      unfolding namedTypeShape_def using c by (simp add: obj h'(5) sh1)
    have "\<forall>kv\<in>set (nt_fieldsMap (h_types h' t')).
            fieldIn (insert t' {?n..<h_next h'}) h' (snd kv)"
      using h'(6) by (auto intro: fieldIn_mono simp: next1)
    then have "namedTypeIn (insert t' {?n..<h_next h'}) h' t'"
      using c by (simp add: namedTypeIn_def obj)
    with run c h'(3) shape show ?thesis by blast
  next
    case inp
    have f0: "\<forall>kv\<in>set ?m. inputFieldIn I h (snd kv)"
      using src(1) inp by (simp add: namedTypeIn_def)
    have f1: "\<forall>kv\<in>set ?m. inputFieldIn I h1 (snd kv)"
      and sh1: "map (\<lambda>(k, a). (k, inputFieldShape h1 a)) ?m
                = map (\<lambda>(k, a). (k, inputFieldShape h a)) ?m"
      using inputFields_stable[OF uoI src(2) f0] by simp_all
    have ok1: "inputFieldsOk N (map (\<lambda>(k, f). (k, inputFieldShape h1 f)) ?m)"
      using ok inp by (simp add: sh1 namedTypeOk_def namedTypeShape_def)
    from copyInputFields_ok[OF res1 dest1(1,2) dest(3) dest1(3) f1 I1 ok1, of w] obtain h' where
      h': "foldM (\<lambda>field hh. bind (copyInputFieldDefinition w field t' hh)
                               (\<lambda>(copied, hh1). Inr (addInputField copied t' hh1)))
             (map snd ?m) h1 = Inr h'"
        "unchangedOutside {t'} h1 h'" "resolvesIn N h' doc"
        "nt_appliedDirectives (h_types h' t') = nt_appliedDirectives (h_types h1 t')"
        "map (\<lambda>(k, x). (k, inputFieldShape h' x)) (nt_fieldsMap (h_types h' t'))
         = map (\<lambda>(k, x). (k, inputFieldShape h1 x)) ?m"
        "\<forall>kv\<in>set (nt_fieldsMap (h_types h' t')).
           inputFieldIn {h_next h1..<h_next h'} h' (snd kv)"
      by blast
    have run: "copyNamedTypeInner w source t' h = Inr h'"
      by (simp add: copyNamedTypeInner_def Let_def h1_def[symmetric] src1 inp h'(1))
    note c = common[OF h'(2,4)]
    have shape: "namedTypeShape h' t' = namedTypeShape h source"
      unfolding namedTypeShape_def using c by (simp add: inp h'(5) sh1)
    have "\<forall>kv\<in>set (nt_fieldsMap (h_types h' t')).
            inputFieldIn (insert t' {?n..<h_next h'}) h' (snd kv)"
      using h'(6) by (auto intro: inputFieldIn_mono simp: next1)
    then have "namedTypeIn (insert t' {?n..<h_next h'}) h' t'"
      using c by (simp add: namedTypeIn_def inp)
    with run c h'(3) shape show ?thesis by blast
  next
    case uni
    let ?ms = "nt_typesList (h_types h source)"
    have m0: "\<forall>m\<in>set ?ms. m < ?n" using src(1) uni by (simp add: namedTypeIn_def)
    have names1: "\<And>u. nt_name (h_types h1 u) = nt_name (h_types h u)" by (simp add: h1)
    have mN: "\<forall>m\<in>set ?ms. nt_name (h_types h1 m) \<in> N"
      using ok uni by (auto simp: namedTypeOk_def namedTypeShape_def names1)
    have l1: "\<forall>m\<in>set (nt_typesList (h_types h1 t')). m < h_next h1" by (simp add: dest1(4))
    from copyMembers_ok[OF res1 dest1(2) mN l1] obtain h' where
      h': "foldM (\<lambda>t hh. addTypeToUnion (nt_name (h_types hh t)) t' hh) ?ms h1 = Inr h'"
        "unchangedOutside {t'} h1 h'" "h_next h' = h_next h1" "resolvesIn N h' doc"
        "nt_appliedDirectives (h_types h' t') = nt_appliedDirectives (h_types h1 t')"
        "map (\<lambda>m. nt_name (h_types h' m)) (nt_typesList (h_types h' t'))
         = map (\<lambda>m. nt_name (h_types h1 m)) (nt_typesList (h_types h1 t'))
           @ map (\<lambda>m. nt_name (h_types h1 m)) ?ms"
        "\<forall>m\<in>set (nt_typesList (h_types h' t')). m < h_next h'"
      by blast
    have run: "copyNamedTypeInner w source t' h = Inr h'"
      by (simp add: copyNamedTypeInner_def Let_def h1_def[symmetric] src1 uni h'(1))
    note c = common[OF h'(2,5)]
    have shape: "namedTypeShape h' t' = namedTypeShape h source"
      unfolding namedTypeShape_def using c by (simp add: uni h'(6) dest1(4) names1)
    have "namedTypeIn (insert t' {?n..<h_next h'}) h' t'"
      using c h'(7) by (simp add: namedTypeIn_def uni)
    with run c h'(4) shape show ?thesis by blast
  next
    case sca
    have run: "copyNamedTypeInner w source t' h = Inr h1"
      by (simp add: copyNamedTypeInner_def Let_def h1_def[symmetric] src1 sca)
    note c = common[OF unchangedOutside_refl refl]
    have shape: "namedTypeShape h1 t' = namedTypeShape h source"
      unfolding namedTypeShape_def using c by (simp add: sca)
    have "namedTypeIn (insert t' {?n..<h_next h1}) h1 t'"
      using c by (simp add: namedTypeIn_def sca)
    with run c res1 shape show ?thesis by blast
  qed
qed


subsection \<open>Directive definitions\<close>

lemma directiveDefinitionIn_mono:
  "directiveDefinitionIn J h x \<Longrightarrow> J \<subseteq> K \<Longrightarrow> directiveDefinitionIn K h x"
  by (auto simp: directiveDefinitionIn_def intro: argumentIn_mono)

lemma copyDirectiveArgumentDefinition_ok:
  assumes "schemaOfDirectiveDefinition h d = Some doc" "resolvesIn N h doc"
    "argumentIn I h source" "I \<subseteq> {..<h_next h}"
    "typeResolves N (ash_type (argumentShape h source))"
    "directivesOk (ash_directives (argumentShape h source))"
  shows "\<exists>h'. copyDirectiveArgumentDefinition w source d h = Inr (h_next h, h')
         \<and> unchangedOutside {} h h' \<and> h_next h < h_next h'
         \<and> argumentShape h' (h_next h) = argumentShape h source
         \<and> argumentIn {h_next h..<h_next h'} h' (h_next h)"
  unfolding copyDirectiveArgumentDefinition_def assms(1)
  by (rule copyArgument_generic[OF assms(2-6)])

lemma addDirectiveArg_unchanged: "unchangedOutside {d} h (addDirectiveArg a d h)"
  by (simp add: unchangedOutside_def addDirectiveArg_def)

lemma addDirectiveArg_sel [simp]:
  "h_next (addDirectiveArg a d h) = h_next h"
  "h_schemas (addDirectiveArg a d h) = h_schemas h"
  "h_types (addDirectiveArg a d h) = h_types h"
  "dd_args (h_directiveDefs (addDirectiveArg a d h) d)
   = map_set (arg_name (h_args h a)) a (dd_args (h_directiveDefs h d))"
  "dd_name (h_directiveDefs (addDirectiveArg a d h) g) = dd_name (h_directiveDefs h g)"
  "dd_parent (h_directiveDefs (addDirectiveArg a d h) g) = dd_parent (h_directiveDefs h g)"
  by (simp_all add: addDirectiveArg_def)

lemma copyDirectiveDefinition_ok:
  assumes res: "resolvesIn N h doc"
    and src: "directiveDefinitionIn I h source" "I \<subseteq> {..<h_next h}"
    and ok: "argumentsOk N (ddsh_args (directiveDefinitionShape h source))"
  shows "\<exists>h'. copyDirectiveDefinition w source doc h = Inr (h_next h, h')
         \<and> unchangedOutside {} h h' \<and> h_next h < h_next h'
         \<and> directiveDefinitionShape h' (h_next h) = directiveDefinitionShape h source
         \<and> directiveDefinitionIn {h_next h..<h_next h'} h' (h_next h)"
proof -
  let ?n = "h_next h"
  let ?m = "dd_args (h_directiveDefs h source)"
  have s: "source < ?n" "\<forall>kv\<in>set ?m. argumentIn I h (snd kv)"
    using src by (auto simp: directiveDefinitionIn_def)
  define F where "F = \<lparr>dd_name = dd_name (h_directiveDefs h source), dd_parent = Some doc,
    dd_args = [], dd_appliedDirectives = []\<rparr>"
  define h1 where "h1 = h\<lparr>h_directiveDefs := (h_directiveDefs h)(?n := F), h_next := Suc ?n\<rparr>"
  have create: "createDirectiveDefinition (dd_name (h_directiveDefs h source)) (Some doc) h
                = (?n, h1)"
    by (simp add: createDirectiveDefinition_def h1_def F_def)
  have src1: "h_directiveDefs h1 source = h_directiveDefs h source"
    using s(1) by (simp add: h1_def)
  have uo1: "unchangedOutside {} h h1" by (simp add: unchangedOutside_def h1_def)
  have next1: "h_next h1 = Suc ?n" by (simp add: h1_def)
  define Inv :: "heap \<Rightarrow> bool" where "Inv = (\<lambda>hh. resolvesIn N hh doc \<and> ?n < h_next hh
    \<and> dd_parent (h_directiveDefs hh ?n) = Some doc)"
  define Rest :: "heap \<Rightarrow> heap \<Rightarrow> bool" where "Rest = (\<lambda>a b.
    dd_name (h_directiveDefs b ?n) = dd_name (h_directiveDefs a ?n))"
  define okA :: "argument_shape \<Rightarrow> bool"
    where "okA = (\<lambda>s. typeResolves N (ash_type s) \<and> directivesOk (ash_directives s))"
  have a_stable: "\<And>J h h' x. unchangedOutside (- J) h h' \<Longrightarrow> J \<subseteq> {..<h_next h}
      \<Longrightarrow> argumentIn J h x \<Longrightarrow> argumentIn J h' x \<and> argumentShape h' x = argumentShape h x"
    using argument_stable by blast
  have a_mono: "\<And>J K h x. argumentIn J h x \<Longrightarrow> J \<subseteq> K \<Longrightarrow> argumentIn K h x"
    by (rule argumentIn_mono)
  have a_step: "\<And>hh x. Inv hh \<Longrightarrow> argumentIn I hh x \<Longrightarrow> I \<subseteq> {..<h_next hh}
      \<Longrightarrow> okA (argumentShape hh x)
      \<Longrightarrow> \<exists>h'. copyDirectiveArgumentDefinition w x ?n hh = Inr (h_next hh, h')
               \<and> unchangedOutside {} hh h' \<and> h_next hh < h_next h'
               \<and> argumentShape h' (h_next hh) = argumentShape hh x
               \<and> argumentIn {h_next hh..<h_next h'} h' (h_next hh)"
  proof -
    fix hh x
    assume a: "Inv hh" "argumentIn I hh x" "I \<subseteq> {..<h_next hh}" "okA (argumentShape hh x)"
    have sf: "schemaOfDirectiveDefinition hh ?n = Some doc"
      using a(1) by (simp add: Inv_def schemaOfDirectiveDefinition_def)
    have r: "resolvesIn N hh doc" using a(1) by (simp add: Inv_def)
    have t1: "typeResolves N (ash_type (argumentShape hh x))"
      and t2: "directivesOk (ash_directives (argumentShape hh x))"
      using a(4) by (simp_all add: okA_def)
    show "\<exists>h'. copyDirectiveArgumentDefinition w x ?n hh = Inr (h_next hh, h')
               \<and> unchangedOutside {} hh h' \<and> h_next hh < h_next h'
               \<and> argumentShape h' (h_next hh) = argumentShape hh x
               \<and> argumentIn {h_next hh..<h_next h'} h' (h_next hh)"
      by (rule copyDirectiveArgumentDefinition_ok[OF sf r a(2,3) t1 t2])
  qed
  have a_attach: "\<And>hh x. Inv hh \<Longrightarrow> x < h_next hh
      \<Longrightarrow> unchangedOutside {?n} hh (addDirectiveArg x ?n hh)
          \<and> h_next (addDirectiveArg x ?n hh) = h_next hh
          \<and> dd_args (h_directiveDefs (addDirectiveArg x ?n hh) ?n)
            = map_set (ash_name (argumentShape hh x)) x (dd_args (h_directiveDefs hh ?n))
          \<and> Inv (addDirectiveArg x ?n hh) \<and> Rest hh (addDirectiveArg x ?n hh)"
    by (auto simp: addDirectiveArg_unchanged Inv_def Rest_def argumentShape_def
             intro: resolvesIn_cong)
  have a_inv: "\<And>hh h'. Inv hh \<Longrightarrow> unchangedOutside {} hh h'
      \<Longrightarrow> Inv h' \<and> dd_args (h_directiveDefs h' ?n) = dd_args (h_directiveDefs hh ?n)
          \<and> Rest hh h'"
  proof -
    fix hh h' assume a: "Inv hh" "unchangedOutside {} hh h'"
    have n: "?n < h_next hh" using a(1) by (auto simp: Inv_def)
    have f: "h_directiveDefs h' ?n = h_directiveDefs hh ?n"
      using unchangedOutside_at(7)[OF a(2) n] by simp
    have "resolvesIn N h' doc"
      using a(1) resolvesIn_stable[OF a(2)] by (simp add: Inv_def)
    moreover have "?n < h_next h'" using n unchangedOutside_next[OF a(2)] by simp
    ultimately show "Inv h' \<and> dd_args (h_directiveDefs h' ?n) = dd_args (h_directiveDefs hh ?n)
                     \<and> Rest hh h'"
      using a(1) by (simp add: Inv_def Rest_def f)
  qed
  have a_trans: "\<And>h1 h2 h3. Rest h1 h2 \<Longrightarrow> Rest h2 h3 \<Longrightarrow> Rest h1 h3"
    by (simp add: Rest_def)
  have a_below: "\<And>hh. Inv hh \<Longrightarrow> ?n < h_next hh" by (simp add: Inv_def)
  have cI: "?n \<notin> I" using src(2) by auto
  have i1: "Inv h1"
    using resolvesIn_stable[OF uo1 _ res] by (simp add: Inv_def next1) (simp add: h1_def F_def)
  have I1: "I \<subseteq> {..<h_next h1}" using src(2) by (auto simp: next1)
  have uoI: "unchangedOutside (- I) h h1" by (rule unchangedOutside_mono[OF uo1]) simp
  have m1: "\<forall>kv\<in>set ?m. argumentIn I h1 (snd kv)"
    and sh1: "\<forall>kv\<in>set ?m. argumentShape h1 (snd kv) = argumentShape h (snd kv)"
    using s(2) argument_stable[OF uoI src(2)] by auto
  have e1: "dd_args (h_directiveDefs h1 ?n) = []" by (simp add: h1_def F_def)
  have okm: "keyedBy ash_name (map (\<lambda>(k, a). (k, argumentShape h a)) ?m)"
    "\<forall>kv\<in>set ?m. okA (argumentShape h (snd kv))"
    using ok by (auto simp: argumentsOk_def directiveDefinitionShape_def okA_def)
  have p4: "\<forall>kv\<in>set (dd_args (h_directiveDefs h1 ?n)).
              argumentIn {Suc ?n..<h_next h1} h1 (snd kv)"
    by (simp add: e1)
  have pb: "Suc ?n \<le> h_next h1" by (simp add: next1)
  have p5: "distinct (map fst (dd_args (h_directiveDefs h1 ?n)) @ map fst ?m)"
    using okm(1) by (simp add: e1 keyedBy_def o_def split_def)
  have p6: "\<forall>kv\<in>set ?m. ash_name (argumentShape h1 (snd kv)) = fst kv
                         \<and> okA (argumentShape h1 (snd kv))"
    using okm sh1 by (auto simp: keyedBy_def)
  have "\<exists>h2. foldM (\<lambda>x hh. bind (copyDirectiveArgumentDefinition w x ?n hh)
                          (\<lambda>(y, hh1). Inr (addDirectiveArg y ?n hh1))) (map snd ?m) h1 = Inr h2
      \<and> unchangedOutside {?n} h1 h2 \<and> Inv h2 \<and> Rest h1 h2
      \<and> map (\<lambda>(k, x). (k, argumentShape h2 x)) (dd_args (h_directiveDefs h2 ?n))
        = map (\<lambda>(k, x). (k, argumentShape h1 x)) (dd_args (h_directiveDefs h1 ?n) @ ?m)
      \<and> (\<forall>kv\<in>set (dd_args (h_directiveDefs h2 ?n)).
            argumentIn {Suc ?n..<h_next h2} h2 (snd kv))"
    by (rule copy_attach_loop[where c = ?n and I = I and Inv = Inv and Rest = Rest and ok = okA
      and copyOne = "\<lambda>x hh. copyDirectiveArgumentDefinition w x ?n hh"
      and attach = "\<lambda>y hh. addDirectiveArg y ?n hh"
      and entries = "\<lambda>hh. dd_args (h_directiveDefs hh ?n)"
      and shape = argumentShape and inI = argumentIn and name = ash_name and b = "Suc ?n",
      OF a_stable a_mono a_step a_attach a_inv a_trans a_below cI lessI i1 I1 m1 p4 pb p5 p6];
      assumption)
  then obtain h2 where
    h2: "foldM (\<lambda>x hh. bind (copyDirectiveArgumentDefinition w x ?n hh)
                          (\<lambda>(y, hh1). Inr (addDirectiveArg y ?n hh1))) (map snd ?m) h1 = Inr h2"
      "unchangedOutside {?n} h1 h2" "Inv h2" "Rest h1 h2"
      "map (\<lambda>(k, x). (k, argumentShape h2 x)) (dd_args (h_directiveDefs h2 ?n))
       = map (\<lambda>(k, x). (k, argumentShape h1 x)) (dd_args (h_directiveDefs h1 ?n) @ ?m)"
      "\<forall>kv\<in>set (dd_args (h_directiveDefs h2 ?n)). argumentIn {Suc ?n..<h_next h2} h2 (snd kv)"
    by blast
  have run: "copyDirectiveDefinition w source doc h = Inr (?n, h2)"
    by (simp add: copyDirectiveDefinition_def create src1 h2(1))
  have uo2: "unchangedOutside {} h h2"
  proof -
    have "unchangedOutside {?n} h h2"
      by (rule unchangedOutside_trans[OF unchangedOutside_mono[OF uo1] h2(2)]) simp
    then have "unchangedOutside ({} \<union> {?n}) h h2" by simp
    then show ?thesis by (rule unchangedOutside_fresh) simp
  qed
  have le2: "h_next h1 \<le> h_next h2" by (rule unchangedOutside_next[OF h2(2)])
  have name2: "dd_name (h_directiveDefs h2 ?n) = dd_name (h_directiveDefs h source)"
    using h2(4) by (simp add: Rest_def h1_def F_def)
  have args2: "map (\<lambda>(k, x). (k, argumentShape h2 x)) (dd_args (h_directiveDefs h2 ?n))
               = map (\<lambda>(k, x). (k, argumentShape h x)) ?m"
    using sh1 by (auto simp: h2(5) e1)
  have shape: "directiveDefinitionShape h2 ?n = directiveDefinitionShape h source"
    unfolding directiveDefinitionShape_def name2 args2 ..
  have "\<forall>kv\<in>set (dd_args (h_directiveDefs h2 ?n)). argumentIn {?n..<h_next h2} h2 (snd kv)"
    using h2(6) by (auto intro: argumentIn_mono)
  then have "directiveDefinitionIn {?n..<h_next h2} h2 ?n"
    using le2 next1 by (simp add: directiveDefinitionIn_def)
  moreover have "?n < h_next h2" using le2 next1 by simp
  ultimately show ?thesis using run uo2 shape by blast
qed


subsection \<open>The schema definition\<close>

lemma addRoot_ok:
  assumes res: "resolvesIn N h doc" and par: "sd_parent (h_schemaDefs h d) = Some doc"
    and name: "name \<in> N"
  shows "\<exists>t h'. addRoot root name d h = Inr h' \<and> t < h_next h \<and> nt_name (h_types h t) = name
           \<and> unchangedOutside {d} h h' \<and> h_next h' = h_next h \<and> h_schemas h' = h_schemas h
           \<and> (\<forall>u. nt_name (h_types h' u) = nt_name (h_types h u))
           \<and> sd_parent (h_schemaDefs h' d) = sd_parent (h_schemaDefs h d)
           \<and> sd_appliedDirectives (h_schemaDefs h' d) = sd_appliedDirectives (h_schemaDefs h d)
           \<and> sd_rootsMap (h_schemaDefs h' d) = map_set root t (sd_rootsMap (h_schemaDefs h d))
           \<and> (\<forall>x. x \<noteq> d \<longrightarrow> h_schemaDefs h' x = h_schemaDefs h x)
           \<and> h_directives h' = h_directives h"
proof -
  from res name obtain t where t: "typeByName h doc name = Some t" "t < h_next h"
    "nt_name (h_types h t) = name"
    by (auto simp: resolvesIn_def)
  define h' where "h' = addReferencer t (SchemaDefinitionRef d)
    (h\<lparr>h_schemaDefs := (h_schemaDefs h)(d := (h_schemaDefs h d)\<lparr>sd_rootsMap :=
         map_set root t (sd_rootsMap (h_schemaDefs h d))\<rparr>)\<rparr>)"
  have run: "addRoot root name d h = Inr h'"
    by (simp add: addRoot_def schemaOfSchemaDefinition_def par t(1) addReferencerToType_def
          h'_def)
  have "unchangedOutside {d} h h'"
    unfolding h'_def
    by (rule unchangedOutside_trans[OF _ unchangedOutside_mono[OF addReferencer_unchanged]])
       (simp_all add: unchangedOutside_def)
  moreover have "sd_rootsMap (h_schemaDefs h' d) = map_set root t (sd_rootsMap (h_schemaDefs h d))"
    "\<forall>u. nt_name (h_types h' u) = nt_name (h_types h u)"
    "sd_parent (h_schemaDefs h' d) = sd_parent (h_schemaDefs h d)"
    "sd_appliedDirectives (h_schemaDefs h' d) = sd_appliedDirectives (h_schemaDefs h d)"
    "h_next h' = h_next h" "h_schemas h' = h_schemas h"
    "\<forall>x. x \<noteq> d \<longrightarrow> h_schemaDefs h' x = h_schemaDefs h x"
    "h_directives h' = h_directives h"
    by (simp_all add: h'_def)
  ultimately show ?thesis using run t(2,3) by blast
qed

lemma copyRoots_ok:
  assumes "resolvesIn N h doc" "sd_parent (h_schemaDefs h d) = Some doc"
    "\<forall>kv\<in>set rs. nt_name (h_types h (snd kv)) \<in> N"
    "\<forall>kv\<in>set (sd_rootsMap (h_schemaDefs h d)). snd kv < h_next h"
    "distinct (map fst (sd_rootsMap (h_schemaDefs h d)) @ map fst rs)"
  shows "\<exists>h'. foldM (\<lambda>(root, t) hh. addRoot root (nt_name (h_types hh t)) d hh) rs h = Inr h'
         \<and> unchangedOutside {d} h h' \<and> h_next h' = h_next h \<and> resolvesIn N h' doc
         \<and> sd_appliedDirectives (h_schemaDefs h' d) = sd_appliedDirectives (h_schemaDefs h d)
         \<and> (\<forall>x. x \<noteq> d \<longrightarrow> h_schemaDefs h' x = h_schemaDefs h x)
         \<and> map (\<lambda>(root, t). (root, nt_name (h_types h' t))) (sd_rootsMap (h_schemaDefs h' d))
           = map (\<lambda>(root, t). (root, nt_name (h_types h t)))
               (sd_rootsMap (h_schemaDefs h d) @ rs)
         \<and> (\<forall>kv\<in>set (sd_rootsMap (h_schemaDefs h' d)). snd kv < h_next h')
         \<and> h_directives h' = h_directives h"
  using assms
proof (induction rs arbitrary: h)
  case Nil
  then show ?case by simp
next
  case (Cons rt rs)
  obtain root m where rt: "rt = (root, m)" by (cases rt)
  have "nt_name (h_types h m) \<in> N" using Cons.prems(3) by (simp add: rt)
  from addRoot_ok[OF Cons.prems(1,2) this, of root] obtain t h1 where
    h1: "addRoot root (nt_name (h_types h m)) d h = Inr h1" "t < h_next h"
      "nt_name (h_types h t) = nt_name (h_types h m)"
      "unchangedOutside {d} h h1" "h_next h1 = h_next h" "h_schemas h1 = h_schemas h"
      "\<forall>u. nt_name (h_types h1 u) = nt_name (h_types h u)"
      "sd_parent (h_schemaDefs h1 d) = sd_parent (h_schemaDefs h d)"
      "sd_appliedDirectives (h_schemaDefs h1 d) = sd_appliedDirectives (h_schemaDefs h d)"
      "sd_rootsMap (h_schemaDefs h1 d) = map_set root t (sd_rootsMap (h_schemaDefs h d))"
      "\<forall>x. x \<noteq> d \<longrightarrow> h_schemaDefs h1 x = h_schemaDefs h x"
      "h_directives h1 = h_directives h"
    by blast
  have fresh: "root \<notin> fst ` set (sd_rootsMap (h_schemaDefs h d))"
    using Cons.prems(5) by (auto simp: rt)
  have e1: "sd_rootsMap (h_schemaDefs h1 d) = sd_rootsMap (h_schemaDefs h d) @ [(root, t)]"
    by (simp add: h1(10) map_set_fresh[OF fresh])
  have r1: "resolvesIn N h1 doc"
    by (rule resolvesIn_names[OF Cons.prems(1) h1(6)]) (simp_all add: h1(5,7))
  have p1: "sd_parent (h_schemaDefs h1 d) = Some doc" using Cons.prems(2) h1(8) by simp
  have m1: "\<forall>kv\<in>set rs. nt_name (h_types h1 (snd kv)) \<in> N"
    using Cons.prems(3) h1(7) by simp
  have l1: "\<forall>kv\<in>set (sd_rootsMap (h_schemaDefs h1 d)). snd kv < h_next h1"
    using Cons.prems(4) h1(2,5) by (auto simp: e1)
  have d1: "distinct (map fst (sd_rootsMap (h_schemaDefs h1 d)) @ map fst rs)"
    using Cons.prems(5) by (simp add: e1 rt)
  from Cons.IH[OF r1 p1 m1 l1 d1] obtain h' where
    h': "foldM (\<lambda>(root, t) hh. addRoot root (nt_name (h_types hh t)) d hh) rs h1 = Inr h'"
      "unchangedOutside {d} h1 h'" "h_next h' = h_next h1" "resolvesIn N h' doc"
      "sd_appliedDirectives (h_schemaDefs h' d) = sd_appliedDirectives (h_schemaDefs h1 d)"
      "\<forall>x. x \<noteq> d \<longrightarrow> h_schemaDefs h' x = h_schemaDefs h1 x"
      "map (\<lambda>(root, t). (root, nt_name (h_types h' t))) (sd_rootsMap (h_schemaDefs h' d))
       = map (\<lambda>(root, t). (root, nt_name (h_types h1 t)))
           (sd_rootsMap (h_schemaDefs h1 d) @ rs)"
      "\<forall>kv\<in>set (sd_rootsMap (h_schemaDefs h' d)). snd kv < h_next h'"
      "h_directives h' = h_directives h1"
    by blast
  have "foldM (\<lambda>(root, t) hh. addRoot root (nt_name (h_types hh t)) d hh) (rt # rs) h = Inr h'"
    by (simp add: rt h1(1) h'(1))
  moreover have "unchangedOutside {d} h h'" by (rule unchangedOutside_trans[OF h1(4) h'(2)])
  moreover have "map (\<lambda>(root, t). (root, nt_name (h_types h' t)))
                   (sd_rootsMap (h_schemaDefs h' d))
       = map (\<lambda>(root, t). (root, nt_name (h_types h t)))
           (sd_rootsMap (h_schemaDefs h d) @ rt # rs)"
    by (simp add: h'(7) h1(7,3) e1 rt)
  ultimately show ?case using h'(3,4,5,6,8,9) h1(5,9,11,12) by simp
qed

lemma schemaDefinitionIn_mono:
  "schemaDefinitionIn J h x \<Longrightarrow> J \<subseteq> K \<Longrightarrow> schemaDefinitionIn K h x"
  by (auto simp: schemaDefinitionIn_def)

lemma copySchemaDefinitionInner_ok:
  assumes res: "resolvesIn N h doc"
    and dest: "d < h_next h" "sd_parent (h_schemaDefs h d) = Some doc" "d \<notin> I"
      "sd_rootsMap (h_schemaDefs h d) = []" "sd_appliedDirectives (h_schemaDefs h d) = []"
    and src: "schemaDefinitionIn I h source" "I \<subseteq> {..<h_next h}"
    and ok: "schemaDefinitionOk N (schemaDefinitionShape h source)"
  shows "\<exists>h'. copySchemaDefinitionInner source d h = Inr h' \<and> unchangedOutside {d} h h'
         \<and> resolvesIn N h' doc
         \<and> schemaDefinitionShape h' d = schemaDefinitionShape h source
         \<and> schemaDefinitionIn (insert d {h_next h..<h_next h'}) h' d"
proof -
  let ?n = "h_next h"
  let ?rs = "sd_rootsMap (h_schemaDefs h source)"
  let ?ds = "sd_appliedDirectives (h_schemaDefs h source)"
  let ?k = "length ?ds"
  have s: "source \<in> I" "source \<noteq> d" "set ?ds \<subseteq> {..<?n}" "\<forall>kv\<in>set ?rs. snd kv < ?n"
    using src dest(3) by (auto simp: schemaDefinitionIn_def)
  have okr: "distinct (map fst ?rs)"
    and okd: "directivesOk (map (directiveShape h) ?ds)"
    using ok by (auto simp: schemaDefinitionOk_def schemaDefinitionShape_def o_def split_def)
  have okn: "\<forall>kv\<in>set ?rs. nt_name (h_types h (snd kv)) \<in> N"
    using ok by (fastforce simp: schemaDefinitionOk_def schemaDefinitionShape_def split_def)
  have p4: "\<forall>kv\<in>set (sd_rootsMap (h_schemaDefs h d)). snd kv < ?n" by (simp add: dest(4))
  have p5: "distinct (map fst (sd_rootsMap (h_schemaDefs h d)) @ map fst ?rs)"
    using okr by (simp add: dest(4))
  from copyRoots_ok[OF res dest(2) okn p4 p5] obtain h1 where
    h1: "foldM (\<lambda>(root, t) hh. addRoot root (nt_name (h_types hh t)) d hh) ?rs h = Inr h1"
      "unchangedOutside {d} h h1" "h_next h1 = ?n" "resolvesIn N h1 doc"
      "sd_appliedDirectives (h_schemaDefs h1 d) = sd_appliedDirectives (h_schemaDefs h d)"
      "\<forall>x. x \<noteq> d \<longrightarrow> h_schemaDefs h1 x = h_schemaDefs h x"
      "map (\<lambda>(root, t). (root, nt_name (h_types h1 t))) (sd_rootsMap (h_schemaDefs h1 d))
       = map (\<lambda>(root, t). (root, nt_name (h_types h t)))
           (sd_rootsMap (h_schemaDefs h d) @ ?rs)"
      "\<forall>kv\<in>set (sd_rootsMap (h_schemaDefs h1 d)). snd kv < h_next h1"
      "h_directives h1 = h_directives h"
    by blast
  have src1: "h_schemaDefs h1 source = h_schemaDefs h source" using h1(6) s(2) by simp
  have ds1: "directiveShape h1 = directiveShape h"
    by (rule directiveShape_cong[OF h1(9)])
  have d1: "set ?ds \<subseteq> {..<h_next h1}" using s(3) by (simp add: h1(3))
  have d2: "directivesOk (map (directiveShape h1) ?ds)" using okd by (simp add: ds1)
  from copyAppliedDirectives_spec[OF d1 d2, of "SchemaDefinitionRef d"] obtain D where
    D1: "copyAppliedDirectives ?ds (SchemaDefinitionRef d) h1
         = (setAppliedDirectives h1 (SchemaDefinitionRef d)
              (appliedDirectives h1 (SchemaDefinitionRef d) @ [h_next h1..<h_next h1 + ?k]))
             \<lparr>h_directives := D, h_next := h_next h1 + ?k\<rparr>"
    and D2: "\<And>r. r < h_next h1 \<Longrightarrow> D r = h_directives h1 r"
    and D3: "map (\<lambda>r. shapeOfDirective (D r)) [h_next h1..<h_next h1 + ?k]
             = map (directiveShape h1) ?ds"
    by blast
  define h2 where "h2 = copyAppliedDirectives ?ds (SchemaDefinitionRef d) h1"
  have h2: "h2 = h1\<lparr>h_schemaDefs := (h_schemaDefs h1)(d := (h_schemaDefs h1 d)
                       \<lparr>sd_appliedDirectives := [?n..<?n + ?k]\<rparr>),
                    h_directives := D, h_next := ?n + ?k\<rparr>"
    unfolding h2_def D1
    by (simp add: setAppliedDirectives_def appliedDirectives_def h1(3,5) dest(5))
  have run: "copySchemaDefinitionInner source d h = Inr h2"
    by (simp add: copySchemaDefinitionInner_def h1(1) src1 h2_def)
  have uo12: "unchangedOutside {d} h1 h2"
    using D2 by (simp add: unchangedOutside_def h2 h1(3))
  have uo: "unchangedOutside {d} h h2" by (rule unchangedOutside_trans[OF h1(2) uo12])
  have res2: "resolvesIn N h2 doc"
    by (rule resolvesIn_names[OF h1(4)]) (simp_all add: h2 h1(3))
  have next2: "h_next h2 = ?n + ?k" by (simp add: h2)
  have dirs2: "map (directiveShape h2) [?n..<?n + ?k] = map (directiveShape h) ?ds"
    unfolding ds1[symmetric] D3[symmetric] by (simp add: directiveShape_alt h2 h1(3))
  have f2: "sd_rootsMap (h_schemaDefs h2 d) = sd_rootsMap (h_schemaDefs h1 d)"
    "sd_appliedDirectives (h_schemaDefs h2 d) = [?n..<?n + ?k]"
    "h_types h2 = h_types h1"
    by (simp_all add: h2)
  have shape: "schemaDefinitionShape h2 d = schemaDefinitionShape h source"
    unfolding schemaDefinitionShape_def f2 dirs2 h1(7) by (simp add: dest(4))
  have "set [?n..<?n + ?k] \<subseteq> insert d {?n..<h_next h2}"
    using next2 by (auto simp only: set_upt atLeastLessThan_iff insert_iff)
  then have "schemaDefinitionIn (insert d {?n..<h_next h2}) h2 d"
    unfolding schemaDefinitionIn_def f2 using h1(8) by (auto simp: next2 h1(3))
  with run uo res2 shape show ?thesis by blast
qed


subsection \<open>The new schema and the shells of the types\<close>

lemma newSchema_eq:
  "newSchema w h =
     (h_next h,
      h\<lparr>h_schemas := (h_schemas h)(h_next h :=
           \<lparr>sc_schemaDefinition = None, sc_builtInTypes = builtInAt (h_next h),
            sc_typesMap = [], sc_directivesMap = [], sc_mutable = (w = MutableWorld)\<rparr>),
        h_types := (h_types h)
          (Suc (h_next h) := shellOf (h_next h) ScalarType ''Int'',
           Suc (Suc (h_next h)) := shellOf (h_next h) ScalarType ''Float'',
           Suc (Suc (Suc (h_next h))) := shellOf (h_next h) ScalarType ''String'',
           Suc (Suc (Suc (Suc (h_next h)))) := shellOf (h_next h) ScalarType ''Boolean'',
           Suc (Suc (Suc (Suc (Suc (h_next h))))) := shellOf (h_next h) ScalarType ''ID''),
        h_next := Suc (Suc (Suc (Suc (Suc (Suc (h_next h))))))\<rparr>)"
  by (simp add: newSchema_def createSchema_def builtInTypes_def createType_def setBuiltIn_def
        shellOf_def builtInAt_def)


lemma upt_Cons_add: "[n..<n + Suc k] = n # [Suc n..<Suc n + k]"
proof -
  have "n < n + Suc k" by simp
  from upt_conv_Cons[OF this] show ?thesis by (simp del: upt_Suc)
qed

lemma copyShells_ok:
  assumes "doc < h_next h"
    and "\<forall>kv\<in>set m. snd kv < h_next h
           \<and> nt_kind (h_types h (snd kv)) \<in> {ScalarType, ObjectType, UnionType, InputObjectType}
           \<and> nt_name (h_types h (snd kv)) = fst kv"
    and "distinct (map fst (sc_typesMap (h_schemas h doc)) @ map fst m)"
  shows "\<exists>h'. foldM (\<lambda>t hh. bind (copyNamedTypeShallow t doc hh)
                              (\<lambda>(shell, hh1). Inr (addTypeDefinition shell doc hh1)))
                (map snd m) h = Inr h'
         \<and> unchangedOutside {doc} h h' \<and> h_next h' = h_next h + length m
         \<and> h_schemas h' doc = (h_schemas h doc)\<lparr>sc_typesMap :=
               sc_typesMap (h_schemas h doc) @ zip (map fst m) [h_next h..<h_next h + length m]\<rparr>
         \<and> (\<forall>(kt, s)\<in>set (zip m [h_next h..<h_next h + length m]).
               sameType (h_types h' s) (shellOf doc (nt_kind (h_types h (snd kt))) (fst kt)))"
  using assms
proof (induction m arbitrary: h)
  case Nil
  then show ?case by simp
next
  case (Cons kt m)
  obtain k t where kt: "kt = (k, t)" by (cases kt)
  let ?n = "h_next h"
  let ?kind = "nt_kind (h_types h t)"
  have t: "t < ?n" "?kind \<in> {ScalarType, ObjectType, UnionType, InputObjectType}"
    "nt_name (h_types h t) = k"
    using Cons.prems(2) by (auto simp: kt)
  have fresh: "k \<notin> fst ` set (sc_typesMap (h_schemas h doc))"
    using Cons.prems(3) by (auto simp: kt)
  define h1 where "h1 = h\<lparr>h_types := (h_types h)(?n := shellOf doc ?kind k),
    h_schemas := (h_schemas h)(doc := (h_schemas h doc)\<lparr>sc_typesMap :=
        sc_typesMap (h_schemas h doc) @ [(k, ?n)]\<rparr>),
    h_next := Suc ?n\<rparr>"
  have step: "bind (copyNamedTypeShallow t doc h)
                (\<lambda>(shell, hh1). Inr (addTypeDefinition shell doc hh1)) = Inr h1"
    using t(2)
    by (auto simp: copyNamedTypeShallow_def createNamedType_def createType_def
          addTypeDefinition_def t(3) map_set_fresh[OF fresh] h1_def shellOf_def)
  have uo1: "unchangedOutside {doc} h h1"
    by (simp add: unchangedOutside_def h1_def)
  have p1: "doc < h_next h1" using Cons.prems(1) by (simp add: h1_def)
  have p2: "\<forall>kv\<in>set m. snd kv < h_next h1
           \<and> nt_kind (h_types h1 (snd kv)) \<in> {ScalarType, ObjectType, UnionType, InputObjectType}
           \<and> nt_name (h_types h1 (snd kv)) = fst kv"
    using Cons.prems(2) by (auto simp: h1_def)
  have p3: "distinct (map fst (sc_typesMap (h_schemas h1 doc)) @ map fst m)"
    using Cons.prems(3) by (simp add: h1_def kt)
  from Cons.IH[OF p1 p2 p3] obtain h' where
    h': "foldM (\<lambda>t hh. bind (copyNamedTypeShallow t doc hh)
                          (\<lambda>(shell, hh1). Inr (addTypeDefinition shell doc hh1)))
           (map snd m) h1 = Inr h'"
      "unchangedOutside {doc} h1 h'" "h_next h' = h_next h1 + length m"
      "h_schemas h' doc = (h_schemas h1 doc)\<lparr>sc_typesMap :=
           sc_typesMap (h_schemas h1 doc) @ zip (map fst m) [h_next h1..<h_next h1 + length m]\<rparr>"
      "\<forall>(kt, s)\<in>set (zip m [h_next h1..<h_next h1 + length m]).
           sameType (h_types h' s) (shellOf doc (nt_kind (h_types h1 (snd kt))) (fst kt))"
    by blast
  have next1: "h_next h1 = Suc ?n" by (simp add: h1_def)
  have run: "foldM (\<lambda>t hh. bind (copyNamedTypeShallow t doc hh)
                          (\<lambda>(shell, hh1). Inr (addTypeDefinition shell doc hh1)))
           (map snd (kt # m)) h = Inr h'"
    using step h'(1) by (simp add: kt)
  have uo: "unchangedOutside {doc} h h'" by (rule unchangedOutside_trans[OF uo1 h'(2)])
  have upt: "[?n..<?n + length (kt # m)] = ?n # [Suc ?n..<Suc ?n + length m]"
    using upt_Cons_add[of ?n "length m"] by simp
  have sch: "h_schemas h' doc = (h_schemas h doc)\<lparr>sc_typesMap :=
               sc_typesMap (h_schemas h doc) @ zip (map fst (kt # m)) [?n..<?n + length (kt # m)]\<rparr>"
    unfolding upt h'(4) next1 by (simp add: h1_def kt)
  have head: "sameType (h_types h' ?n) (shellOf doc ?kind k)"
  proof -
    have "doc \<noteq> ?n" using Cons.prems(1) by simp
    then have "sameType (h_types h' ?n) (h_types h1 ?n)"
      using unchangedOutside_at(3)[OF h'(2), of ?n] by (simp add: next1)
    moreover have "h_types h1 ?n = shellOf doc ?kind k" by (simp add: h1_def)
    ultimately show ?thesis by simp
  qed
  have tail: "\<forall>(kt, s)\<in>set (zip m [Suc ?n..<Suc ?n + length m]).
                sameType (h_types h' s) (shellOf doc (nt_kind (h_types h (snd kt))) (fst kt))"
  proof -
    { fix a b s assume "((a, b), s) \<in> set (zip m [Suc ?n..<Suc ?n + length m])"
      then have in_m: "(a, b) \<in> set m"
        and sh: "sameType (h_types h' s) (shellOf doc (nt_kind (h_types h1 b)) a)"
        using h'(5) by (auto simp: next1 dest: set_zip_leftD)
      have "b < ?n" using Cons.prems(2) in_m by auto
      then have "h_types h1 b = h_types h b" by (simp add: h1_def)
      with sh have "sameType (h_types h' s) (shellOf doc (nt_kind (h_types h b)) a)" by simp }
    then show ?thesis by auto
  qed
  have all: "\<forall>(kt, s)\<in>set (zip (kt # m) [?n..<?n + length (kt # m)]).
               sameType (h_types h' s) (shellOf doc (nt_kind (h_types h (snd kt))) (fst kt))"
    unfolding upt using head tail by (simp add: kt)
  have "h_next h' = ?n + length (kt # m)" using h'(3) next1 by simp
  with run uo sch all show ?case by blast
qed


subsection \<open>The loop over the types\<close>

lemma namedTypeIn_mono: "namedTypeIn J h x \<Longrightarrow> J \<subseteq> K \<Longrightarrow> namedTypeIn K h x"
  unfolding namedTypeIn_def
  by (meson fieldIn_mono inputFieldIn_mono subset_iff)

lemma shellFor_stable:
  assumes uo: "unchangedOutside E h h'" and E: "s \<notin> E" "doc \<notin> E" "E \<inter> I = {}"
    and doc: "doc < h_next h" and I: "I \<subseteq> {..<h_next h}"
    and sf: "shellFor N I doc h t s"
  shows "shellFor N I doc h' t s"
proof -
  have t: "t \<in> I" "namedTypeIn I h t" using sf by (auto simp: shellFor_def namedTypeIn_def)
  have tn: "t < h_next h" using t(1) I by auto
  have s: "s < h_next h" using sf by (simp add: shellFor_def)
  have uoI: "unchangedOutside (- I) h h'"
    by (rule unchangedOutside_mono[OF uo]) (use E(3) in auto)
  note src = namedType_stable[OF uoI I t(2)]
  have sch: "h_schemas h' doc = h_schemas h doc"
    by (rule unchangedOutside_at(1)[OF uo doc E(2)])
  have "s < h_next h'" using s unchangedOutside_next[OF uo] by simp
  then show ?thesis
    using sf src unchangedOutside_type[OF uo tn] unchangedOutside_type[OF uo s]
      unchangedOutside_type_at[OF uo s E(1)] typeByName_cong[OF sch]
    by (simp add: shellFor_def)
qed

lemma copyInner_ok:
  assumes "list_all2 (shellFor N I doc h) ts ss" "resolvesIn N h doc" "distinct ss"
    "doc \<notin> set ss" "I \<subseteq> {..<h_next h}"
  shows "\<exists>h'. foldM (\<lambda>t hh. case typeByName hh doc (nt_name (h_types hh t)) of
                              None \<Rightarrow> Inl SomTypeError
                            | Some dest \<Rightarrow> copyNamedTypeInner w t dest hh) ts h = Inr h'
         \<and> unchangedOutside (set ss) h h' \<and> resolvesIn N h' doc
         \<and> list_all2 (\<lambda>t s. namedTypeShape h' s = namedTypeShape h t
                            \<and> namedTypeIn (insert s {h_next h..<h_next h'}) h' s) ts ss"
  using assms
proof (induction ts arbitrary: ss h)
  case Nil
  then show ?case by simp
next
  case (Cons t ts)
  from Cons.prems(1) obtain s ss' where ss: "ss = s # ss'"
    and sf: "shellFor N I doc h t s" and rest: "list_all2 (shellFor N I doc h) ts ss'"
    by (auto simp: list_all2_Cons1)
  let ?n = "h_next h"
  have doc: "doc < ?n" using Cons.prems(2) by (simp add: resolvesIn_def)
  have d: "s < ?n" "nt_parent (h_types h s) = Some doc" "s \<notin> I"
    "nt_appliedDirectives (h_types h s) = []" "nt_fieldsMap (h_types h s) = []"
    "nt_typesList (h_types h s) = []" "nt_kind (h_types h s) = nt_kind (h_types h t)"
    "nt_name (h_types h s) = nt_name (h_types h t)"
    and src: "namedTypeIn I h t" and ok: "namedTypeOk N (namedTypeShape h t)"
    and look: "typeByName h doc (nt_name (h_types h t)) = Some s"
    using sf by (simp_all add: shellFor_def)
  from copyNamedTypeInner_ok[OF Cons.prems(2) d src Cons.prems(5) ok, of w] obtain h1 where
    h1: "copyNamedTypeInner w t s h = Inr h1" "unchangedOutside {s} h h1" "resolvesIn N h1 doc"
      "namedTypeShape h1 s = namedTypeShape h t"
      "namedTypeIn (insert s {?n..<h_next h1}) h1 s"
    by blast
  have le1: "?n \<le> h_next h1" by (rule unchangedOutside_next[OF h1(2)])
  have sdoc: "s \<noteq> doc" "s \<notin> set ss'" "distinct ss'" "doc \<notin> set ss'"
    using Cons.prems(3,4) by (auto simp: ss)
  have rest1: "list_all2 (shellFor N I doc h1) ts ss'"
  proof (rule list.rel_mono_strong[OF rest])
    fix t2 s2 assume a: "t2 \<in> set ts" "s2 \<in> set ss'" "shellFor N I doc h t2 s2"
    have e1: "s2 \<notin> {s}" using a(2) sdoc(2) by auto
    have e2: "doc \<notin> {s}" using sdoc(1) by simp
    have e3: "{s} \<inter> I = {}" using d(3) by simp
    show "shellFor N I doc h1 t2 s2"
      by (rule shellFor_stable[OF h1(2) e1 e2 e3 doc Cons.prems(5) a(3)])
  qed
  have I1: "I \<subseteq> {..<h_next h1}" using Cons.prems(5) le1 by auto
  from Cons.IH[OF rest1 h1(3) sdoc(3,4) I1] obtain h' where
    h': "foldM (\<lambda>t hh. case typeByName hh doc (nt_name (h_types hh t)) of
                         None \<Rightarrow> Inl SomTypeError
                       | Some dest \<Rightarrow> copyNamedTypeInner w t dest hh) ts h1 = Inr h'"
      "unchangedOutside (set ss') h1 h'" "resolvesIn N h' doc"
      "list_all2 (\<lambda>t s. namedTypeShape h' s = namedTypeShape h1 t
                        \<and> namedTypeIn (insert s {h_next h1..<h_next h'}) h' s) ts ss'"
    by blast
  have le': "h_next h1 \<le> h_next h'" by (rule unchangedOutside_next[OF h'(2)])
  have run: "foldM (\<lambda>t hh. case typeByName hh doc (nt_name (h_types hh t)) of
                         None \<Rightarrow> Inl SomTypeError
                       | Some dest \<Rightarrow> copyNamedTypeInner w t dest hh) (t # ts) h = Inr h'"
    by (simp add: look h1(1) h'(1))
  have uo: "unchangedOutside (set ss) h h'"
    by (rule unchangedOutside_trans[OF unchangedOutside_mono[OF h1(2)]
          unchangedOutside_mono[OF h'(2)]]) (auto simp: ss)
  let ?J = "insert s {?n..<h_next h1}"
  have below: "\<forall>s2\<in>set ss'. s2 < ?n"
    using rest by (auto simp: list_all2_conv_all_nth in_set_conv_nth shellFor_def)
  have uoJ: "unchangedOutside (- ?J) h1 h'"
    by (rule unchangedOutside_mono[OF h'(2)]) (use below sdoc(2) in auto)
  have J: "?J \<subseteq> {..<h_next h1}" using d(1) le1 by auto
  have head: "namedTypeShape h' s = namedTypeShape h t"
    "namedTypeIn (insert s {?n..<h_next h'}) h' s"
    using namedType_stable[OF uoJ J h1(5)] h1(4) le'
    by (auto intro: namedTypeIn_mono)
  have uoI: "unchangedOutside (- I) h h1"
    by (rule unchangedOutside_mono[OF h1(2)]) (use d(3) in auto)
  have tail: "list_all2 (\<lambda>t s. namedTypeShape h' s = namedTypeShape h t
                        \<and> namedTypeIn (insert s {?n..<h_next h'}) h' s) ts ss'"
  proof (rule list.rel_mono_strong[OF h'(4)])
    fix t2 s2
    assume a: "t2 \<in> set ts" "s2 \<in> set ss'"
      "namedTypeShape h' s2 = namedTypeShape h1 t2
       \<and> namedTypeIn (insert s2 {h_next h1..<h_next h'}) h' s2"
    have "namedTypeIn I h t2"
      using rest a(1) by (auto simp: list_all2_conv_all_nth in_set_conv_nth shellFor_def)
    from namedType_stable(2)[OF uoI Cons.prems(5) this]
    have "namedTypeShape h' s2 = namedTypeShape h t2" using a(3) by simp
    moreover have "namedTypeIn (insert s2 {?n..<h_next h'}) h' s2"
      using a(3) le1 by (auto intro: namedTypeIn_mono)
    ultimately show "namedTypeShape h' s2 = namedTypeShape h t2
                     \<and> namedTypeIn (insert s2 {?n..<h_next h'}) h' s2" by simp
  qed
  show ?case using run uo h'(3) head tail by (auto simp: ss)
qed


subsection \<open>The directive definitions of the schema\<close>

lemma addDirectiveDefinition_unchanged: "unchangedOutside {doc} h (addDirectiveDefinition d doc h)"
  by (simp add: unchangedOutside_def addDirectiveDefinition_def)

lemma addDirectiveDefinition_sel [simp]:
  "h_next (addDirectiveDefinition d doc h) = h_next h"
  "h_types (addDirectiveDefinition d doc h) = h_types h"
  "sc_directivesMap (h_schemas (addDirectiveDefinition d doc h) doc)
   = map_set (dd_name (h_directiveDefs h d)) d (sc_directivesMap (h_schemas h doc))"
  "sc_typesMap (h_schemas (addDirectiveDefinition d doc h) s) = sc_typesMap (h_schemas h s)"
  "sc_builtInTypes (h_schemas (addDirectiveDefinition d doc h) s) = sc_builtInTypes (h_schemas h s)"
  "sc_schemaDefinition (h_schemas (addDirectiveDefinition d doc h) s)
   = sc_schemaDefinition (h_schemas h s)"
  by (simp_all add: addDirectiveDefinition_def)

lemma resolvesIn_addDirectiveDefinition:
  "resolvesIn N h doc \<Longrightarrow> resolvesIn N (addDirectiveDefinition d doc' h) doc"
proof -
  have "typeByName (addDirectiveDefinition d doc' h) doc n = typeByName h doc n" for n
    by (simp add: typeByName_def cong: option.case_cong)
  then show "resolvesIn N h doc \<Longrightarrow> resolvesIn N (addDirectiveDefinition d doc' h) doc"
    by (simp add: resolvesIn_def)
qed

lemma copyDirectiveDefinitions_ok:
  assumes res: "resolvesIn N h doc"
    and dest: "doc \<notin> I" "sc_directivesMap (h_schemas h doc) = []"
    and src: "\<forall>kv\<in>set m. directiveDefinitionIn I h (snd kv)" "I \<subseteq> {..<h_next h}"
    and ok: "keyedBy ddsh_name (map (\<lambda>(k, d). (k, directiveDefinitionShape h d)) m)"
      "\<forall>kv\<in>set m. argumentsOk N (ddsh_args (directiveDefinitionShape h (snd kv)))"
  shows "\<exists>h'. foldM (\<lambda>d hh. bind (copyDirectiveDefinition w d doc hh)
                              (\<lambda>(copied, hh1). Inr (addDirectiveDefinition copied doc hh1)))
                (map snd m) h = Inr h'
         \<and> unchangedOutside {doc} h h'
         \<and> sc_typesMap (h_schemas h' doc) = sc_typesMap (h_schemas h doc)
         \<and> sc_schemaDefinition (h_schemas h' doc) = sc_schemaDefinition (h_schemas h doc)
         \<and> map (\<lambda>(k, x). (k, directiveDefinitionShape h' x)) (sc_directivesMap (h_schemas h' doc))
           = map (\<lambda>(k, x). (k, directiveDefinitionShape h x)) m
         \<and> (\<forall>kv\<in>set (sc_directivesMap (h_schemas h' doc)).
               directiveDefinitionIn {h_next h..<h_next h'} h' (snd kv))"
proof -
  define Inv :: "heap \<Rightarrow> bool" where "Inv = (\<lambda>hh. resolvesIn N hh doc)"
  define Rest :: "heap \<Rightarrow> heap \<Rightarrow> bool" where "Rest = (\<lambda>a b.
    sc_typesMap (h_schemas b doc) = sc_typesMap (h_schemas a doc)
    \<and> sc_schemaDefinition (h_schemas b doc) = sc_schemaDefinition (h_schemas a doc))"
  define okD :: "directive_definition_shape \<Rightarrow> bool"
    where "okD = (\<lambda>s. argumentsOk N (ddsh_args s))"
  have doc: "doc < h_next h" using res by (simp add: resolvesIn_def)
  have a_stable: "\<And>J h h' x. unchangedOutside (- J) h h' \<Longrightarrow> J \<subseteq> {..<h_next h}
      \<Longrightarrow> directiveDefinitionIn J h x
      \<Longrightarrow> directiveDefinitionIn J h' x
          \<and> directiveDefinitionShape h' x = directiveDefinitionShape h x"
    using directiveDefinition_stable by blast
  have a_mono: "\<And>J K h x. directiveDefinitionIn J h x \<Longrightarrow> J \<subseteq> K
      \<Longrightarrow> directiveDefinitionIn K h x"
    by (rule directiveDefinitionIn_mono)
  have a_step: "\<And>hh x. Inv hh \<Longrightarrow> directiveDefinitionIn I hh x \<Longrightarrow> I \<subseteq> {..<h_next hh}
      \<Longrightarrow> okD (directiveDefinitionShape hh x)
      \<Longrightarrow> \<exists>h'. copyDirectiveDefinition w x doc hh = Inr (h_next hh, h')
               \<and> unchangedOutside {} hh h' \<and> h_next hh < h_next h'
               \<and> directiveDefinitionShape h' (h_next hh) = directiveDefinitionShape hh x
               \<and> directiveDefinitionIn {h_next hh..<h_next h'} h' (h_next hh)"
  proof -
    fix hh x
    assume a: "Inv hh" "directiveDefinitionIn I hh x" "I \<subseteq> {..<h_next hh}"
      "okD (directiveDefinitionShape hh x)"
    have r: "resolvesIn N hh doc" using a(1) by (simp add: Inv_def)
    have t: "argumentsOk N (ddsh_args (directiveDefinitionShape hh x))"
      using a(4) by (simp add: okD_def)
    show "\<exists>h'. copyDirectiveDefinition w x doc hh = Inr (h_next hh, h')
               \<and> unchangedOutside {} hh h' \<and> h_next hh < h_next h'
               \<and> directiveDefinitionShape h' (h_next hh) = directiveDefinitionShape hh x
               \<and> directiveDefinitionIn {h_next hh..<h_next h'} h' (h_next hh)"
      by (rule copyDirectiveDefinition_ok[OF r a(2,3) t])
  qed
  have a_attach: "\<And>hh x. Inv hh \<Longrightarrow> x < h_next hh
      \<Longrightarrow> unchangedOutside {doc} hh (addDirectiveDefinition x doc hh)
          \<and> h_next (addDirectiveDefinition x doc hh) = h_next hh
          \<and> sc_directivesMap (h_schemas (addDirectiveDefinition x doc hh) doc)
            = map_set (ddsh_name (directiveDefinitionShape hh x)) x
                (sc_directivesMap (h_schemas hh doc))
          \<and> Inv (addDirectiveDefinition x doc hh) \<and> Rest hh (addDirectiveDefinition x doc hh)"
    by (simp add: addDirectiveDefinition_unchanged Inv_def Rest_def directiveDefinitionShape_def
          resolvesIn_addDirectiveDefinition)
  have a_inv: "\<And>hh h'. Inv hh \<Longrightarrow> unchangedOutside {} hh h'
      \<Longrightarrow> Inv h' \<and> sc_directivesMap (h_schemas h' doc) = sc_directivesMap (h_schemas hh doc)
          \<and> Rest hh h'"
  proof -
    fix hh h' assume a: "Inv hh" "unchangedOutside {} hh h'"
    have n: "doc < h_next hh" using a(1) by (auto simp: Inv_def resolvesIn_def)
    have f: "h_schemas h' doc = h_schemas hh doc"
      using unchangedOutside_at(1)[OF a(2) n] by simp
    have "resolvesIn N h' doc"
      using a(1) resolvesIn_stable[OF a(2)] by (simp add: Inv_def)
    then show "Inv h' \<and> sc_directivesMap (h_schemas h' doc) = sc_directivesMap (h_schemas hh doc)
               \<and> Rest hh h'"
      by (simp add: Inv_def Rest_def f)
  qed
  have a_trans: "\<And>h1 h2 h3. Rest h1 h2 \<Longrightarrow> Rest h2 h3 \<Longrightarrow> Rest h1 h3"
    by (simp add: Rest_def)
  have a_below: "\<And>hh. Inv hh \<Longrightarrow> doc < h_next hh" by (simp add: Inv_def resolvesIn_def)
  have i0: "Inv h" using res by (simp add: Inv_def)
  have p4: "\<forall>kv\<in>set (sc_directivesMap (h_schemas h doc)).
              directiveDefinitionIn {h_next h..<h_next h} h (snd kv)"
    by (simp add: dest(2))
  have p5: "distinct (map fst (sc_directivesMap (h_schemas h doc)) @ map fst m)"
    using ok(1) by (simp add: dest(2) keyedBy_def o_def split_def)
  have p6: "\<forall>kv\<in>set m. ddsh_name (directiveDefinitionShape h (snd kv)) = fst kv
                        \<and> okD (directiveDefinitionShape h (snd kv))"
    using ok by (auto simp: keyedBy_def okD_def)
  have "\<exists>h'. foldM (\<lambda>x hh. bind (copyDirectiveDefinition w x doc hh)
                              (\<lambda>(y, hh1). Inr (addDirectiveDefinition y doc hh1)))
              (map snd m) h = Inr h'
      \<and> unchangedOutside {doc} h h' \<and> Inv h' \<and> Rest h h'
      \<and> map (\<lambda>(k, x). (k, directiveDefinitionShape h' x)) (sc_directivesMap (h_schemas h' doc))
        = map (\<lambda>(k, x). (k, directiveDefinitionShape h x))
            (sc_directivesMap (h_schemas h doc) @ m)
      \<and> (\<forall>kv\<in>set (sc_directivesMap (h_schemas h' doc)).
            directiveDefinitionIn {h_next h..<h_next h'} h' (snd kv))"
    by (rule copy_attach_loop[where c = doc and I = I and Inv = Inv and Rest = Rest and ok = okD
      and copyOne = "\<lambda>x hh. copyDirectiveDefinition w x doc hh"
      and attach = "\<lambda>y hh. addDirectiveDefinition y doc hh"
      and entries = "\<lambda>hh. sc_directivesMap (h_schemas hh doc)"
      and shape = directiveDefinitionShape and inI = directiveDefinitionIn and name = ddsh_name
      and b = "h_next h",
      OF a_stable a_mono a_step a_attach a_inv a_trans a_below dest(1) doc i0 src(2,1) p4
         order_refl p5 p6];
      assumption)
  then show ?thesis by (auto simp: Rest_def dest(2))
qed


subsection \<open>The copy of a schema\<close>

lemma zip_shapes:
  "list_all2 (\<lambda>t s. f s = g t) (map snd sm) ss
   \<Longrightarrow> map (\<lambda>(k, s). (k, f s)) (zip (map fst sm) ss) = map (\<lambda>(k, t). (k, g t)) sm"
  by (induction sm arbitrary: ss) (auto simp: list_all2_Cons1)

lemma zip_fst_member:
  "((k, t), s) \<in> set (zip sm ss) \<Longrightarrow> (k, s) \<in> set (zip (map fst sm) ss)"
  by (induction sm arbitrary: ss) (auto simp: zip_Cons1 split: list.splits)

lemma zip_fst_memberD:
  "(k, s) \<in> set (zip (map fst sm) ss) \<Longrightarrow> \<exists>t. ((k, t), s) \<in> set (zip sm ss)"
proof (induction sm arbitrary: ss)
  case Nil
  then show ?case by simp
next
  case (Cons a sm)
  then show ?case by (cases ss; cases a) fastforce+
qed

lemma zip_snd_memberD:
  "(t, s) \<in> set (zip (map snd sm) ss) \<Longrightarrow> \<exists>k. ((k, t), s) \<in> set (zip sm ss)"
proof (induction sm arbitrary: ss)
  case Nil
  then show ?case by simp
next
  case (Cons a sm)
  then show ?case by (cases ss; cases a) fastforce+
qed

lemma list_all2_right:
  "list_all2 (\<lambda>x y. P y) xs ys \<Longrightarrow> y \<in> set ys \<Longrightarrow> P y"
  by (auto simp: list_all2_conv_all_nth in_set_conv_nth)

lemma schemaShape_names:
  "fst ` set (ssh_types (schemaShape h s)) = fst ` set (sc_typesMap (h_schemas h s))"
  by (force simp: schemaShape_def)

lemma copy_ok:
  assumes cp: "copyable h source"
  shows "\<exists>doc h'. copy w source h = Inr (doc, h')
           \<and> schemaShape h' doc = schemaShape h source \<and> copyable h' doc
           \<and> unchangedOutside (- {..<h_next h}) h h'"
proof -
  let ?n = "h_next h"
  let ?sm = "sc_typesMap (h_schemas h source)"
  let ?dm = "sc_directivesMap (h_schemas h source)"
  define I where "I = {..<?n}"
  define N where "N = typeNamesOf (schemaShape h source)"
  have N: "N = set builtInTypes \<union> fst ` set ?sm"
    by (simp add: N_def typeNamesOf_def schemaShape_names)
  have ok: "schemaOk (schemaShape h source)" and sin: "schemaIn I h source"
    using cp by (simp_all add: copyable_def I_def)
  obtain ssd where ssd: "sc_schemaDefinition (h_schemas h source) = Some ssd"
    using ok by (auto simp: schemaOk_def schemaShape_def split: option.splits)
  have src: "source < ?n" "schemaDefinitionIn I h ssd"
    "\<forall>kv\<in>set ?sm. namedTypeIn I h (snd kv)"
    "\<forall>kv\<in>set ?dm. directiveDefinitionIn I h (snd kv)"
    using sin ssd by (auto simp: schemaIn_def I_def)
  have II: "I \<subseteq> {..<?n}" by (simp add: I_def)
  have oks: "schemaDefinitionOk N (schemaDefinitionShape h ssd)"
    "keyedBy tsh_name (map (\<lambda>(k, t). (k, namedTypeShape h t)) ?sm)"
    "\<forall>kv\<in>set ?sm. namedTypeOk N (namedTypeShape h (snd kv))"
    "keyedBy ddsh_name (map (\<lambda>(k, d). (k, directiveDefinitionShape h d)) ?dm)"
    "\<forall>kv\<in>set ?dm. argumentsOk N (ddsh_args (directiveDefinitionShape h (snd kv)))"
    using ok ssd by (auto simp: schemaOk_def schemaShape_def N_def)
  have keys: "distinct (map fst ?sm)"
    "\<forall>kv\<in>set ?sm. nt_name (h_types h (snd kv)) = fst kv"
    using oks(2) by (auto simp: keyedBy_def o_def split_def namedTypeShape_def)
  have kinds: "\<forall>kv\<in>set ?sm. nt_kind (h_types h (snd kv))
                 \<in> {ScalarType, ObjectType, UnionType, InputObjectType}"
    using oks(3) by (auto simp: namedTypeOk_def namedTypeShape_def)
  text \<open>the new schema with its schema definition\<close>
  define doc where "doc = ?n"
  define h0 where "h0 = snd (newSchema w h)"
  define h1 where "h1 = snd (addSchemaDefinition doc h0)"
  define dsd where "dsd = h_next h0"
  have st: "newSchema w h = (doc, h0)"
    "addSchemaDefinition doc h0 = (doc, h1)"
    "unchangedOutside {} h h1"
    "doc < dsd" "dsd < h_next h1" "h_next h \<le> doc"
    "h_schemas h1 doc = \<lparr>sc_schemaDefinition = Some dsd, sc_builtInTypes = builtInAt doc,
           sc_typesMap = [], sc_directivesMap = [], sc_mutable = (w = MutableWorld)\<rparr>"
    "h_schemaDefs h1 dsd = \<lparr>sd_parent = Some doc, sd_appliedDirectives = [],
           sd_rootsMap = []\<rparr>"
    "\<forall>kv\<in>set (builtInAt doc). h_types h1 (snd kv) = shellOf doc ScalarType (fst kv)
                                    \<and> doc < snd kv \<and> snd kv < dsd"
    "map fst (builtInAt doc) = builtInTypes"
    by (simp_all add: doc_def h0_def h1_def dsd_def newSchema_eq addSchemaDefinition_def
          createSchemaDefinition_def unchangedOutside_def builtInAt_def builtInTypes_def)
  have le1: "?n \<le> h_next h1" by (rule unchangedOutside_next[OF st(3)])
  have docI: "doc \<notin> I" "dsd \<notin> I" using st(4,6) by (auto simp: I_def)
  have uoI1: "unchangedOutside (- I) h h1" by (rule unchangedOutside_mono[OF st(3)]) simp
  have src1: "h_schemas h1 source = h_schemas h source"
    using unchangedOutside_at(1)[OF st(3) src(1)] by simp
  text \<open>the shells\<close>
  have p2: "\<forall>kv\<in>set ?sm. snd kv < h_next h1
           \<and> nt_kind (h_types h1 (snd kv)) \<in> {ScalarType, ObjectType, UnionType, InputObjectType}
           \<and> nt_name (h_types h1 (snd kv)) = fst kv"
  proof
    fix kv assume kv: "kv \<in> set ?sm"
    then have "snd kv < ?n" using src(3) by (auto simp: namedTypeIn_def I_def)
    then show "snd kv < h_next h1
           \<and> nt_kind (h_types h1 (snd kv)) \<in> {ScalarType, ObjectType, UnionType, InputObjectType}
           \<and> nt_name (h_types h1 (snd kv)) = fst kv"
      using kv keys(2) kinds le1 unchangedOutside_type(1,2)[OF st(3)] by simp
  qed
  have p3: "distinct (map fst (sc_typesMap (h_schemas h1 doc)) @ map fst ?sm)"
    using keys(1) by (simp add: st(7))
  have docn: "doc < h_next h1" using st(4,5) by simp
  let ?shells = "[h_next h1..<h_next h1 + length ?sm]"
  from copyShells_ok[OF docn p2 p3] obtain h2 where
    h2: "foldM (\<lambda>t hh. bind (copyNamedTypeShallow t doc hh)
                              (\<lambda>(shell, hh1). Inr (addTypeDefinition shell doc hh1)))
                (map snd ?sm) h1 = Inr h2"
      "unchangedOutside {doc} h1 h2" "h_next h2 = h_next h1 + length ?sm"
      "h_schemas h2 doc = (h_schemas h1 doc)\<lparr>sc_typesMap :=
               sc_typesMap (h_schemas h1 doc) @ zip (map fst ?sm) ?shells\<rparr>"
      "\<forall>(kt, s)\<in>set (zip ?sm ?shells).
         sameType (h_types h2 s) (shellOf doc (nt_kind (h_types h1 (snd kt))) (fst kt))"
    by blast
  have doc2: "sc_typesMap (h_schemas h2 doc) = zip (map fst ?sm) ?shells"
    "sc_builtInTypes (h_schemas h2 doc) = builtInAt doc"
    "sc_schemaDefinition (h_schemas h2 doc) = Some dsd"
    "sc_directivesMap (h_schemas h2 doc) = []"
    by (simp_all add: h2(4) st(7))
  have le2: "h_next h1 \<le> h_next h2" by (simp add: h2(3))
  have uo02: "unchangedOutside {doc} h h2"
    by (rule unchangedOutside_trans[OF unchangedOutside_mono[OF st(3)] h2(2)]) simp
  have uoI2: "unchangedOutside (- I) h h2"
    by (rule unchangedOutside_mono[OF uo02]) (use docI in simp)
  have len: "length (map fst ?sm) = length ?shells" by simp
  have shell_rec: "nt_name (h_types h2 s) = k \<and> nt_kind (h_types h2 s) = nt_kind (h_types h t)
      \<and> nt_parent (h_types h2 s) = Some doc \<and> nt_appliedDirectives (h_types h2 s) = []
      \<and> nt_fieldsMap (h_types h2 s) = [] \<and> nt_typesList (h_types h2 s) = []
      \<and> h_next h1 \<le> s \<and> s < h_next h2 \<and> (k, t) \<in> set ?sm \<and> t < ?n"
    if a: "((k, t), s) \<in> set (zip ?sm ?shells)" for k t s
  proof -
    have m: "(k, t) \<in> set ?sm" and sh: "s \<in> set ?shells"
      using a by (auto dest: set_zip_leftD set_zip_rightD)
    have t: "t < ?n" using src(3) m by (auto simp: namedTypeIn_def I_def)
    have "sameType (h_types h2 s) (shellOf doc (nt_kind (h_types h1 t)) k)"
      using h2(5) a by auto
    moreover have "nt_kind (h_types h1 t) = nt_kind (h_types h t)"
      by (rule unchangedOutside_type(1)[OF st(3) t])
    moreover have "h_next h1 \<le> s \<and> s < h_next h2" using sh by (simp add: h2(3))
    ultimately show ?thesis using m t by (simp add: sameType_def shellOf_def)
  qed
  have res2: "resolvesIn N h2 doc"
    unfolding resolvesIn_def
  proof (intro conjI ballI)
    show "doc < h_next h2" using docn le2 by simp
  next
    fix n assume n: "n \<in> N"
    show "\<exists>t. typeByName h2 doc n = Some t \<and> t < h_next h2 \<and> nt_name (h_types h2 t) = n"
    proof (cases "n \<in> set (map fst ?sm)")
      case True
      with map_of_zip_is_Some[OF len, of n] obtain s where
        s: "map_of (zip (map fst ?sm) ?shells) n = Some s" by blast
      from map_of_SomeD[OF s] zip_fst_memberD obtain t where
        "((n, t), s) \<in> set (zip ?sm ?shells)" by meson
      from shell_rec[OF this] s show ?thesis by (simp add: typeByName_def doc2)
    next
      case False
      with n have b: "n \<in> set (map fst (builtInAt doc))" by (auto simp: N st(10))
      have none: "map_of (zip (map fst ?sm) ?shells) n = None"
        using False map_of_zip_is_None[OF len, of n] by simp
      from b obtain b where b: "(n, b) \<in> set (builtInAt doc)" by auto
      have "distinct (map fst (builtInAt doc))" by (simp add: st(10) builtInTypes_def)
      from map_of_is_SomeI[OF this b] have look: "map_of (builtInAt doc) n = Some b" .
      have rec: "h_types h1 b = shellOf doc ScalarType n" "doc < b" "b < dsd"
        using st(9) b by auto
      have "b < h_next h1" "b \<notin> {doc}" using rec(2,3) st(5) by auto
      from unchangedOutside_at(3)[OF h2(2) this]
      have "nt_name (h_types h2 b) = n" by (simp add: sameType_def rec(1) shellOf_def)
      moreover have "b < h_next h2" using rec(3) st(5) le2 by simp
      ultimately show ?thesis by (simp add: typeByName_def doc2 none look)
    qed
  qed
  have dk: "distinct (map fst (zip (map fst ?sm) ?shells))"
    using keys(1) by (simp add: map_fst_zip)
  have sf2: "list_all2 (shellFor N I doc h2) (map snd ?sm) ?shells"
    unfolding list_all2_iff
  proof (intro conjI ballI)
    show "length (map snd ?sm) = length ?shells" by simp
  next
    fix ts assume tsin: "ts \<in> set (zip (map snd ?sm) ?shells)"
    obtain t s where ts1: "ts = (t, s)" by (cases ts)
    have ts: "ts = (t, s)" "(t, s) \<in> set (zip (map snd ?sm) ?shells)"
      using tsin ts1 by simp_all
    from zip_snd_memberD[OF ts(2)] obtain k where k: "((k, t), s) \<in> set (zip ?sm ?shells)"
      by blast
    note r = shell_rec[OF k]
    have m: "(k, t) \<in> set ?sm" using r by simp
    have nm: "nt_name (h_types h t) = k" using keys(2) m by auto
    have tin: "namedTypeIn I h t" using src(3) m by auto
    have tt: "t < ?n" using r by simp
    note st2 = namedType_stable[OF uoI2 II tin]
    have name2: "nt_name (h_types h2 t) = k" "nt_kind (h_types h2 t) = nt_kind (h_types h t)"
      using unchangedOutside_type(1,2)[OF uo02 tt] nm by simp_all
    have look: "typeByName h2 doc k = Some s"
      using map_of_is_SomeI[OF dk zip_fst_member[OF k]] by (simp add: typeByName_def doc2)
    have "s \<notin> I" using r le1 by (auto simp: I_def)
    moreover have "namedTypeOk N (namedTypeShape h2 t)" using oks(3) m st2(2) by auto
    ultimately have "shellFor N I doc h2 t s"
      using r look name2 st2(1) by (simp add: shellFor_def)
    then show "case ts of (t, s) \<Rightarrow> shellFor N I doc h2 t s" by (simp add: ts(1))
  qed
  text \<open>the schema definition\<close>
  have dsd2: "h_schemaDefs h2 dsd = h_schemaDefs h1 dsd"
    using unchangedOutside_at(2)[OF h2(2), of dsd] st(4,5) by simp
  have dsdn: "dsd < h_next h2" using st(5) le2 by simp
  have I2: "I \<subseteq> {..<h_next h2}" using le1 le2 by (auto simp: I_def)
  note sd2 = schemaDefinition_stable[OF uoI2 II src(2)]
  have oksd2: "schemaDefinitionOk N (schemaDefinitionShape h2 ssd)" using oks(1) sd2(2) by simp
  have e2: "sd_parent (h_schemaDefs h2 dsd) = Some doc" "sd_rootsMap (h_schemaDefs h2 dsd) = []"
    "sd_appliedDirectives (h_schemaDefs h2 dsd) = []"
    by (simp_all add: dsd2 st(8))
  from copySchemaDefinitionInner_ok[OF res2 dsdn e2(1) docI(2) e2(2,3) sd2(1) I2 oksd2]
  obtain h3 where
    h3: "copySchemaDefinitionInner ssd dsd h2 = Inr h3" "unchangedOutside {dsd} h2 h3"
      "resolvesIn N h3 doc" "schemaDefinitionShape h3 dsd = schemaDefinitionShape h2 ssd"
      "schemaDefinitionIn (insert dsd {h_next h2..<h_next h3}) h3 dsd"
    by blast
  have le3: "h_next h2 \<le> h_next h3" by (rule unchangedOutside_next[OF h3(2)])
  have doc2n: "doc < h_next h2" using docn le2 by simp
  have uoI3: "unchangedOutside (- I) h h3"
    by (rule unchangedOutside_trans[OF uoI2 unchangedOutside_mono[OF h3(2)]])
       (use docI in simp)
  have I3: "I \<subseteq> {..<h_next h3}" using I2 le3 by auto
  text \<open>the types\<close>
  have sf3: "list_all2 (shellFor N I doc h3) (map snd ?sm) ?shells"
  proof (rule list.rel_mono_strong[OF sf2])
    fix t s assume a: "s \<in> set ?shells" "shellFor N I doc h2 t s"
    have e1: "s \<notin> {dsd}" using a(1) st(5) by auto
    have e2: "doc \<notin> {dsd}" using st(4) by simp
    have e3: "{dsd} \<inter> I = {}" using docI(2) by simp
    show "shellFor N I doc h3 t s"
      by (rule shellFor_stable[OF h3(2) e1 e2 e3 doc2n I2 a(2)])
  qed
  have ds: "distinct ?shells" "doc \<notin> set ?shells" using docn by simp_all
  from copyInner_ok[OF sf3 h3(3) ds I3, of w] obtain h4 where
    h4: "foldM (\<lambda>t hh. case typeByName hh doc (nt_name (h_types hh t)) of
                              None \<Rightarrow> Inl SomTypeError
                            | Some dest \<Rightarrow> copyNamedTypeInner w t dest hh) (map snd ?sm) h3
         = Inr h4"
      "unchangedOutside (set ?shells) h3 h4" "resolvesIn N h4 doc"
      "list_all2 (\<lambda>t s. namedTypeShape h4 s = namedTypeShape h3 t
                        \<and> namedTypeIn (insert s {h_next h3..<h_next h4}) h4 s)
         (map snd ?sm) ?shells"
    by blast
  have le4: "h_next h3 \<le> h_next h4" by (rule unchangedOutside_next[OF h4(2)])
  have shI: "set ?shells \<subseteq> - I" using le1 by (auto simp: I_def)
  have uoI4: "unchangedOutside (- I) h h4"
    by (rule unchangedOutside_trans[OF uoI3 unchangedOutside_mono[OF h4(2) shI]])
  have I4: "I \<subseteq> {..<h_next h4}" using I3 le4 by auto
  have doc3: "h_schemas h3 doc = h_schemas h2 doc"
    using unchangedOutside_at(1)[OF h3(2) doc2n] st(4) by simp
  have doc4: "h_schemas h4 doc = h_schemas h2 doc"
    using unchangedOutside_at(1)[OF h4(2), of doc] doc2n le3 ds(2) doc3 by simp
  text \<open>the directive definitions\<close>
  have dd4: "\<forall>kv\<in>set ?dm. directiveDefinitionIn I h4 (snd kv)"
    and ddsh4: "\<forall>kv\<in>set ?dm. directiveDefinitionShape h4 (snd kv)
                              = directiveDefinitionShape h (snd kv)"
    using src(4) directiveDefinition_stable[OF uoI4 II] by auto
  have ddmap4: "map (\<lambda>(k, d). (k, directiveDefinitionShape h4 d)) ?dm
                = map (\<lambda>(k, d). (k, directiveDefinitionShape h d)) ?dm"
    using ddsh4 by auto
  have ok4: "keyedBy ddsh_name (map (\<lambda>(k, d). (k, directiveDefinitionShape h4 d)) ?dm)"
    "\<forall>kv\<in>set ?dm. argumentsOk N (ddsh_args (directiveDefinitionShape h4 (snd kv)))"
    using oks(4,5) ddsh4 by (simp_all add: ddmap4)
  have dirs4: "sc_directivesMap (h_schemas h4 doc) = []" by (simp add: doc4 doc2)
  from copyDirectiveDefinitions_ok[OF h4(3) docI(1) dirs4 dd4 I4 ok4, of w] obtain h5 where
    h5: "foldM (\<lambda>d hh. bind (copyDirectiveDefinition w d doc hh)
                              (\<lambda>(copied, hh1). Inr (addDirectiveDefinition copied doc hh1)))
                (map snd ?dm) h4 = Inr h5"
      "unchangedOutside {doc} h4 h5"
      "sc_typesMap (h_schemas h5 doc) = sc_typesMap (h_schemas h4 doc)"
      "sc_schemaDefinition (h_schemas h5 doc) = sc_schemaDefinition (h_schemas h4 doc)"
      "map (\<lambda>(k, x). (k, directiveDefinitionShape h5 x)) (sc_directivesMap (h_schemas h5 doc))
       = map (\<lambda>(k, x). (k, directiveDefinitionShape h4 x)) ?dm"
      "\<forall>kv\<in>set (sc_directivesMap (h_schemas h5 doc)).
         directiveDefinitionIn {h_next h4..<h_next h5} h5 (snd kv)"
    by blast
  have le5: "h_next h4 \<le> h_next h5" by (rule unchangedOutside_next[OF h5(2)])
  text \<open>the run\<close>
  have src0: "h_schemas h0 source = h_schemas h source"
    using src(1) by (simp add: h0_def newSchema_eq)
  have src3: "h_schemas h3 source = h_schemas h source"
    using unchangedOutside_at(1)[OF uoI3 src(1)] src(1) by (simp add: I_def)
  have src4: "h_schemas h4 source = h_schemas h source"
    using unchangedOutside_at(1)[OF uoI4 src(1)] src(1) by (simp add: I_def)
  have run: "copy w source h = Inr (doc, h5)"
    by (simp add: copy_def st(1,2) src0 ssd src1 h2(1) doc2(3) h3(1) src3 h4(1) src4 h5(1))
  text \<open>the shape of the copy\<close>
  have doc5: "sc_typesMap (h_schemas h5 doc) = zip (map fst ?sm) ?shells"
    "sc_schemaDefinition (h_schemas h5 doc) = Some dsd"
    by (simp_all add: h5(3,4) doc4 doc2)
  have uo35: "unchangedOutside (set ?shells \<union> {doc}) h3 h5"
    by (rule unchangedOutside_trans[OF unchangedOutside_mono[OF h4(2)]
          unchangedOutside_mono[OF h5(2)]]) auto
  let ?Jd = "insert dsd {h_next h2..<h_next h3}"
  have uoJd: "unchangedOutside (- ?Jd) h3 h5"
    by (rule unchangedOutside_mono[OF uo35]) (use st(4,5) h2(3) in auto)
  have Jd: "?Jd \<subseteq> {..<h_next h3}" using dsdn le3 by auto
  note sd5 = schemaDefinition_stable[OF uoJd Jd h3(5)]
  have sdshape: "schemaDefinitionShape h5 dsd = schemaDefinitionShape h ssd"
    by (simp add: sd5(2) h3(4) sd2(2))
  have types5: "list_all2 (\<lambda>t s. namedTypeShape h5 s = namedTypeShape h t
                             \<and> namedTypeIn {..<h_next h5} h5 s) (map snd ?sm) ?shells"
  proof (rule list.rel_mono_strong[OF h4(4)])
    fix t s
    assume a: "t \<in> set (map snd ?sm)" "s \<in> set ?shells"
      "namedTypeShape h4 s = namedTypeShape h3 t
       \<and> namedTypeIn (insert s {h_next h3..<h_next h4}) h4 s"
    let ?J = "insert s {h_next h3..<h_next h4}"
    have sb: "h_next h1 \<le> s" "s < h_next h2" using a(2) by (simp_all add: h2(3))
    have uoJ: "unchangedOutside (- ?J) h4 h5"
      by (rule unchangedOutside_mono[OF h5(2)]) (use sb docn le2 le3 in auto)
    have J: "?J \<subseteq> {..<h_next h4}" using sb le3 le4 by auto
    have inJ: "namedTypeIn ?J h4 s" using a(3) by simp
    note s5 = namedType_stable[OF uoJ J inJ]
    have "namedTypeIn I h t" using src(3) a(1) by auto
    from namedType_stable(2)[OF uoI3 II this]
    have "namedTypeShape h5 s = namedTypeShape h t" using a(3) s5(2) by simp
    moreover have "namedTypeIn {..<h_next h5} h5 s"
      by (rule namedTypeIn_mono[OF s5(1)]) (use J le5 in auto)
    ultimately show "namedTypeShape h5 s = namedTypeShape h t
                     \<and> namedTypeIn {..<h_next h5} h5 s" by simp
  qed
  have tshape: "map (\<lambda>(k, s). (k, namedTypeShape h5 s)) (zip (map fst ?sm) ?shells)
                = map (\<lambda>(k, t). (k, namedTypeShape h t)) ?sm"
    by (rule zip_shapes) (rule list.rel_mono_strong[OF types5], simp)
  have shape: "schemaShape h5 doc = schemaShape h source"
    unfolding schemaShape_def doc5 ssd h5(5) ddmap4 tshape by (simp add: sdshape)
  have "schemaDefinitionIn {..<h_next h5} h5 dsd"
    by (rule schemaDefinitionIn_mono[OF sd5(1)]) (use Jd le4 le5 in auto)
  moreover have "\<forall>kv\<in>set (zip (map fst ?sm) ?shells). namedTypeIn {..<h_next h5} h5 (snd kv)"
  proof
    fix kv assume kvin: "kv \<in> set (zip (map fst ?sm) ?shells)"
    obtain k0 s0 where kv: "kv = (k0, s0)" by (cases kv)
    have "s0 \<in> set ?shells" by (rule set_zip_rightD[OF kvin[unfolded kv]])
    then have "snd kv \<in> set ?shells" by (simp only: kv snd_conv)
    from list_all2_right[OF list.rel_mono_strong[OF types5] this,
        of "\<lambda>s. namedTypeIn {..<h_next h5} h5 s"]
    show "namedTypeIn {..<h_next h5} h5 (snd kv)" by simp
  qed
  moreover have "\<forall>kv\<in>set (sc_directivesMap (h_schemas h5 doc)).
                  directiveDefinitionIn {..<h_next h5} h5 (snd kv)"
    using h5(6) by (auto intro: directiveDefinitionIn_mono)
  moreover have "doc < h_next h5" using doc2n le3 le4 le5 by simp
  ultimately have "schemaIn {..<h_next h5} h5 doc"
    by (simp add: schemaIn_def doc5)
  then have "copyable h5 doc" using ok by (simp add: copyable_def shape)
  moreover have "unchangedOutside (- {..<h_next h}) h h5"
    unfolding I_def[symmetric]
    by (rule unchangedOutside_trans[OF uoI4 unchangedOutside_mono[OF h5(2)]])
       (use docI in simp)
  ultimately show ?thesis using run shape by blast
qed


subsection \<open>The round trip\<close>

text \<open>
  The round trip of a well-formed schema. A schema is \<open>copyable\<close> when it has its schema
  definition, its maps are keyed by the names of their entries, every directive has one
  value per argument name, every type is of a kind \<open>createNamedType\<close> has a branch for,
  every field, input field and argument has a type without a list of \<open>undefined\<close>, every
  type referred to has the name of a type of the schema or of a built-in type, and all
  its objects are allocated. For such a schema \<open>x\<close> both \<open>x.toImmutable().toMutable()\<close> and
  \<open>x.toMutable().toImmutable()\<close> return, the schema returned has the shape of \<open>x\<close> (the
  same schema definition with its roots and directive applications, the same types with
  their fields, arguments, members and directive applications, the same directive
  definitions, each map with the same keys in the same order), and \<open>x\<close> itself is as it
  was.
\<close>

theorem round_trip_structurally_equal:
  assumes "copyable h x"
  shows "(\<exists>y h1 z h2. toImmutable x h = Inr (y, h1) \<and> toMutable y h1 = Inr (z, h2)
            \<and> schemaShape h2 z = schemaShape h2 x \<and> schemaShape h2 x = schemaShape h x)
       \<and> (\<exists>y h1 z h2. toMutable x h = Inr (y, h1) \<and> toImmutable y h1 = Inr (z, h2)
            \<and> schemaShape h2 z = schemaShape h2 x \<and> schemaShape h2 x = schemaShape h x)"
proof -
  let ?I = "{..<h_next h}"
  have xin: "schemaIn ?I h x" using assms by (simp add: copyable_def)
  have both: "\<exists>y h1 z h2. copy w x h = Inr (y, h1) \<and> copy w' y h1 = Inr (z, h2)
            \<and> schemaShape h2 z = schemaShape h2 x \<and> schemaShape h2 x = schemaShape h x"
    for w w'
  proof -
    from copy_ok[OF assms, of w] obtain y h1 where
      1: "copy w x h = Inr (y, h1)" "schemaShape h1 y = schemaShape h x" "copyable h1 y"
        "unchangedOutside (- ?I) h h1"
      by blast
    from copy_ok[OF 1(3), of w'] obtain z h2 where
      2: "copy w' y h1 = Inr (z, h2)" "schemaShape h2 z = schemaShape h1 y"
        "unchangedOutside (- {..<h_next h1}) h1 h2"
      by blast
    note x1 = schema_stable[OF 1(4) subset_refl xin]
    have le: "h_next h \<le> h_next h1" by (rule unchangedOutside_next[OF 1(4)])
    have "unchangedOutside (- ?I) h1 h2"
      by (rule unchangedOutside_mono[OF 2(3)]) (use le in auto)
    moreover have "?I \<subseteq> {..<h_next h1}" using le by auto
    ultimately have "schemaShape h2 x = schemaShape h1 x"
      using x1(1) by (rule schema_stable(2))
    then have "schemaShape h2 x = schemaShape h x" "schemaShape h2 z = schemaShape h2 x"
      using x1(2) 1(2) 2(2) by simp_all
    with 1(1) 2(1) show ?thesis by blast
  qed
  show ?thesis
    unfolding toImmutable_def toMutable_def using both by blast
qed


theorem round_trip_structurally_equal_witness:
  "copyable example_heap example_root
   \<and> (\<exists>y h1 z h2. toImmutable example_root example_heap = Inr (y, h1)
          \<and> toMutable y h1 = Inr (z, h2)
          \<and> schemaShape h2 z = schemaShape h2 example_root)"
proof -
  have c: "copyable example_heap example_root"
    by (simp add: example_heap_def example_root_def example_schema_def som_defs split_def
          Let_def copyable_def schemaOk_def schemaIn_def schemaShape_def namedTypeShape_def
          fieldShape_def namedTypeOk_def fieldsOk_def inputFieldsOk_def keyedBy_def
          argumentsOk_def directivesOk_def typeResolves_def typeNamesOf_def
          schemaDefinitionOk_def schemaDefinitionShape_def schemaDefinitionIn_def
          namedTypeIn_def fieldIn_def typeAllocated_def)
  from round_trip_structurally_equal [OF c] c show ?thesis by blast
qed

text \<open>
  Claim C2: for every schema \<open>x\<close>, \<open>x.toImmutable().toMutable()\<close> and
  \<open>x.toMutable().toImmutable()\<close> are structurally equal to \<open>x\<close>. On two schemas that the
  library builds itself the first copy does not return, so there is no schema to compare.
  After \<open>s.remove()\<close> the field \<open>A.f\<close> of the example still refers to the scalar type \<open>S\<close>,
  which is no longer a type of the schema (\<open>remove\<close> is documented to remove the element
  from its referencers, and its list of referencers is empty because \<open>addField\<close> recorded
  none): \<open>toImmutable\<close> looks the name up in the copy, finds nothing and fails on
  \<open>undefined\<close>. The schema \<open>Schema.parse('scalar S')\<close> has no schema definition, because
  \<open>buildSchemaInternal\<close> adds one only at a \<open>SchemaDefinition\<close> node, whereas
  \<open>MutableSchema.empty\<close> and the copy always add one: \<open>toMutable\<close> fails on the assertion of
  the getter \<open>schemaDefinition\<close>.
\<close>

theorem round_trip_fails:
  "(case example_removed of
      Inl e \<Rightarrow> False
    | Inr (schema, h) \<Rightarrow> toImmutable schema h = Inl SomTypeError)
   \<and> (case parsed_scalar_schema of
        Inl e \<Rightarrow> False
      | Inr (schema, h) \<Rightarrow>
          toMutable schema h
          = Inl (SomAssertionFailed
                   ''Badly constructed schema; doesn't have a schema definition''))"
  by (simp add: example_removed_def parsed_scalar_schema_def example_schema_def som_defs
        split_def Let_def)

end
